(* ===== verification/Prelude.thy ===== *)
theory Prelude
  imports Main "HOL-Library.Word" "HOL-Library.Sublist"
begin

text \<open>
  What every theory of the development shares.

  \<^item> Go's error values (\<open>gerror\<close>) with the text their \<open>Error()\<close> method returns, and the
    result of a Go call (\<open>res\<close>): a value with a nil error, a non-nil error, or a run-time panic.
  \<^item> Calls with effects on the outside world, as state passing over an abstract world, and the
    combinator \<open>on_res\<close> that is Go's \<open>x, err := m(); if err != nil { h }; k\<close>.
  \<^item> Strings as byte lists: searching (\<open>str_contains\<close>), decimal printing and parsing.
  \<^item> The collections \<open>eff_simps\<close> and \<open>str_simps\<close> that the component proofs rewrite with.
\<close>

unbundle bit_operations_syntax

named_theorems eff_simps "evaluation of effectful calls"
named_theorems str_simps "strings and their printing"

section \<open>Errors and results\<close>

text \<open>
  The dynamic types of the error values the program makes or inspects. Types of the standard
  library appear where \<open>shouldRetry\<close> switches on them; \<open>ApiErr\<close> is an error of a client library
  (its reason and its text).
\<close>

datatype gerror =
    ErrorString string
  | KopError int string
  | HttpError int string
  | ApiError string int string string string
  | EOF
  | UnexpectedEOF
  | DNSError string
  | OpError string gerror
  | UrlError string string gerror
  | ApiErr string string

datatype 'a res = Ok 'a | Err gerror | Panic string

fun is_ok :: "'a res \<Rightarrow> bool" where
  "is_ok (Ok _) = True"
| "is_ok _ = False"

fun is_panic :: "'a res \<Rightarrow> bool" where
  "is_panic (Panic _) = True"
| "is_panic _ = False"

lemma is_ok_iff: "is_ok r \<longleftrightarrow> (\<exists>x. r = Ok x)"
  by (cases r) auto

type_synonym ('w, 'a) eff = "'w \<Rightarrow> 'a res \<times> 'w"

definition on_res :: "('w, 'a) eff \<Rightarrow> ('a \<Rightarrow> ('w, 'b) eff) \<Rightarrow> (gerror \<Rightarrow> ('w, 'b) eff) \<Rightarrow> ('w, 'b) eff" where
  "on_res m k h w =
     (case m w of
        (Ok x, w') \<Rightarrow> k x w'
      | (Err e, w') \<Rightarrow> h e w'
      | (Panic p, w') \<Rightarrow> (Panic p, w'))"

lemma on_res_Ok [eff_simps]: "m w = (Ok x, w') \<Longrightarrow> on_res m k h w = k x w'"
  by (simp add: on_res_def)

lemma on_res_Err [eff_simps]: "m w = (Err e, w') \<Longrightarrow> on_res m k h w = h e w'"
  by (simp add: on_res_def)

lemma on_res_Panic [eff_simps]: "m w = (Panic p, w') \<Longrightarrow> on_res m k h w = (Panic p, w')"
  by (simp add: on_res_def)

lemma on_res_OkE:
  assumes "on_res m k h w = (Ok y, w')"
  obtains (ok) x v where "m w = (Ok x, v)" "k x v = (Ok y, w')"
  | (err) e v where "m w = (Err e, v)" "h e v = (Ok y, w')"
  using assms by (auto simp: on_res_def split: prod.splits res.splits)

text \<open>A call keeps a predicate of the state, whatever it returns.\<close>

definition keeps :: "('s \<Rightarrow> bool) \<Rightarrow> ('s \<Rightarrow> 'a \<times> 's) \<Rightarrow> bool" where
  "keeps Q m \<longleftrightarrow> (\<forall>s. Q s \<longrightarrow> Q (snd (m s)))"

lemma keepsD: "keeps Q m \<Longrightarrow> Q s \<Longrightarrow> m s = (r, s') \<Longrightarrow> Q s'"
  unfolding keeps_def by (metis snd_conv)

lemma keeps_return [intro]: "keeps Q (\<lambda>s. (r, s))"
  by (simp add: keeps_def)

lemma keeps_on_res [intro]:
  assumes "keeps Q m" "\<And>x. keeps Q (k x)" "\<And>e. keeps Q (h e)"
  shows "keeps Q (on_res m k h)"
  using assms by (auto simp: keeps_def on_res_def split: prod.splits res.splits; metis snd_conv)

text \<open>A call never panics.\<close>

definition calm :: "('s, 'a) eff \<Rightarrow> bool" where
  "calm m \<longleftrightarrow> (\<forall>s. \<not> is_panic (fst (m s)))"

lemma calmD: "calm m \<Longrightarrow> m s \<noteq> (Panic p, s')"
  unfolding calm_def by (metis fst_conv is_panic.simps(1))

lemma calm_return [intro]: "\<not> is_panic r \<Longrightarrow> calm (\<lambda>s. (r, s))"
  by (simp add: calm_def)

lemma calm_on_res [intro]:
  assumes "calm m" "\<And>x. calm (k x)" "\<And>e. calm (h e)"
  shows "calm (on_res m k h)"
  using assms calmD [OF assms(1)] by (auto simp: calm_def on_res_def split: prod.splits res.splits)

section \<open>Strings\<close>

abbreviation str_contains :: "string \<Rightarrow> string \<Rightarrow> bool" where
  "str_contains s sub \<equiv> sublist sub s"

lemma str_contains_left [str_simps, intro]: "str_contains s sub \<Longrightarrow> str_contains (s @ t) sub"
  unfolding sublist_def by (metis append_assoc)

lemma str_contains_right [str_simps, intro]: "str_contains t sub \<Longrightarrow> str_contains (s @ t) sub"
  unfolding sublist_def by (metis append_assoc)

lemma str_contains_Cons [str_simps, intro]: "str_contains t sub \<Longrightarrow> str_contains (c # t) sub"
  using str_contains_right [of sub t "[c]"] by simp

definition digit :: "nat \<Rightarrow> char" where
  "digit d = char_of (48 + d)"

fun fmt_dec :: "nat \<Rightarrow> string \<Rightarrow> string" where
  "fmt_dec n acc =
     (if n < 10 then digit n # acc else fmt_dec (n div 10) (digit (n mod 10) # acc))"

declare fmt_dec.simps [simp del]

definition dec :: "nat \<Rightarrow> string" where
  "dec n = fmt_dec n []"

definition dec_int :: "int \<Rightarrow> string" where
  "dec_int i = (if i < 0 then ''-'' @ dec (nat (- i)) else dec (nat i))"

text \<open>The text of each error: its \<open>Error()\<close> method.\<close>

fun error_text :: "gerror \<Rightarrow> string" where
  "error_text (ErrorString s) = s"
| "error_text (KopError code msg) =
     ''Kop Error: Status Code: '' @ dec_int code @ '' Message: '' @ msg"
| "error_text (HttpError code msg) =
     ''http error: code '' @ dec_int code @ '', message '' @ msg"
| "error_text (ApiError req code typ msg detail) =
     ''Ksyun API Error: RequestId: '' @ req @ '' Status Code: '' @ dec_int code
       @ '' Type: '' @ typ @ '' Message: '' @ msg @ '' Detail: '' @ detail"
| "error_text EOF = ''EOF''"
| "error_text UnexpectedEOF = ''unexpected EOF''"
| "error_text (DNSError s) = s"
| "error_text (OpError op e) = op @ '': '' @ error_text e"
| "error_text (UrlError op url e) = op @ '' '' @ CHR 0x22 # url @ CHR 0x22 # '': '' @ error_text e"
| "error_text (ApiErr reason msg) = msg"

section \<open>Decimal printing\<close>

definition is_digit :: "char \<Rightarrow> bool" where
  "is_digit c = (48 \<le> (of_char c :: nat) \<and> (of_char c :: nat) \<le> 57)"

definition digit_val :: "char \<Rightarrow> nat" where
  "digit_val c = (of_char c :: nat) - 48"

fun dec_val :: "nat \<Rightarrow> string \<Rightarrow> nat" where
  "dec_val n [] = n"
| "dec_val n (c # cs) = dec_val (10 * n + digit_val c) cs"

lemma of_char_digit [simp]: "d < 10 \<Longrightarrow> (of_char (digit d) :: nat) = 48 + d"
  by (simp add: digit_def)

lemma is_digit_digit [simp]: "d < 10 \<Longrightarrow> is_digit (digit d)"
  by (simp add: is_digit_def)

lemma digit_val_digit [simp]: "d < 10 \<Longrightarrow> digit_val (digit d) = d"
  by (simp add: digit_val_def)

lemma fmt_dec_append: "fmt_dec n (acc @ rest) = fmt_dec n acc @ rest"
proof (induction n acc rule: fmt_dec.induct)
  case (1 n acc)
  show ?case
  proof (cases "n < 10")
    case True
    then show ?thesis by (simp add: fmt_dec.simps [of n])
  next
    case False
    then show ?thesis using "1.IH" by (simp add: fmt_dec.simps [of n])
  qed
qed

lemma dec_small: "n < 10 \<Longrightarrow> dec n = [digit n]"
  by (simp add: dec_def fmt_dec.simps)

lemma dec_step: "\<not> n < 10 \<Longrightarrow> dec n = dec (n div 10) @ [digit (n mod 10)]"
  using fmt_dec_append [of "n div 10" "[]" "[digit (n mod 10)]"]
  by (simp add: dec_def fmt_dec.simps [of n])

lemma dec_val_append: "dec_val n (xs @ ys) = dec_val (dec_val n xs) ys"
  by (induction xs arbitrary: n) auto

lemma dec_val_dec: "dec_val 0 (dec n) = n"
proof (induction n rule: less_induct)
  case (less n)
  show ?case
  proof (cases "n < 10")
    case True
    then show ?thesis by (simp add: dec_small)
  next
    case False
    then show ?thesis using less [of "n div 10"] by (simp add: dec_step dec_val_append)
  qed
qed

lemma dec_digits: "list_all is_digit (dec n)"
proof (induction n rule: less_induct)
  case (less n)
  then show ?case
    by (cases "n < 10") (auto simp: dec_small dec_step)
qed

lemma dec_no_char: "\<not> is_digit c \<Longrightarrow> c \<notin> set (dec n)"
  using dec_digits [of n] by (auto simp: list_all_iff)

lemma dec_nonempty: "dec n \<noteq> []"
  by (cases "n < 10") (auto simp: dec_small dec_step)

text \<open>No leading zero: only the number 0 is printed with a first digit 0.\<close>

lemma hd_dec: "hd (dec n) = digit 0 \<longleftrightarrow> n = 0"
proof (induction n rule: less_induct)
  case (less n)
  show ?case
  proof (cases "n < 10")
    case True
    then have "digit n = digit 0 \<longleftrightarrow> n = 0"
      by (metis digit_val_digit zero_less_numeral)
    with True show ?thesis by (simp add: dec_small)
  next
    case False
    then have "hd (dec n) = hd (dec (n div 10))"
      by (simp add: dec_step dec_nonempty)
    with False less [of "n div 10"] show ?thesis by simp
  qed
qed

lemma dec_inject [simp]: "dec m = dec n \<longleftrightarrow> m = n"
  by (metis dec_val_dec)

lemma length_dec_byte: "n < 256 \<Longrightarrow> length (dec n) \<le> 3"
  by (cases "n < 10"; cases "n div 10 < 10") (auto simp: dec_small dec_step)

text \<open>Printing concrete numbers.\<close>

lemma digit_chars [str_simps]:
  "digit 0 = CHR ''0''" "digit (Suc 0) = CHR ''1''" "digit 1 = CHR ''1''" "digit 2 = CHR ''2''"
  "digit 3 = CHR ''3''" "digit 4 = CHR ''4''" "digit 5 = CHR ''5''" "digit 6 = CHR ''6''"
  "digit 7 = CHR ''7''" "digit 8 = CHR ''8''" "digit 9 = CHR ''9''"
  unfolding digit_def by code_simp+

lemmas dec_eval = dec_step dec_small digit_chars

end
