(* ===== verification/Net_Addr.thy ===== *)
theory Net_Addr
  imports Prelude
begin

text \<open>
  What the program uses of Go's package \<open>net\<close> (Go 1.19, the version \<open>go.mod\<close> asks for): addresses as byte
  slices, \<open>ParseIP\<close>, \<open>ParseCIDR\<close>, \<open>CIDRMask\<close>, \<open>IP.Mask\<close>, \<open>IPNet.Contains\<close> and the
  \<open>String\<close> methods. A nil slice is the empty list. This is the standard library, not a part of the
  repository; the repository's functions over it are in \<open>Ip4\<close> and \<open>Route_Manager\<close>.
  The facts about these functions are in \<open>Net_Facts\<close>.
\<close>

type_synonym byte = "8 word"
type_synonym ip = "byte list"

definition v4InV6Prefix :: ip where
  "v4InV6Prefix = [0, 0, 0, 0, 0, 0, 0, 0, 0, 0, 255, 255]"

definition IPv4 :: "byte \<Rightarrow> byte \<Rightarrow> byte \<Rightarrow> byte \<Rightarrow> ip" where
  "IPv4 a b c d = v4InV6Prefix @ [a, b, c, d]"

definition To4 :: "ip \<Rightarrow> ip" where
  "To4 p =
     (if length p = 4 then p
      else if length p = 16 \<and> take 12 p = v4InV6Prefix then drop 12 p
      else [])"

section \<open>Parsing\<close>

definition big :: nat where "big = 0xFFFFFF"

fun dtoi_loop :: "nat \<Rightarrow> nat \<Rightarrow> string \<Rightarrow> (nat \<times> nat) option" where
  "dtoi_loop n i [] = Some (n, i)"
| "dtoi_loop n i (c # cs) =
     (if is_digit c then
        (let n' = n * 10 + digit_val c
         in if n' \<ge> big then None else dtoi_loop n' (Suc i) cs)
      else Some (n, i))"

definition dtoi :: "string \<Rightarrow> (nat \<times> nat) option" where
  "dtoi s = (case dtoi_loop 0 0 s of None \<Rightarrow> None
             | Some (n, i) \<Rightarrow> if i = 0 then None else Some (n, i))"

definition hex_val :: "char \<Rightarrow> nat option" where
  "hex_val c = (let k = (of_char c :: nat) in
     if 48 \<le> k \<and> k \<le> 57 then Some (k - 48)
     else if 97 \<le> k \<and> k \<le> 102 then Some (k - 97 + 10)
     else if 65 \<le> k \<and> k \<le> 70 then Some (k - 65 + 10)
     else None)"

fun xtoi_loop :: "nat \<Rightarrow> nat \<Rightarrow> string \<Rightarrow> (nat \<times> nat) option" where
  "xtoi_loop n i [] = Some (n, i)"
| "xtoi_loop n i (c # cs) =
     (case hex_val c of
        Some v \<Rightarrow> (let n' = n * 16 + v
                   in if n' \<ge> big then None else xtoi_loop n' (Suc i) cs)
      | None \<Rightarrow> Some (n, i))"

definition xtoi :: "string \<Rightarrow> (nat \<times> nat) option" where
  "xtoi s = (case xtoi_loop 0 0 s of None \<Rightarrow> None
             | Some (n, i) \<Rightarrow> if i = 0 then None else Some (n, i))"

text \<open>The loop over the four fields; \<open>p\<close> holds the fields read so far.\<close>

fun parseIPv4_loop :: "nat \<Rightarrow> ip \<Rightarrow> string \<Rightarrow> ip option" where
  "parseIPv4_loop 0 p s = (if s \<noteq> [] then None else Some p)"
| "parseIPv4_loop (Suc k) p s =
     (if s = [] then None
      else if p \<noteq> [] \<and> hd s \<noteq> CHR ''.'' then None
      else
        (let t = (if p \<noteq> [] then tl s else s) in
         case dtoi t of
           None \<Rightarrow> None
         | Some (n, c) \<Rightarrow>
             if n > 0xFF then None
             else if c > 1 \<and> hd t = CHR ''0'' then None
             else parseIPv4_loop k (p @ [of_nat n]) (drop c t)))"

definition parseIPv4 :: "string \<Rightarrow> ip option" where
  "parseIPv4 s = map_option (\<lambda>p. v4InV6Prefix @ p) (parseIPv4_loop 4 [] s)"

text \<open>
  The loop over the eight 16-bit groups: the bytes read, where \<open>::\<close> stood, what is left to read.
\<close>

fun parseIPv6_loop :: "nat \<Rightarrow> ip \<Rightarrow> nat option \<Rightarrow> string \<Rightarrow> (ip \<times> nat option \<times> string) option" where
  "parseIPv6_loop 0 acc ell s = Some (acc, ell, s)"
| "parseIPv6_loop (Suc k) acc ell s =
     (case xtoi s of
        None \<Rightarrow> None
      | Some (n, c) \<Rightarrow>
          if n > 0xFFFF then None
          else if c < length s \<and> s ! c = CHR ''.'' then
            (if ell = None \<and> length acc \<noteq> 12 then None
             else if length acc + 4 > 16 then None
             else case parseIPv4 s of
                    None \<Rightarrow> None
                  | Some ip4 \<Rightarrow> Some (acc @ drop 12 ip4, ell, []))
          else
            (let acc' = acc @ [of_nat (n div 256), of_nat n]; t = drop c s in
             if t = [] then Some (acc', ell, [])
             else if hd t \<noteq> CHR '':'' \<or> length t = 1 then None
             else if hd (tl t) = CHR '':'' then
               (if ell \<noteq> None then None
                else if tl (tl t) = [] then Some (acc', Some (length acc'), [])
                else parseIPv6_loop k acc' (Some (length acc')) (tl (tl t)))
             else parseIPv6_loop k acc' ell (tl t)))"

definition expand_ellipsis :: "ip \<times> nat option \<times> string \<Rightarrow> ip option" where
  "expand_ellipsis r =
     (case r of (acc, ell, s) \<Rightarrow>
        if s \<noteq> [] then None
        else if length acc < 16 then
          (case ell of None \<Rightarrow> None
           | Some e \<Rightarrow> Some (take e acc @ replicate (16 - length acc) 0 @ drop e acc))
        else if ell \<noteq> None then None else Some acc)"

definition parseIPv6 :: "string \<Rightarrow> ip option" where
  "parseIPv6 s =
     (if take 2 s = ''::'' then
        (if drop 2 s = [] then Some (replicate 16 0)
         else Option.bind (parseIPv6_loop 8 [] (Some 0) (drop 2 s)) expand_ellipsis)
      else Option.bind (parseIPv6_loop 8 [] None s) expand_ellipsis)"

fun ParseIP_scan :: "string \<Rightarrow> string \<Rightarrow> ip" where
  "ParseIP_scan s [] = []"
| "ParseIP_scan s (c # cs) =
     (if c = CHR ''.'' then (case parseIPv4 s of None \<Rightarrow> [] | Some p \<Rightarrow> p)
      else if c = CHR '':'' then (case parseIPv6 s of None \<Rightarrow> [] | Some p \<Rightarrow> p)
      else ParseIP_scan s cs)"

definition ParseIP :: "string \<Rightarrow> ip" where
  "ParseIP s = ParseIP_scan s s"

section \<open>Masks and networks\<close>

record IPNet =
  ipn_IP :: ip
  ipn_Mask :: "byte list"

fun mask_bytes :: "nat \<Rightarrow> nat \<Rightarrow> byte list" where
  "mask_bytes 0 n = []"
| "mask_bytes (Suc l) n =
     (if n \<ge> 8 then 255 # mask_bytes l (n - 8)
      else NOT (drop_bit n 255) # mask_bytes l 0)"

definition CIDRMask :: "int \<Rightarrow> nat \<Rightarrow> byte list" where
  "CIDRMask ones bits =
     (if bits \<noteq> 32 \<and> bits \<noteq> 128 then []
      else if ones < 0 \<or> ones > int bits then []
      else mask_bytes (bits div 8) (nat ones))"

definition IP_Mask :: "ip \<Rightarrow> byte list \<Rightarrow> ip" where
  "IP_Mask p m =
     (let m' = (if length m = 16 \<and> length p = 4 \<and> take 12 m = replicate 12 255 then drop 12 m else m);
          p' = (if length m' = 4 \<and> length p = 16 \<and> take 12 p = v4InV6Prefix then drop 12 p else p)
      in if length p' \<noteq> length m' then [] else map2 (AND) p' m')"

text \<open>The text of the error is that of \<open>net.ParseError\<close>.\<close>

definition ParseCIDR :: "string \<Rightarrow> (ip \<times> IPNet) res" where
  "ParseCIDR s =
     (let fail = Err (ErrorString (''invalid CIDR address: '' @ s)) in
      if CHR ''/'' \<notin> set s then fail
      else
        (let addr = takeWhile (\<lambda>c. c \<noteq> CHR ''/'') s;
             msk = tl (dropWhile (\<lambda>c. c \<noteq> CHR ''/'') s);
             (iplen, p) = (case parseIPv4 addr of Some p \<Rightarrow> (4, Some p) | None \<Rightarrow> (16, parseIPv6 addr))
         in case p of
              None \<Rightarrow> fail
            | Some ip \<Rightarrow>
                (case dtoi msk of
                   None \<Rightarrow> fail
                 | Some (n, i) \<Rightarrow>
                     if i \<noteq> length msk \<or> n > 8 * iplen then fail
                     else (let m = CIDRMask (int n) (8 * iplen)
                           in Ok (ip, \<lparr>ipn_IP = IP_Mask ip m, ipn_Mask = m\<rparr>)))))"

text \<open>Leading one bits of a byte, and the byte shifted past them.\<close>

fun lead_ones :: "nat \<Rightarrow> byte \<Rightarrow> nat \<times> byte" where
  "lead_ones 0 v = (0, v)"
| "lead_ones (Suc k) v =
     (if v AND 0x80 \<noteq> 0 then (let (n, v') = lead_ones k (push_bit 1 v) in (Suc n, v')) else (0, v))"

fun simpleMaskLength :: "byte list \<Rightarrow> nat option" where
  "simpleMaskLength [] = Some 0"
| "simpleMaskLength (v # vs) =
     (if v = 0xff then map_option (\<lambda>n. n + 8) (simpleMaskLength vs)
      else (case lead_ones 8 v of (n, v') \<Rightarrow>
              if v' \<noteq> 0 \<or> list_ex (\<lambda>x. x \<noteq> 0) vs then None else Some n))"

definition Mask_Size :: "byte list \<Rightarrow> nat \<times> nat" where
  "Mask_Size m = (case simpleMaskLength m of Some n \<Rightarrow> (n, 8 * length m) | None \<Rightarrow> (0, 0))"

definition networkNumberAndMask :: "IPNet \<Rightarrow> ip \<times> byte list" where
  "networkNumberAndMask n =
     (let ip = (if To4 (ipn_IP n) \<noteq> [] then To4 (ipn_IP n) else ipn_IP n); m = ipn_Mask n in
      if length ip \<noteq> 4 \<and> length ip \<noteq> 16 then ([], [])
      else if length m = 4 then (if length ip \<noteq> 4 then ([], []) else (ip, m))
      else if length m = 16 then (if length ip = 4 then (ip, drop 12 m) else (ip, m))
      else ([], []))"

definition IPNet_Contains :: "IPNet \<Rightarrow> ip \<Rightarrow> bool" where
  "IPNet_Contains n ip =
     (let (nn, m) = networkNumberAndMask n;
          x = (if To4 ip \<noteq> [] then To4 ip else ip)
      in if length x \<noteq> length nn then False
         else list_all2 (\<lambda>a b. a = b) (map2 (AND) nn m) (map2 (AND) x m))"

section \<open>Printing\<close>

definition hex_digit :: "nat \<Rightarrow> char" where
  "hex_digit d = char_of (if d < 10 then 48 + d else 87 + d)"

fun fmt_hex :: "nat \<Rightarrow> string \<Rightarrow> string" where
  "fmt_hex n acc =
     (if n < 16 then hex_digit n # acc else fmt_hex (n div 16) (hex_digit (n mod 16) # acc))"

declare fmt_hex.simps [simp del]

definition hexString :: "byte list \<Rightarrow> string" where
  "hexString bs = concat (map (\<lambda>b. [hex_digit (unat b div 16), hex_digit (unat b mod 16)]) bs)"

fun join :: "string \<Rightarrow> string list \<Rightarrow> string" where
  "join sep [] = []"
| "join sep [x] = x"
| "join sep (x # y # zs) = x @ sep @ join sep (y # zs)"

fun groups :: "ip \<Rightarrow> nat list" where
  "groups (a # b # rest) = (unat a * 256 + unat b) # groups rest"
| "groups _ = []"

text \<open>The longest run of zero groups, the first one of the longest: where it starts and its length.\<close>

function longest_zeros :: "nat \<Rightarrow> nat list \<Rightarrow> nat \<times> nat \<Rightarrow> nat \<times> nat" where
  "longest_zeros i gs best =
     (if gs = [] then best
      else (let j = length (takeWhile (\<lambda>g. g = 0) gs) in
            if j > snd best then longest_zeros (i + j + 1) (drop (j + 1) gs) (i, j)
            else longest_zeros (i + 1) (tl gs) best))"
  by pat_completeness auto
termination
  by (relation "measure (\<lambda>(i, gs, best). length gs)") (auto simp: Let_def)

declare longest_zeros.simps [simp del]

definition ipv6_string :: "ip \<Rightarrow> string" where
  "ipv6_string p =
     (let gs = map (\<lambda>g. fmt_hex g []) (groups p); (e, l) = longest_zeros 0 (groups p) (0, 0)
      in if l \<le> 1 then join '':'' gs
         else join '':'' (take e gs) @ ''::'' @ join '':'' (drop (e + l) gs))"

definition dotted :: "byte list \<Rightarrow> string" where
  "dotted p = join ''.'' (map (\<lambda>b. dec (unat b)) p)"

definition IP_String :: "ip \<Rightarrow> string" where
  "IP_String p =
     (if p = [] then ''<nil>''
      else if To4 p \<noteq> [] then dotted (To4 p)
      else if length p \<noteq> 16 then ''?'' @ hexString p
      else ipv6_string p)"

definition IPNet_String :: "IPNet \<Rightarrow> string" where
  "IPNet_String n =
     (let (nn, m) = networkNumberAndMask n in
      if nn = [] \<or> m = [] then ''<nil>''
      else (case simpleMaskLength m of
              None \<Rightarrow> IP_String nn @ ''/'' @ hexString m
            | Some l \<Rightarrow> IP_String nn @ ''/'' @ dec l))"

end
