(* ===== verification/Address_Block.thy ===== *)
theory Address_Block
  imports Prelude
begin

text \<open>
  The interface of an address block: a network whose membership test compares the leading bits of
  addresses read as numbers. The package \<open>pkg/util/ip\<close> (32-bit words) and Go's \<open>net.IPNet\<close> (byte
  slices) both provide it; conflict detection in \<open>pkg/controller/route/manager.go\<close> and \<open>IP4Net.Overlaps\<close>
  are its clients. What the clients need is proved once here: blocks are convex, two blocks are nested
  or disjoint, and a block that holds the first and the last address of another holds all of it.
\<close>

lemma div_eq_interval:
  fixes x b w :: nat
  assumes "0 < w"
  shows "x div w = b div w \<longleftrightarrow> b div w * w \<le> x \<and> x < b div w * w + w"
  using assms by (metis div_nat_eqI dividend_less_div_times div_times_less_eq_dividend
      mult.commute mult_Suc_right add.commute mult_Suc)

lemma div_power_mono_eq:
  fixes x y :: nat
  assumes "x div 2 ^ i = y div 2 ^ i" "i \<le> j"
  shows "x div 2 ^ j = y div 2 ^ j"
proof -
  have "z div 2 ^ j = z div 2 ^ i div 2 ^ (j - i)" for z :: nat
    using \<open>i \<le> j\<close> by (simp flip: div_mult2_eq power_add)
  then show ?thesis using assms(1) by simp
qed

locale address_block =
  fixes mem :: "'n \<Rightarrow> 'a \<Rightarrow> bool"
    and num :: "'a \<Rightarrow> nat"
    and base :: "'n \<Rightarrow> nat"
    and hostbits :: "'n \<Rightarrow> nat"
    and fits :: "'n \<Rightarrow> 'a \<Rightarrow> bool"
  assumes mem_iff: "fits n x \<Longrightarrow> mem n x \<longleftrightarrow> num x div 2 ^ hostbits n = base n div 2 ^ hostbits n"
begin

lemma mem_interval:
  "fits n x \<Longrightarrow> mem n x \<longleftrightarrow>
     base n div 2 ^ hostbits n * 2 ^ hostbits n \<le> num x \<and>
     num x < base n div 2 ^ hostbits n * 2 ^ hostbits n + 2 ^ hostbits n"
  by (simp add: mem_iff div_eq_interval)

lemma mem_convex:
  assumes "fits n x" "fits n y" "fits n z" "mem n x" "mem n z" "num x \<le> num y" "num y \<le> num z"
  shows "mem n y"
  using assms by (simp add: mem_interval)

lemma mem_nested:
  assumes "fits n x" "fits m x" "mem n x" "mem m x" "hostbits m \<le> hostbits n"
    and "fits m y" "fits n y" "mem m y"
  shows "mem n y"
proof -
  have "num y div 2 ^ hostbits m = num x div 2 ^ hostbits m"
    using assms by (simp add: mem_iff)
  then have "num y div 2 ^ hostbits n = num x div 2 ^ hostbits n"
    using assms(5) by (rule div_power_mono_eq)
  then show ?thesis using assms by (simp add: mem_iff)
qed

lemma mem_all_of_ends:
  assumes "fits n lo" "fits n hi" "mem n lo" "mem n hi"
    and "num lo = base m div 2 ^ hostbits m * 2 ^ hostbits m"
    and "num hi = base m div 2 ^ hostbits m * 2 ^ hostbits m + 2 ^ hostbits m - 1"
    and "fits m x" "fits n x" "mem m x"
  shows "mem n x"
proof (rule mem_convex [of n lo x hi])
  show "num lo \<le> num x" "num x \<le> num hi"
    using assms by (auto simp: mem_interval)
qed (use assms in auto)

end

end
