(* ===== verification/Net_Facts.thy ===== *)
theory Net_Facts
  imports Net_Addr Address_Block
begin

text \<open>
  Facts about the functions of \<open>Net_Addr\<close>: printing and parsing an IPv4 address or network is a round
  trip, \<open>Contains\<close> compares the leading bits of addresses read as numbers (so \<open>net.IPNet\<close> is an
  \<open>address_block\<close>), and \<open>ParseCIDR\<close> yields networks with a contiguous mask, canonical for IPv4.
\<close>

section \<open>Printing and parsing an IPv4 address\<close>

lemma dec_val_ge: "n \<le> dec_val n ds"
proof (induction ds arbitrary: n)
  case (Cons d ds)
  have "n \<le> 10 * n + digit_val d" by simp
  also have "\<dots> \<le> dec_val (10 * n + digit_val d) ds" by (rule Cons.IH)
  finally show ?case by simp
qed simp

lemma dtoi_loop_digits:
  "list_all is_digit ds \<Longrightarrow> dec_val n ds < big \<Longrightarrow>
   dtoi_loop n i (ds @ rest) = dtoi_loop (dec_val n ds) (i + length ds) rest"
proof (induction ds arbitrary: n i)
  case (Cons d ds)
  have "n * 10 + digit_val d < big"
    using Cons.prems(2) dec_val_ge [of "10 * n + digit_val d" ds] by simp
  with Cons show ?case by (simp add: Let_def mult.commute)
qed simp

lemma dtoi_dec:
  assumes "n < big" "rest = [] \<or> \<not> is_digit (hd rest)"
  shows "dtoi (dec n @ rest) = Some (n, length (dec n))"
proof -
  have "dtoi_loop 0 0 (dec n @ rest) = dtoi_loop n (length (dec n)) rest"
    using dtoi_loop_digits [OF dec_digits, of 0 n 0 rest] assms(1) by (simp add: dec_val_dec)
  also have "\<dots> = Some (n, length (dec n))"
    using assms(2) by (cases rest) auto
  finally show ?thesis by (simp add: dtoi_def dec_nonempty)
qed

lemma dec_no_leading_zero: "1 < length (dec n) \<Longrightarrow> hd (dec n) \<noteq> CHR ''0''"
proof
  assume "1 < length (dec n)" "hd (dec n) = CHR ''0''"
  moreover have "CHR ''0'' = digit 0" unfolding digit_def by code_simp
  ultimately have "n = 0" using hd_dec by simp
  then show False using \<open>1 < length (dec n)\<close> by (simp add: dec_small)
qed

lemma parseIPv4_loop_field:
  assumes "n < 256" "rest = [] \<or> hd rest = CHR ''.''"
  shows "parseIPv4_loop (Suc k) p ((if p = [] then [] else ''.'') @ dec n @ rest)
       = parseIPv4_loop k (p @ [of_nat n]) rest"
proof -
  have "dtoi (dec n @ rest) = Some (n, length (dec n))"
    using assms by (intro dtoi_dec) (auto simp: big_def is_digit_def)
  moreover have "\<not> (1 < length (dec n) \<and> hd (dec n @ rest) = CHR ''0'')"
    using dec_no_leading_zero [of n] by (auto simp: dec_nonempty)
  ultimately show ?thesis
    using assms(1) by (cases "p = []") (auto simp: Let_def dec_nonempty)
qed

lemma byte_less: "unat (x :: byte) < 256"
proof -
  have "unat x < 2 ^ LENGTH(8)" by (rule unsigned_less)
  then show ?thesis by simp
qed

lemma parseIPv4_dotted: "parseIPv4 (dotted [a, b, c, d]) = Some (IPv4 a b c d)"
proof -
  note f = parseIPv4_loop_field [OF byte_less]
  show ?thesis
    using f [of "''.'' @ dec (unat b) @ ''.'' @ dec (unat c) @ ''.'' @ dec (unat d)" 3 "[]" a]
      f [of "''.'' @ dec (unat c) @ ''.'' @ dec (unat d)" 2 "[a]" b]
      f [of "''.'' @ dec (unat d)" 1 "[a, b]" c]
      f [of "[]" 0 "[a, b, c]" d]
    by (simp add: parseIPv4_def dotted_def IPv4_def eval_nat_numeral del: parseIPv4_loop.simps(2))
qed

section \<open>Masks\<close>

fun num :: "byte list \<Rightarrow> nat" where
  "num [] = 0"
| "num (b # bs) = unat b * 256 ^ length bs + num bs"

lemma num_less: "num bs < 256 ^ length bs"
proof (induction bs)
  case (Cons b bs)
  have "num (b # bs) < (unat b + 1) * 256 ^ length bs"
    using Cons.IH by simp
  also have "\<dots> \<le> 256 * 256 ^ length bs"
    using byte_less [of b] by (intro mult_right_mono) auto
  finally show ?case by simp
qed simp

lemma num_append: "num (xs @ ys) = num xs * 256 ^ length ys + num ys"
  by (induction xs) (auto simp: algebra_simps power_add)

lemma mask_byte: "NOT (drop_bit n 255) = (NOT (mask (8 - n)) :: byte)" if "n \<le> 8"
proof -
  from that consider "n = 0" | "n = 1" | "n = 2" | "n = 3" | "n = 4" | "n = 5" | "n = 6" | "n = 7" | "n = 8"
    by linarith
  then show ?thesis by cases (simp_all add: mask_eq_exp_minus_1 drop_bit_eq_div)
qed

lemma and_not_mask_shift: "x AND NOT (mask k) = push_bit k (drop_bit k x)" for x :: "'a :: len word"
  by (rule bit_word_eqI) (auto simp: bit_simps)

lemma unat_and_not_mask: "unat (x AND NOT (mask k)) = unat x div 2 ^ k * 2 ^ k" for x :: "'a :: len word"
proof -
  have "unat x < 2 ^ LENGTH('a)" by (rule unsigned_less)
  then have "unat x div 2 ^ k * 2 ^ k < 2 ^ LENGTH('a)"
    using div_times_less_eq_dividend [of "unat x" "2 ^ k"] by linarith
  moreover have "unat (x AND NOT (mask k)) = take_bit LENGTH('a) (push_bit k (drop_bit k (unat x)))"
    by (simp only: and_not_mask_shift unsigned_push_bit_eq unat_drop_bit_eq)
  ultimately show ?thesis
    by (simp add: push_bit_eq_mult drop_bit_eq_div take_bit_nat_eq_self)
qed

lemma and_not_mask_eq_iff:
  "x AND NOT (mask k) = y AND NOT (mask k) \<longleftrightarrow> unat x div 2 ^ k = unat y div 2 ^ k" for x y :: "'a :: len word"
proof -
  have "x AND NOT (mask k) = y AND NOT (mask k) \<longleftrightarrow>
      unat (x AND NOT (mask k)) = unat (y AND NOT (mask k))"
    by (simp only: unsigned_word_eqI word_unat_eq_iff)
  then show ?thesis by (simp only: unat_and_not_mask) simp
qed

lemma length_mask_bytes [simp]: "length (mask_bytes l n) = l"
  by (induction l n rule: mask_bytes.induct) auto


lemma div_split:
  fixes a N :: nat
  assumes "N < 2 ^ m" "e \<le> m"
  shows "(a * 2 ^ m + N) div 2 ^ e = a * 2 ^ (m - e) + N div 2 ^ e"
proof -
  have "2 ^ m = (2 :: nat) ^ (m - e) * 2 ^ e"
    by (metis assms(2) le_add_diff_inverse2 power_add)
  then have eq: "a * 2 ^ m + N = N + a * 2 ^ (m - e) * 2 ^ e"
    by (simp only: mult.assoc add.commute)
  show ?thesis unfolding eq by simp
qed

lemma mixed_radix_eq:
  fixes a b r s w :: nat
  assumes "r < w" "s < w"
  shows "a * w + r = b * w + s \<longleftrightarrow> a = b \<and> r = s"
proof
  assume eq: "a * w + r = b * w + s"
  then have "(a * w + r) div w = (b * w + s) div w" "(a * w + r) mod w = (b * w + s) mod w"
    by simp_all
  then show "a = b \<and> r = s" using assms by simp
qed simp

lemma and_255 [simp]: "(a :: byte) AND 255 = a"
proof -
  have "(255 :: byte) = - 1" by simp
  then show ?thesis by (simp only: and.right_neutral)
qed

lemma minus_256: "(- 256 :: byte) = 0"
  by code_simp

lemma masked_eq_iff:
  "length as = l \<Longrightarrow> length bs = l \<Longrightarrow> n \<le> 8 * l \<Longrightarrow>
   map2 (AND) as (mask_bytes l n) = map2 (AND) bs (mask_bytes l n) \<longleftrightarrow>
   num as div 2 ^ (8 * l - n) = num bs div 2 ^ (8 * l - n)"
proof (induction l n arbitrary: as bs rule: mask_bytes.induct)
  case (1 n)
  then show ?case by simp
next
  case (2 l n)
  obtain a as' b bs' where [simp]: "as = a # as'" "bs = b # bs'"
    using 2(3,4) by (metis Suc_length_conv)
  have len: "length as' = l" "length bs' = l" using 2(3,4) by auto
  have p256: "(256 :: nat) ^ l = 2 ^ (8 * l)" by (simp add: power_mult)
  have N: "num as' < 2 ^ (8 * l)" "num bs' < 2 ^ (8 * l)"
    using num_less [of as'] num_less [of bs'] by (simp_all add: len p256)
  show ?case
  proof (cases "n \<ge> 8")
    case True
    define e where "e = 8 * l - (n - 8)"
    have e: "8 + 8 * l - n = e" "e \<le> 8 * l" using True 2(5) by (auto simp: e_def)
    have r: "num as' div 2 ^ e < 2 ^ (8 * l - e)" "num bs' div 2 ^ e < 2 ^ (8 * l - e)"
      using N e(2) by (simp_all add: less_mult_imp_div_less flip: power_add)
    have "(unat a * 2 ^ (8 * l) + num as') div 2 ^ e = (unat b * 2 ^ (8 * l) + num bs') div 2 ^ e
       \<longleftrightarrow> a = b \<and> num as' div 2 ^ e = num bs' div 2 ^ e"
      by (simp only: div_split [OF N(1) e(2)] div_split [OF N(2) e(2)] mixed_radix_eq [OF r] word_unat_eq_iff)
    then show ?thesis
      using 2(1) [OF True len] True 2(5)
      by (simp add: len p256 e(1) flip: e_def)
  next
    case False
    have e: "8 + 8 * l - n = 8 * l + (8 - n)" using False by simp_all
    have z: "map2 (AND) xs (mask_bytes (length xs) 0) = replicate (length xs) 0" for xs
      by (induction xs) (simp_all add: minus_256)
    have d: "(unat x * 2 ^ (8 * l) + M) div 2 ^ (8 * l + 8 - n) = unat x div 2 ^ (8 - n)"
      if "M < 2 ^ (8 * l)" for x :: byte and M
    proof -
      have "8 * l + 8 - n = 8 * l + (8 - n)" using False by simp
      then have "(unat x * 2 ^ (8 * l) + M) div 2 ^ (8 * l + 8 - n)
          = (unat x * 2 ^ (8 * l) + M) div 2 ^ (8 * l) div 2 ^ (8 - n)"
        by (simp only: power_add div_mult2_eq)
      then show ?thesis using that by simp
    qed
    show ?thesis
      using False z [of as'] z [of bs']
      by (simp add: len p256 e d N mask_byte and_not_mask_eq_iff)
  qed
qed

section \<open>Networks\<close>

lemma lead_ones_mask: "n < 8 \<Longrightarrow> lead_ones 8 (NOT (drop_bit n 255)) = (n, 0)"
proof -
  assume "n < 8"
  then consider "n = 0" | "n = 1" | "n = 2" | "n = 3" | "n = 4" | "n = 5" | "n = 6" | "n = 7"
    by linarith
  then show ?thesis by cases (simp_all only:, code_simp+)
qed

lemma lead_ones_full: "lead_ones 8 255 = (8, 0)"
  by code_simp

lemma mask_byte_not_full: "n < 8 \<Longrightarrow> NOT (drop_bit n 255) \<noteq> (255 :: byte)"
  using lead_ones_mask [of n] lead_ones_full by auto

lemma simpleMaskLength_mask_bytes:
  "n \<le> 8 * l \<Longrightarrow> simpleMaskLength (mask_bytes l n) = Some n"
proof (induction l n rule: mask_bytes.induct)
  case (2 l n)
  have z: "\<not> list_ex (\<lambda>x. x \<noteq> 0) (mask_bytes k 0)" for k
    by (induction k) simp_all
  show ?case
  proof (cases "n \<ge> 8")
    case True
    with 2 show ?thesis by simp
  next
    case False
    then show ?thesis
      using lead_ones_mask [of n] mask_byte_not_full [of n] z [of l] by simp
  qed
qed simp

text \<open>An address as \<open>Contains\<close> reads it: four bytes where it has an IPv4 form.\<close>

definition norm_ip :: "ip \<Rightarrow> ip" where
  "norm_ip p = (if To4 p \<noteq> [] then To4 p else p)"

definition ip_num :: "ip \<Rightarrow> nat" where
  "ip_num p = num (norm_ip p)"

definition net_num :: "IPNet \<Rightarrow> nat" where
  "net_num n = num (fst (networkNumberAndMask n))"

definition net_hostbits :: "IPNet \<Rightarrow> nat" where
  "net_hostbits n =
     (case networkNumberAndMask n of (nn, m) \<Rightarrow> 8 * length nn - the (simpleMaskLength m))"

definition contiguous :: "IPNet \<Rightarrow> bool" where
  "contiguous n =
     (case networkNumberAndMask n of (nn, m) \<Rightarrow>
        (case simpleMaskLength m of None \<Rightarrow> False
         | Some p \<Rightarrow> p \<le> 8 * length nn \<and> m = mask_bytes (length nn) p))"

definition net_fits :: "IPNet \<Rightarrow> ip \<Rightarrow> bool" where
  "net_fits n x = (contiguous n \<and> length (norm_ip x) = length (fst (networkNumberAndMask n)))"

lemma IPNet_Contains_iff:
  assumes "net_fits n x"
  shows "IPNet_Contains n x \<longleftrightarrow> ip_num x div 2 ^ net_hostbits n = net_num n div 2 ^ net_hostbits n"
proof -
  obtain nn m where nm: "networkNumberAndMask n = (nn, m)" by force
  from assms nm obtain p where p: "simpleMaskLength m = Some p" "p \<le> 8 * length nn"
      "m = mask_bytes (length nn) p" and len: "length (norm_ip x) = length nn"
    by (auto simp: net_fits_def contiguous_def split: option.splits)
  have "IPNet_Contains n x \<longleftrightarrow>
      map2 (AND) nn (mask_bytes (length nn) p) = map2 (AND) (norm_ip x) (mask_bytes (length nn) p)"
    using nm p len by (simp add: IPNet_Contains_def norm_ip_def list.rel_eq)
  also have "\<dots> \<longleftrightarrow> num nn div 2 ^ (8 * length nn - p) = num (norm_ip x) div 2 ^ (8 * length nn - p)"
    using len p(2) by (intro masked_eq_iff) auto
  finally show ?thesis
    using nm p by (auto simp: ip_num_def net_num_def net_hostbits_def)
qed

interpretation net: address_block IPNet_Contains ip_num net_num net_hostbits net_fits
  by unfold_locales (rule IPNet_Contains_iff)

section \<open>The first and the last address of a network\<close>

lemma unat_or_disjoint: "x AND y = 0 \<Longrightarrow> unat (x OR y) = unat x + unat (y :: 'a :: len word)"
proof -
  assume "x AND y = 0"
  then have "unat x AND unat y = 0" by (metis unsigned_0 unsigned_and_eq)
  then show ?thesis by (simp add: unsigned_or_eq disjunctive_add_eq_or)
qed

lemma num_or_not:
  "length as = length m \<Longrightarrow>
   num (map2 (\<lambda>a m. a OR NOT m) as m) = num (map2 (AND) as m) + num (map (NOT) m)"
proof (induction as m rule: list_induct2)
  case (Cons a as m ms)
  have "(a AND m) OR NOT m = a OR NOT m" by (rule bit_word_eqI) (auto simp: bit_simps)
  moreover have "(a AND m) AND NOT m = 0" by (rule bit_word_eqI) (auto simp: bit_simps)
  ultimately have "unat (a OR NOT m) = unat (a AND m) + unat (NOT m)"
    by (metis unat_or_disjoint)
  with Cons show ?case by (simp add: algebra_simps)
qed simp

lemma num_not_mask: "n \<le> 8 * l \<Longrightarrow> num (map (NOT) (mask_bytes l n)) = 2 ^ (8 * l - n) - 1"
proof (induction l n rule: mask_bytes.induct)
  case (2 l n)
  show ?case
  proof (cases "n \<ge> 8")
    case True
    have "num (map (NOT) (mask_bytes (Suc l) n))
        = unat (NOT 255 :: byte) * 256 ^ l + num (map (NOT) (mask_bytes l (n - 8)))"
      using True by (simp only: mask_bytes.simps if_True list.map num.simps length_map length_mask_bytes)
    moreover have "unat (NOT 255 :: byte) = 0" by code_simp
    ultimately show ?thesis using 2 True by (simp add: add.commute)
  next
    case False
    have "unat (mask (8 - n) :: byte) = 2 ^ (8 - n) - 1"
    proof -
      from False consider "n = 0" | "n = 1" | "n = 2" | "n = 3" | "n = 4" | "n = 5" | "n = 6" | "n = 7"
        by linarith
      then show ?thesis by cases (simp_all add: mask_eq_exp_minus_1)
    qed
    then have "num (map (NOT) (mask_bytes (Suc l) n)) = (2 ^ (8 - n) - 1) * 256 ^ l + (2 ^ (8 * l) - 1)"
      using False 2 mask_byte [of n] by simp
    also have "\<dots> = 2 ^ (8 * Suc l - n) - 1"
    proof -
      have "(256 :: nat) ^ l = 2 ^ (8 * l)" by (simp add: power_mult)
      moreover have "(2 :: nat) ^ (8 * Suc l - n) = 2 ^ (8 - n) * 2 ^ (8 * l)"
        using False by (simp flip: power_add)
      moreover have "(1 :: nat) \<le> 2 ^ (8 - n)" "(1 :: nat) \<le> 2 ^ (8 * l)" by simp_all
      ultimately show ?thesis by (simp add: diff_mult_distrib)
    qed
    finally show ?thesis .
  qed
qed simp

lemma num_mask0: "length as = l \<Longrightarrow> num (map2 (AND) as (mask_bytes l 0)) = 0"
  by (induction as arbitrary: l) (auto simp: minus_256)

lemma num_and_mask:
  "length as = l \<Longrightarrow> n \<le> 8 * l \<Longrightarrow>
   num (map2 (AND) as (mask_bytes l n)) = num as div 2 ^ (8 * l - n) * 2 ^ (8 * l - n)"
proof (induction l n arbitrary: as rule: mask_bytes.induct)
  case (2 l n)
  then obtain a bs where as: "as = a # bs" and len: "length bs = l" by (cases as) auto
  have N: "num bs < 2 ^ (8 * l)" using num_less [of bs] len by (simp add: power_mult)
  have w: "(256 :: nat) ^ l = 2 ^ (8 * l)" by (simp add: power_mult)
  show ?case
  proof (cases "n \<ge> 8")
    case True
    define e where "e = 8 * Suc l - n"
    have e: "e \<le> 8 * l" "8 * l - (n - 8) = e" using True 2 by (auto simp: e_def)
    have "num (map2 (AND) as (mask_bytes (Suc l) n)) = unat a * 2 ^ (8 * l) + num bs div 2 ^ e * 2 ^ e"
      using True 2 len e by (simp add: as w)
    also have "\<dots> = (unat a * 2 ^ (8 * l) + num bs) div 2 ^ e * 2 ^ e"
      using e by (simp add: div_split [OF N e(1)] distrib_right flip: power_add)
    finally show ?thesis by (simp add: as w len e_def)
  next
    case False
    have "num (map2 (AND) as (mask_bytes (Suc l) n)) = unat (a AND NOT (mask (8 - n))) * 2 ^ (8 * l)"
      using False len mask_byte [of n] by (simp add: as w num_mask0)
    also have "\<dots> = (unat a div 2 ^ (8 - n)) * 2 ^ (8 * Suc l - n)"
      using False by (simp add: unat_and_not_mask flip: power_add)
    also have "unat a div 2 ^ (8 - n) = (unat a * 2 ^ (8 * l) + num bs) div 2 ^ (8 * Suc l - n)"
    proof -
      have "(2 :: nat) ^ (8 * Suc l - n) = 2 ^ (8 * l) * 2 ^ (8 - n)"
        using False by (simp flip: power_add)
      then show ?thesis using N by (simp add: div_mult2_eq)
    qed
    finally show ?thesis by (simp add: as w len)
  qed
qed simp

section \<open>The round trip of an IPv4 network\<close>

definition canonical_v4 :: "IPNet \<Rightarrow> bool" where
  "canonical_v4 n =
     (length (ipn_IP n) = 4 \<and>
      (case simpleMaskLength (ipn_Mask n) of None \<Rightarrow> False
       | Some p \<Rightarrow> p \<le> 32 \<and> ipn_Mask n = mask_bytes 4 p) \<and>
      map2 (AND) (ipn_IP n) (ipn_Mask n) = ipn_IP n)"

lemma canonical_v4E:
  assumes "canonical_v4 n"
  obtains a b c d p where "n = \<lparr>ipn_IP = [a, b, c, d], ipn_Mask = mask_bytes 4 p\<rparr>" "p \<le> 32"
    "map2 (AND) [a, b, c, d] (mask_bytes 4 p) = [a, b, c, d]"
proof -
  from assms obtain p where p: "p \<le> 32" "ipn_Mask n = mask_bytes 4 p"
      and l: "length (ipn_IP n) = 4" and m: "map2 (AND) (ipn_IP n) (ipn_Mask n) = ipn_IP n"
    by (auto simp: canonical_v4_def split: option.splits)
  from l obtain a b c d where ip: "ipn_IP n = [a, b, c, d]"
    by (auto simp: length_Suc_conv eval_nat_numeral)
  show thesis
    by (rule that [of a b c d p]) (use p m ip in \<open>auto intro: IPNet.equality\<close>)
qed

lemma IPNet_String_v4:
  assumes "p \<le> 32"
  shows "IPNet_String \<lparr>ipn_IP = [a, b, c, d], ipn_Mask = mask_bytes 4 p\<rparr>
       = dotted [a, b, c, d] @ ''/'' @ dec p"
proof -
  have "mask_bytes 4 p \<noteq> []"
    by (metis length_mask_bytes list.size(3) zero_neq_numeral)
  then show ?thesis
    using assms simpleMaskLength_mask_bytes [of p 4]
    by (simp add: IPNet_String_def networkNumberAndMask_def To4_def IP_String_def)
qed

lemma dotted_no_slash: "CHR ''/'' \<notin> set (dotted [a, b, c, d])"
  by (simp add: dotted_def dec_no_char is_digit_def)

lemma ParseCIDR_dotted:
  assumes p: "p \<le> 32"
  shows "ParseCIDR (dotted [a, b, c, d] @ ''/'' @ dec p) =
     Ok (IPv4 a b c d, \<lparr>ipn_IP = map2 (AND) [a, b, c, d] (mask_bytes 4 p), ipn_Mask = mask_bytes 4 p\<rparr>)"
proof -
  let ?s = "dotted [a, b, c, d] @ ''/'' @ dec p"
  have t: "takeWhile (\<lambda>x. x \<noteq> CHR ''/'') ?s = dotted [a, b, c, d]"
      "tl (dropWhile (\<lambda>x. x \<noteq> CHR ''/'') ?s) = dec p"
    using dotted_no_slash [of a b c d] by (auto simp: takeWhile_append dropWhile_append)
  have d: "dtoi (dec p) = Some (p, length (dec p))"
    using dtoi_dec [of p "[]"] p by (simp add: big_def)
  show ?thesis
    unfolding ParseCIDR_def Let_def t
    using p by (simp add: parseIPv4_dotted d CIDRMask_def IP_Mask_def IPv4_def v4InV6Prefix_def Let_def)
qed

lemma ParseCIDR_IPNet_String_v4:
  assumes "canonical_v4 n"
  shows "\<exists>ip. ParseCIDR (IPNet_String n) = Ok (ip, n)"
proof -
  from assms obtain a b c d p where n: "n = \<lparr>ipn_IP = [a, b, c, d], ipn_Mask = mask_bytes 4 p\<rparr>"
    and p: "p \<le> 32" and m: "map2 (AND) [a, b, c, d] (mask_bytes 4 p) = [a, b, c, d]"
    by (rule canonical_v4E)
  then show ?thesis
    using ParseCIDR_dotted [OF p, of a b c d] IPNet_String_v4 [OF p] by simp
qed

section \<open>What \<open>ParseCIDR\<close> yields\<close>

lemma parseIPv4_loop_length: "parseIPv4_loop k p s = Some q \<Longrightarrow> length q = length p + k"
proof (induction k arbitrary: p s)
  case (Suc k)
  then show ?case
    by (auto simp: Let_def split: if_splits option.splits prod.splits dest!: Suc.IH)
qed (auto split: if_splits)

lemma parseIPv4_length: "parseIPv4 s = Some p \<Longrightarrow> length p = 16 \<and> take 12 p = v4InV6Prefix"
  using parseIPv4_loop_length [of 4 "[]" s] by (auto simp: parseIPv4_def v4InV6Prefix_def)

lemma parseIPv6_loop_length:
  "parseIPv6_loop k acc ell s = Some (acc', ell', s') \<Longrightarrow> length acc + 2 * k \<le> 16 \<Longrightarrow> length acc' \<le> 16"
proof (induction k arbitrary: acc ell s)
  case (Suc k)
  obtain n c where x: "xtoi s = Some (n, c)" "\<not> n > 0xFFFF"
    using Suc.prems by (auto split: option.splits if_splits)
  show ?case
  proof (cases "c < length s \<and> s ! c = CHR ''.''")
    case True
    then show ?thesis
      using Suc.prems x by (auto split: option.splits if_splits dest!: parseIPv4_length)
  next
    case False
    then show ?thesis
      using Suc.prems x by (auto simp: Let_def split: if_splits dest!: Suc.IH)
  qed
qed simp

lemma parseIPv6_length: "parseIPv6 s = Some p \<Longrightarrow> length p = 16"
proof -
  assume "parseIPv6 s = Some p"
  then consider "p = replicate 16 0"
    | ell t r where "parseIPv6_loop 8 [] ell t = Some r" "expand_ellipsis r = Some p"
    by (auto simp: parseIPv6_def bind_eq_Some_conv split: if_splits)
  then show ?thesis
  proof cases
    case 2
    obtain acc e u where r: "r = (acc, e, u)" by (cases r)
    with 2(1) have "length acc \<le> 16" using parseIPv6_loop_length by fastforce
    with 2(2) r show ?thesis
      by (auto simp: expand_ellipsis_def split: if_splits option.splits)
  qed simp
qed

lemma drop_mask_bytes: "drop j (mask_bytes l n) = mask_bytes (l - j) (n - 8 * j)"
proof (induction l n arbitrary: j rule: mask_bytes.induct)
  case (2 l n)
  then show ?case
  proof (cases j)
    case (Suc i)
    then show ?thesis using 2 by (cases "n \<ge> 8") auto
  qed simp
qed simp

lemma To4_length: "length (To4 p) = 4 \<or> To4 p = []"
  by (simp add: To4_def)

lemma mask_bytes_eq_Nil [simp]: "mask_bytes l n = [] \<longleftrightarrow> l = 0"
  using length_mask_bytes [of l n] by (cases l) auto

lemma contiguous_masked:
  assumes "length p = l" "l = 4 \<or> l = 16" "k \<le> 8 * l"
  shows "contiguous \<lparr>ipn_IP = map2 (AND) p (mask_bytes l k), ipn_Mask = mask_bytes l k\<rparr>"
proof (cases "To4 (map2 (AND) p (mask_bytes l k)) \<noteq> []")
  case True
  then have 4: "length (To4 (map2 (AND) p (mask_bytes l k))) = 4" using To4_length by blast
  then show ?thesis
    using assms True simpleMaskLength_mask_bytes [of "k - 96" 4] simpleMaskLength_mask_bytes [of k 4]
    by (auto simp: contiguous_def networkNumberAndMask_def Let_def drop_mask_bytes)
next
  case False
  then have "l = 16" using assms by (auto simp: To4_def)
  then show ?thesis
    using assms False simpleMaskLength_mask_bytes [of k 16]
    by (auto simp: contiguous_def networkNumberAndMask_def Let_def)
qed

lemma ParseCIDR_OkE:
  assumes "ParseCIDR s = Ok (ip, n)"
  obtains (v4) q k where "length q = 4" "k \<le> 32"
      "n = \<lparr>ipn_IP = map2 (AND) q (mask_bytes 4 k), ipn_Mask = mask_bytes 4 k\<rparr>"
  | (v6) k where "length ip = 16" "k \<le> 128"
      "n = \<lparr>ipn_IP = map2 (AND) ip (mask_bytes 16 k), ipn_Mask = mask_bytes 16 k\<rparr>"
proof (cases "parseIPv4 (takeWhile (\<lambda>c. c \<noteq> CHR ''/'') s)")
  case None
  then have "length ip = 16 \<and> (\<exists>k \<le> 128. n = \<lparr>ipn_IP = map2 (AND) ip (mask_bytes 16 k), ipn_Mask = mask_bytes 16 k\<rparr>)"
    using assms parseIPv6_length
    by (fastforce simp: ParseCIDR_def Let_def CIDRMask_def IP_Mask_def not_less split: if_splits option.splits)
  then show thesis using v6 by blast
next
  case (Some p)
  then have "\<exists>q k. length q = 4 \<and> k \<le> 32 \<and>
      n = \<lparr>ipn_IP = map2 (AND) q (mask_bytes 4 k), ipn_Mask = mask_bytes 4 k\<rparr>"
    using assms parseIPv4_length [OF Some]
    by (intro exI [of _ "drop 12 p"])
       (fastforce simp: ParseCIDR_def Let_def CIDRMask_def IP_Mask_def not_less split: if_splits option.splits)
  then show thesis using v4 by blast
qed

lemma ParseCIDR_contiguous: "ParseCIDR s = Ok (ip, n) \<Longrightarrow> contiguous n"
  by (erule ParseCIDR_OkE) (auto intro: contiguous_masked)

lemma map2_and_idem: "length a = length m \<Longrightarrow> map2 (AND) (map2 (AND) a m) m = map2 (AND) a (m :: byte list)"
  by (induction a m rule: list_induct2) (auto simp: and.assoc)

lemma ParseCIDR_canonical_v4:
  assumes "ParseCIDR s = Ok (ip, n)" "length (ipn_Mask n) = 4"
  shows "canonical_v4 n"
  using assms(1)
proof (cases rule: ParseCIDR_OkE)
  case (v4 q k)
  then show ?thesis
    using simpleMaskLength_mask_bytes [of k 4] by (simp add: canonical_v4_def map2_and_idem)
next
  case (v6 k)
  with assms(2) show ?thesis by simp
qed

end
