(* ===== verification/Ip4.thy ===== *)
theory Ip4
  imports Net_Facts
begin

text \<open>
  The package \<open>pkg/util/ip\<close>: IPv4 addresses and networks as 32-bit words (\<open>ipnet.go\<close>, \<open>endianess.go\<close>).
  \<open>IP4\<close> is \<open>uint32\<close>; a prefix length is a 64-bit \<open>uint\<close>, so \<open>32 - n.PrefixLen\<close> wraps around for lengths
  over 32 and a shift by 32 or more yields 0, as in Go. Where the code indexes a nil slice the model
  returns \<open>Panic\<close>.
\<close>

type_synonym IP4 = "32 word"
type_synonym uint = "64 word"

record IP4Net =
  net_IP :: IP4
  PrefixLen :: uint

definition index_panic :: string where
  "index_panic = ''runtime error: index out of range''"

definition FromBytes :: "ip \<Rightarrow> IP4 res" where
  "FromBytes ip =
     (if length ip < 4 then Panic index_panic
      else Ok (ucast (ip ! 3) OR push_bit 8 (ucast (ip ! 2)) OR push_bit 16 (ucast (ip ! 1))
               OR push_bit 24 (ucast (ip ! 0))))"

definition FromIP :: "ip \<Rightarrow> IP4 res" where
  "FromIP ip = FromBytes (To4 ip)"

definition ParseIP4 :: "string \<Rightarrow> IP4 res" where
  "ParseIP4 s =
     (let ip = ParseIP s in
      if ip = [] then Err (ErrorString ''Invalid IP address format'') else FromIP ip)"

definition MustParseIP4 :: "string \<Rightarrow> IP4 res" where
  "MustParseIP4 s = (case ParseIP4 s of Err e \<Rightarrow> Panic (error_text e) | r \<Rightarrow> r)"

definition Octets :: "IP4 \<Rightarrow> byte \<times> byte \<times> byte \<times> byte" where
  "Octets ip = (ucast (drop_bit 24 ip), ucast (drop_bit 16 ip), ucast (drop_bit 8 ip), ucast ip)"

definition ToIP :: "IP4 \<Rightarrow> ip" where
  "ToIP ip = (case Octets ip of (a, b, c, d) \<Rightarrow> IPv4 a b c d)"

definition NetworkOrder :: "bool \<Rightarrow> IP4 \<Rightarrow> 32 word" where
  "NetworkOrder natively_little ip =
     (if natively_little then
        (case Octets ip of (a, b, c, d) \<Rightarrow>
           ucast a OR push_bit 8 (ucast b) OR push_bit 16 (ucast c) OR push_bit 24 (ucast d))
      else ip)"

definition IP4_String :: "IP4 \<Rightarrow> string" where
  "IP4_String ip = IP_String (ToIP ip)"

definition IP4_StringSep :: "IP4 \<Rightarrow> string \<Rightarrow> string" where
  "IP4_StringSep ip sep =
     (case Octets ip of (a, b, c, d) \<Rightarrow>
        dec (unat a) @ sep @ dec (unat b) @ sep @ dec (unat c) @ sep @ dec (unat d))"

definition quote :: "string \<Rightarrow> string" where
  "quote s = CHR 0x22 # s @ [CHR 0x22]"

definition trim_quotes :: "string \<Rightarrow> string" where
  "trim_quotes s = rev (dropWhile (\<lambda>c. c = CHR 0x22) (rev (dropWhile (\<lambda>c. c = CHR 0x22) s)))"

definition IP4_MarshalJSON :: "IP4 \<Rightarrow> string" where
  "IP4_MarshalJSON ip = quote (IP4_String ip)"

definition IP4_UnmarshalJSON :: "string \<Rightarrow> IP4 res" where
  "IP4_UnmarshalJSON j = ParseIP4 (trim_quotes j)"

section \<open>Networks\<close>

definition Net_String :: "IP4Net \<Rightarrow> string" where
  "Net_String n = IP4_String (net_IP n) @ ''/'' @ dec (unat (PrefixLen n))"

definition Net_StringSep :: "IP4Net \<Rightarrow> string \<Rightarrow> string \<Rightarrow> string" where
  "Net_StringSep n octetSep prefixSep =
     IP4_StringSep (net_IP n) octetSep @ prefixSep @ dec (unat (PrefixLen n))"

definition Net_Mask :: "IP4Net \<Rightarrow> 32 word" where
  "Net_Mask n = push_bit (unat (32 - PrefixLen n)) 0xFFFFFFFF"

definition Network :: "IP4Net \<Rightarrow> IP4Net" where
  "Network n = \<lparr>net_IP = net_IP n AND Net_Mask n, PrefixLen = PrefixLen n\<rparr>"

definition Net_Next :: "IP4Net \<Rightarrow> IP4Net" where
  "Net_Next n = \<lparr>net_IP = net_IP n + push_bit (unat (32 - PrefixLen n)) 1, PrefixLen = PrefixLen n\<rparr>"

definition FromIPNet :: "IPNet \<Rightarrow> IP4Net res" where
  "FromIPNet n =
     (let prefixLen = fst (Mask_Size (ipn_Mask n)) in
      case FromIP (ipn_IP n) of
        Ok ip \<Rightarrow> Ok \<lparr>net_IP = ip, PrefixLen = of_nat prefixLen\<rparr>
      | Err e \<Rightarrow> Err e
      | Panic p \<Rightarrow> Panic p)"

text \<open>\<open>int(n.PrefixLen)\<close> reads the 64-bit length as a signed number.\<close>

definition ToIPNet :: "IP4Net \<Rightarrow> IPNet" where
  "ToIPNet n = \<lparr>ipn_IP = ToIP (net_IP n), ipn_Mask = CIDRMask (sint (PrefixLen n)) 32\<rparr>"

definition Overlaps :: "IP4Net \<Rightarrow> IP4Net \<Rightarrow> bool" where
  "Overlaps n other =
     (let msk = (if PrefixLen n < PrefixLen other then Net_Mask n else Net_Mask other)
      in (net_IP n AND msk) = (net_IP other AND msk))"

definition Net_Equal :: "IP4Net \<Rightarrow> IP4Net \<Rightarrow> bool" where
  "Net_Equal n other = (net_IP n = net_IP other \<and> PrefixLen n = PrefixLen other)"

definition Net_Contains :: "IP4Net \<Rightarrow> IP4 \<Rightarrow> bool" where
  "Net_Contains n ip = ((net_IP n AND Net_Mask n) = (ip AND Net_Mask n))"

definition Net_Empty :: "IP4Net \<Rightarrow> bool" where
  "Net_Empty n = (net_IP n = 0 \<and> PrefixLen n = 0)"

definition Net_MarshalJSON :: "IP4Net \<Rightarrow> string" where
  "Net_MarshalJSON n = quote (Net_String n)"

definition Net_UnmarshalJSON :: "string \<Rightarrow> IP4Net res" where
  "Net_UnmarshalJSON j =
     (case ParseCIDR (trim_quotes j) of
        Ok (_, val) \<Rightarrow> FromIPNet val
      | Err e \<Rightarrow> Err e
      | Panic p \<Rightarrow> Panic p)"

section \<open>Words and their octets\<close>

definition octet_list :: "IP4 \<Rightarrow> byte list" where
  "octet_list ip = (case Octets ip of (a, b, c, d) \<Rightarrow> [a, b, c, d])"

lemma length_octet_list [simp]: "length (octet_list ip) = 4"
  by (simp add: octet_list_def Octets_def)

lemma unat_ucast_byte: "unat (ucast (drop_bit k w) :: byte) = unat w div 2 ^ k mod 256" for w :: IP4
proof -
  have "unat (ucast (drop_bit k w) :: byte) = take_bit LENGTH(8) (drop_bit k (unat w))"
    by (simp only: unsigned_ucast_eq unat_drop_bit_eq)
  then show ?thesis by (simp add: take_bit_eq_mod drop_bit_eq_div)
qed

lemma base256_digits:
  fixes x :: nat
  assumes "x < 4294967296"
  shows "x div 16777216 mod 256 * 16777216 + (x div 65536 mod 256 * 65536
       + (x div 256 mod 256 * 256 + x mod 256)) = x"
proof -
  define q r where "q = x div 256" and "r = x div 65536"
  have "x div 16777216 mod 256 = r div 256" "r = q div 256"
    using assms by (simp_all add: q_def r_def less_mult_imp_div_less flip: div_mult2_eq)
  moreover have "x = 256 * q + x mod 256" "q = 256 * (q div 256) + q mod 256"
      "r = 256 * (r div 256) + r mod 256"
    by (simp_all add: q_def)
  ultimately show ?thesis unfolding q_def [symmetric] r_def [symmetric] by linarith
qed

lemma num_octet_list: "num (octet_list ip) = unat ip"
proof -
  have b: "unat ip < 4294967296" using unsigned_less [where 'b = 32 and 'a = nat, of ip] by simp
  have o: "unat (ucast ip :: byte) = unat ip mod 256"
    using unat_ucast_byte [of 0 ip] by simp
  show ?thesis
    unfolding octet_list_def Octets_def
    using base256_digits [OF b] b by (simp add: unat_ucast_byte o less_mult_imp_div_less)
qed

lemma FromBytes_octet_list: "FromBytes (octet_list ip) = Ok ip"
proof -
  have "ucast (ucast ip :: byte) OR push_bit 8 (ucast (ucast (drop_bit 8 ip) :: byte))
      OR push_bit 16 (ucast (ucast (drop_bit 16 ip) :: byte))
      OR push_bit 24 (ucast (ucast (drop_bit 24 ip) :: byte)) = ip"
  proof (rule bit_word_eqI)
    fix n
    assume "n < LENGTH(32)"
    then consider "n < 8" | "8 \<le> n" "n < 16" | "16 \<le> n" "n < 24" | "24 \<le> n" "n < 32"
      by fastforce
    then show "bit (ucast (ucast ip :: byte) OR push_bit 8 (ucast (ucast (drop_bit 8 ip) :: byte))
      OR push_bit 16 (ucast (ucast (drop_bit 16 ip) :: byte))
      OR push_bit 24 (ucast (ucast (drop_bit 24 ip) :: byte)) :: IP4) n \<longleftrightarrow> bit ip n"
      by cases (auto simp: bit_simps)
  qed
  then show ?thesis
    by (simp add: FromBytes_def octet_list_def Octets_def eval_nat_numeral)
qed


lemma octet_list_cases:
  obtains a b c d where "Octets ip = (a, b, c, d)" "octet_list ip = [a, b, c, d]"
  by (cases "Octets ip") (auto simp: octet_list_def)

lemma ToIP_eq: "ToIP ip = v4InV6Prefix @ octet_list ip"
  by (rule octet_list_cases [of ip]) (simp add: ToIP_def IPv4_def)

lemma To4_ToIP [simp]: "To4 (ToIP ip) = octet_list ip"
  by (simp add: ToIP_eq To4_def v4InV6Prefix_def)

lemma To4_octet_list [simp]: "To4 (octet_list ip) = octet_list ip"
  by (simp add: To4_def)

lemma octet_list_nonempty [simp]: "octet_list ip \<noteq> []"
  using length_octet_list [of ip] by fastforce

lemma FromIP_ToIP: "FromIP (ToIP ip) = Ok ip"
  by (simp add: FromIP_def FromBytes_octet_list)

lemma FromIP_octets: "FromIP (octet_list ip) = Ok ip"
  by (simp add: FromIP_def FromBytes_octet_list)

lemma IP4_String_dotted: "IP4_String ip = dotted (octet_list ip)"
  by (simp add: IP4_String_def IP_String_def ToIP_eq) (simp add: To4_def v4InV6Prefix_def)

lemma ParseIP_dotted: "ParseIP (dotted [a, b, c, d]) = IPv4 a b c d"
proof -
  have scan: "ParseIP_scan s (ds @ CHR ''.'' # rest) = (case parseIPv4 s of None \<Rightarrow> [] | Some p \<Rightarrow> p)"
    if "list_all is_digit ds" for s ds rest
    using that by (induction ds) (auto simp: is_digit_def)
  show ?thesis
    using scan [OF dec_digits, of "dotted [a, b, c, d]" "unat a"] parseIPv4_dotted [of a b c d]
    by (simp add: ParseIP_def dotted_def)
qed

lemma ParseIP4_dotted: "ParseIP4 (dotted (octet_list ip)) = Ok ip"
proof -
  obtain a b c d where o: "octet_list ip = [a, b, c, d]" by (rule octet_list_cases)
  have "ParseIP (dotted (octet_list ip)) = ToIP ip"
    unfolding o ParseIP_dotted ToIP_eq IPv4_def by simp
  moreover have "ToIP ip \<noteq> []" by (simp add: ToIP_eq)
  ultimately show ?thesis by (simp only: ParseIP4_def Let_def FromIP_ToIP if_False)
qed

lemma trim_quotes_quote:
  assumes "s = [] \<or> (hd s \<noteq> CHR 0x22 \<and> last s \<noteq> CHR 0x22)"
  shows "trim_quotes (quote s) = s"
proof (cases "s = []")
  case False
  then obtain c t where "s = c # t" by (cases s) auto
  moreover have "rev s = last s # rev (butlast s)"
    using False by (simp flip: rev.simps(2) append_butlast_last_id)
  ultimately show ?thesis
    using assms False by (simp add: trim_quotes_def quote_def)
qed (simp add: trim_quotes_def quote_def)

section \<open>Masks and membership\<close>

lemma Net_Mask_eq: "Net_Mask n = NOT (mask (unat (32 - PrefixLen n)))"
proof -
  have "(0xFFFFFFFF :: 32 word) = - 1" by simp
  then show ?thesis by (simp only: Net_Mask_def push_bit_minus_one_eq_not_mask)
qed

lemma Net_Contains_iff:
  "Net_Contains n x \<longleftrightarrow>
     unat x div 2 ^ unat (32 - PrefixLen n) = unat (net_IP n) div 2 ^ unat (32 - PrefixLen n)"
  unfolding Net_Contains_def Net_Mask_eq and_not_mask_eq_iff by auto

interpretation ip4: address_block Net_Contains unat "\<lambda>n. unat (net_IP n)"
    "\<lambda>n. unat (32 - PrefixLen n)" "\<lambda>_ _. True"
  by unfold_locales (rule Net_Contains_iff)

lemma unat_hostbits:
  assumes "PrefixLen n \<le> 32"
  shows "unat (32 - PrefixLen n) = 32 - unat (PrefixLen n)" "unat (PrefixLen n) \<le> 32"
proof -
  show "unat (PrefixLen n) \<le> 32" using assms by (simp add: word_le_nat_alt)
  show "unat (32 - PrefixLen n) = 32 - unat (PrefixLen n)" using assms by (simp add: unat_sub)
qed

lemma Overlaps_aux:
  fixes x y :: nat
  assumes "j \<le> i"
  shows "x div 2 ^ i = y div 2 ^ i \<longleftrightarrow> (\<exists>z. z div 2 ^ i = x div 2 ^ i \<and> z div 2 ^ j = y div 2 ^ j)"
  using div_power_mono_eq [OF _ assms] by metis

lemma Overlaps_sym_shared:
  assumes "unat (32 - PrefixLen m) \<le> unat (32 - PrefixLen n)"
  shows "(net_IP n AND Net_Mask n) = (net_IP m AND Net_Mask n) \<longleftrightarrow>
     (\<exists>x. Net_Contains n x \<and> Net_Contains m x)"
proof
  assume "(net_IP n AND Net_Mask n) = (net_IP m AND Net_Mask n)"
  then have "Net_Contains n (net_IP m) \<and> Net_Contains m (net_IP m)"
    by (simp add: Net_Contains_def)
  then show "\<exists>x. Net_Contains n x \<and> Net_Contains m x" by blast
next
  assume "\<exists>x. Net_Contains n x \<and> Net_Contains m x"
  then obtain x where x: "Net_Contains n x" "Net_Contains m x" by blast
  have "Net_Contains m (net_IP m)" by (simp add: Net_Contains_def)
  then have "Net_Contains n (net_IP m)"
    using ip4.mem_nested [of n x m "net_IP m"] x assms by simp
  then show "(net_IP n AND Net_Mask n) = (net_IP m AND Net_Mask n)"
    by (simp add: Net_Contains_def)
qed

lemma unat_push_1: "unat (push_bit k 1 :: IP4) = 2 ^ k mod 2 ^ 32"
proof -
  have "unat (push_bit k 1 :: IP4) = take_bit LENGTH(32) (push_bit k (unat (1 :: IP4)))"
    by (rule unsigned_push_bit_eq)
  then show ?thesis by (simp add: push_bit_eq_mult take_bit_eq_mod)
qed

section \<open>The byte-slice form of a network\<close>

lemma octet_list_and: "octet_list (x AND y) = map2 (AND) (octet_list x) (octet_list y)"
  unfolding octet_list_def Octets_def by (simp only: drop_bit_and unsigned_and_eq) simp

lemma octet_list_mask:
  assumes "p \<le> 32"
  shows "octet_list (push_bit (32 - p) 0xFFFFFFFF) = mask_bytes 4 p"
proof -
  have "list_all (\<lambda>p. octet_list (push_bit (32 - p) 0xFFFFFFFF) = mask_bytes 4 p) [0..<33]"
    by code_simp
  then show ?thesis using assms by (auto simp: list_all_iff)
qed

lemma CIDRMask_32: "PrefixLen n \<le> 32 \<Longrightarrow> CIDRMask (sint (PrefixLen n)) 32 = mask_bytes 4 (unat (PrefixLen n))"
proof -
  assume a: "PrefixLen n \<le> 32"
  then have u: "unat (PrefixLen n) \<le> 32" by (rule unat_hostbits)
  have "sint (PrefixLen n) = int (unat (PrefixLen n))"
  proof -
    have "- (2 ^ 63) \<le> (0 :: int)" by simp
    then have "- (2 ^ 63) \<le> uint (PrefixLen n)" using uint_ge_0 by (rule order.trans)
    moreover have "uint (PrefixLen n) < 2 ^ 63" using a by (simp add: word_le_def)
    ultimately have "signed_take_bit 63 (uint (PrefixLen n)) = uint (PrefixLen n)"
      by (rule signed_take_bit_int_eq_self)
    then show ?thesis by (simp add: sint_uint)
  qed
  moreover have "uint (PrefixLen n) \<le> 32" using a by (simp add: word_le_def)
  ultimately show ?thesis by (simp add: CIDRMask_def)
qed


lemma octet_list_Mask:
  "PrefixLen n \<le> 32 \<Longrightarrow> octet_list (Net_Mask n) = mask_bytes 4 (unat (PrefixLen n))"
  using octet_list_mask [of "unat (PrefixLen n)"] unat_hostbits [of n] by (simp add: Net_Mask_def)

lemma FromIPNet_masked:
  assumes "PrefixLen n \<le> 32"
  shows "FromIPNet \<lparr>ipn_IP = map2 (AND) (octet_list (net_IP n)) (mask_bytes 4 (unat (PrefixLen n))),
      ipn_Mask = mask_bytes 4 (unat (PrefixLen n))\<rparr> = Ok (Network n)"
proof -
  have "map2 (AND) (octet_list (net_IP n)) (mask_bytes 4 (unat (PrefixLen n)))
      = octet_list (net_IP n AND Net_Mask n)"
    by (simp only: octet_list_and octet_list_Mask [OF assms])
  then show ?thesis
    using simpleMaskLength_mask_bytes [of "unat (PrefixLen n)" 4] unat_hostbits [OF assms]
    by (simp add: FromIPNet_def Mask_Size_def FromIP_octets Network_def)
qed

lemma Net_Unmarshal_Marshal:
  assumes "PrefixLen n \<le> 32"
  shows "Net_UnmarshalJSON (Net_MarshalJSON n) = Ok (Network n)"
proof -
  obtain a b c d where o: "octet_list (net_IP n) = [a, b, c, d]" by (rule octet_list_cases)
  let ?s = "dotted [a, b, c, d] @ ''/'' @ dec (unat (PrefixLen n))"
  have q: "CHR 0x22 \<notin> set ?s"
    by (simp add: dotted_def dec_no_char is_digit_def)
  have "?s \<noteq> []" by simp
  then have "hd ?s \<noteq> CHR 0x22" "last ?s \<noteq> CHR 0x22"
    using q hd_in_set [of ?s] last_in_set [of ?s] by metis+
  then have "trim_quotes (quote ?s) = ?s" by (intro trim_quotes_quote) blast
  then show ?thesis
    using ParseCIDR_dotted [of "unat (PrefixLen n)" a b c d] unat_hostbits [OF assms]
      FromIPNet_masked [OF assms]
    by (simp add: Net_UnmarshalJSON_def Net_MarshalJSON_def Net_String_def IP4_String_dotted o)
qed

lemma IPNet_Contains_ToIPNet:
  assumes "PrefixLen n \<le> 32"
  shows "IPNet_Contains (ToIPNet n) (ToIP x) \<longleftrightarrow> Net_Contains n x"
proof -
  let ?p = "unat (PrefixLen n)"
  have nm: "networkNumberAndMask (ToIPNet n) = (octet_list (net_IP n), mask_bytes 4 ?p)"
    by (simp add: networkNumberAndMask_def ToIPNet_def CIDRMask_32 [OF assms])
  have sm: "simpleMaskLength (mask_bytes 4 ?p) = Some ?p"
    using simpleMaskLength_mask_bytes [of ?p 4] unat_hostbits [OF assms] by simp
  have "net_fits (ToIPNet n) (ToIP x)"
    using unat_hostbits [OF assms] by (simp add: net_fits_def contiguous_def nm sm norm_ip_def)
  then have "IPNet_Contains (ToIPNet n) (ToIP x) \<longleftrightarrow>
      ip_num (ToIP x) div 2 ^ net_hostbits (ToIPNet n) = net_num (ToIPNet n) div 2 ^ net_hostbits (ToIPNet n)"
    by (rule net.mem_iff)
  then show ?thesis
    using unat_hostbits [OF assms]
    by (simp add: Net_Contains_iff ip_num_def net_num_def net_hostbits_def nm sm norm_ip_def num_octet_list)
qed

lemma next_block_differs:
  fixes a :: nat
  assumes "h < k" "a < 2 ^ k"
  shows "(a + 2 ^ h) mod 2 ^ k div 2 ^ h \<noteq> a div 2 ^ h"
proof -
  define q where "q = a div 2 ^ h"
  have k: "(2 :: nat) ^ k = 2 ^ h * 2 ^ (k - h)"
    using assms(1) by (simp flip: power_add)
  have "q < 2 ^ (k - h)"
    using assms(2) by (simp add: q_def k less_mult_imp_div_less mult.commute)
  moreover have "(a + 2 ^ h) mod 2 ^ k div 2 ^ h = (q + 1) mod 2 ^ (k - h)"
    by (simp add: k q_def mod_mult2_eq div_add_self2)
  moreover have "1 < (2 :: nat) ^ (k - h)" using assms(1) by (intro one_less_power) auto
  ultimately show ?thesis unfolding q_def [symmetric]
    by (cases "q + 1 = 2 ^ (k - h)") auto
qed

section \<open>Properties of the package\<close>

text \<open>An address printed by \<open>MarshalJSON\<close> is read back by \<open>UnmarshalJSON\<close> as the same address.\<close>

lemma IP4_json_roundtrip: "IP4_UnmarshalJSON (IP4_MarshalJSON ip) = Ok ip"
proof -
  obtain a b c d where o: "octet_list ip = [a, b, c, d]" by (rule octet_list_cases)
  have "CHR 0x22 \<notin> set (dotted [a, b, c, d])"
    by (simp add: dotted_def dec_no_char is_digit_def)
  then have "trim_quotes (quote (dotted [a, b, c, d])) = dotted [a, b, c, d]"
    by (intro trim_quotes_quote) (metis hd_in_set last_in_set)
  then show ?thesis
    using ParseIP4_dotted [of ip]
    by (simp add: IP4_UnmarshalJSON_def IP4_MarshalJSON_def IP4_String_dotted o)
qed

text \<open>
  C17 A network printed by \<open>MarshalJSON\<close> is read back as its \<open>Network()\<close>: the bits past the prefix are
  cleared, the prefix length is kept.
\<close>

theorem Net_json_roundtrip:
  assumes "PrefixLen n \<le> 32"
  shows "Net_UnmarshalJSON (Net_MarshalJSON n) = Ok (Network n)"
  using assms by (rule Net_Unmarshal_Marshal)

theorem Net_json_roundtrip_witness:
  "Net_UnmarshalJSON (Net_MarshalJSON \<lparr>net_IP = 0x0A010203, PrefixLen = 24\<rparr>)
     = Ok \<lparr>net_IP = 0x0A010200, PrefixLen = 24\<rparr>"
  using Net_json_roundtrip [of "\<lparr>net_IP = 0x0A010203, PrefixLen = 24\<rparr>"]
  by (simp add: Network_def Net_Mask_def)

text \<open>
  C15 \<open>Overlaps\<close> decides whether two networks share an address, although it only compares the leading
  bits of their base addresses under the shorter mask.
\<close>

theorem Overlaps_iff_shared_address:
  assumes "PrefixLen n \<le> 32" "PrefixLen other \<le> 32"
  shows "Overlaps n other \<longleftrightarrow> (\<exists>ip. Net_Contains n ip \<and> Net_Contains other ip)"
proof (cases "PrefixLen n < PrefixLen other")
  case True
  then have "unat (32 - PrefixLen other) \<le> unat (32 - PrefixLen n)"
    using unat_hostbits [OF assms(1)] unat_hostbits [OF assms(2)] by (simp add: word_less_nat_alt)
  then show ?thesis using True Overlaps_sym_shared [of other n] by (simp add: Overlaps_def)
next
  case False
  then have "unat (32 - PrefixLen n) \<le> unat (32 - PrefixLen other)"
    using unat_hostbits [OF assms(1)] unat_hostbits [OF assms(2)] by (simp add: word_less_nat_alt)
  then show ?thesis using False Overlaps_sym_shared [of n other] by (auto simp: Overlaps_def)
qed

theorem Overlaps_iff_shared_address_witness:
  "Overlaps \<lparr>net_IP = 0x01020300, PrefixLen = 24\<rparr> \<lparr>net_IP = 0x01020000, PrefixLen = 16\<rparr> \<and>
   (\<exists>ip. Net_Contains \<lparr>net_IP = 0x01020300, PrefixLen = 24\<rparr> ip \<and>
         Net_Contains \<lparr>net_IP = 0x01020000, PrefixLen = 16\<rparr> ip)"
  using Overlaps_iff_shared_address
    [of "\<lparr>net_IP = 0x01020300, PrefixLen = 24\<rparr>" "\<lparr>net_IP = 0x01020000, PrefixLen = 16\<rparr>"]
  by (simp add: Overlaps_def Net_Mask_def)

text \<open>
  C16 The word-based network agrees with \<open>net.IPNet\<close>, the byte-slice representation it replaces:
  \<open>Contains\<close> gives the same answer after \<open>ToIPNet\<close> and \<open>ToIP\<close>.
\<close>

theorem Contains_agrees_with_IPNet:
  assumes "PrefixLen n \<le> 32"
  shows "IPNet_Contains (ToIPNet n) (ToIP ip) = Net_Contains n ip"
  using assms by (rule IPNet_Contains_ToIPNet)

theorem Contains_agrees_with_IPNet_witness:
  "IPNet_Contains (ToIPNet \<lparr>net_IP = 0x01020300, PrefixLen = 24\<rparr>) (ToIP 0x010203FE)"
  using Contains_agrees_with_IPNet [of "\<lparr>net_IP = 0x01020300, PrefixLen = 24\<rparr>" "0x010203FE"]
  by (simp add: Net_Contains_def Net_Mask_def)

text \<open>
  \<open>Next\<close> is the block that follows: base address advanced by the size of the block, modulo \<open>2^32\<close>,
  and no address lies in both blocks unless the block is the whole address space.
\<close>

lemma Next_follows:
  assumes "0 < PrefixLen n" "PrefixLen n \<le> 32"
  shows "unat (net_IP (Net_Next n)) = (unat (net_IP n) + 2 ^ (32 - unat (PrefixLen n))) mod 2 ^ 32 \<and>
     \<not> Overlaps n (Net_Next n)"
proof -
  let ?h = "32 - unat (PrefixLen n)" and ?a = "unat (net_IP n)"
  have h: "unat (32 - PrefixLen n) = ?h" "?h < 32"
    using unat_hostbits [OF assms(2)] assms(1) by (simp_all add: word_less_nat_alt)
  have nx: "unat (net_IP (Net_Next n)) = (?a + 2 ^ ?h) mod 2 ^ 32"
    using h by (simp add: Net_Next_def unat_word_ariths unat_push_1 [simplified] mod_add_right_eq)
  moreover have "\<not> Overlaps n (Net_Next n)"
  proof
    assume "Overlaps n (Net_Next n)"
    then have "Net_Contains n (net_IP (Net_Next n))"
      by (simp add: Overlaps_def Net_Contains_def Net_Mask_def Net_Next_def Let_def)
    then have eq: "unat (net_IP (Net_Next n)) div 2 ^ ?h = ?a div 2 ^ ?h"
      by (simp only: Net_Contains_iff h)
    then show False
      using next_block_differs [of ?h 32 ?a] h(2) unsigned_less [of "net_IP n"] by (simp only: nx) simp
  qed
  ultimately show ?thesis by blast
qed

text \<open>
  C18 \<open>ParseIP4\<close> returns an error exactly for text that is no address. An IPv6 address parses, has no
  IPv4 form, and the nil slice \<open>To4\<close> returns for it is indexed: the call panics.
\<close>

theorem ParseIP4_outcomes:
  "(ParseIP4 s = Err (ErrorString ''Invalid IP address format'') \<longleftrightarrow> ParseIP s = []) \<and>
   (is_panic (ParseIP4 s) \<longleftrightarrow> ParseIP s \<noteq> [] \<and> To4 (ParseIP s) = [])"
  using To4_length [of "ParseIP s"]
  by (auto simp: ParseIP4_def FromIP_def FromBytes_def Let_def)

end
