(* ===== verification/Byte_Order.thy ===== *)
theory Byte_Order
  imports Ip4
begin

text \<open>
  \<open>pkg/util/ip/endianess.go\<close>: the byte order of the machine, found from the layout of an int16, and what
  \<open>NetworkOrder\<close> of \<open>ipnet.go\<close> achieves with it: in memory the bytes of an address stand in network order.
\<close>

section \<open>The machine\<close>

datatype ByteOrder = BigEndian | LittleEndian

text \<open>\<open>layout\<close> is how the machine stores an int16; \<open>init\<close> looks at the first byte of a one.\<close>

definition NativeEndian :: "(16 word \<Rightarrow> 8 word list) \<Rightarrow> ByteOrder" where
  "NativeEndian layout = (if hd (layout 1) = 0 then BigEndian else LittleEndian)"

definition NativelyLittle :: "(16 word \<Rightarrow> 8 word list) \<Rightarrow> bool" where
  "NativelyLittle layout = (NativeEndian layout = LittleEndian)"

section \<open>Words in memory\<close>

text \<open>The two layouts of a word of \<open>n\<close> bytes.\<close>

fun little :: "nat \<Rightarrow> 'a::len word \<Rightarrow> 8 word list" where
  "little 0 w = []"
| "little (Suc n) w = ucast w # little n (drop_bit 8 w)"

definition stored :: "ByteOrder \<Rightarrow> nat \<Rightarrow> 'a::len word \<Rightarrow> 8 word list" where
  "stored order n w = (case order of LittleEndian \<Rightarrow> little n w | BigEndian \<Rightarrow> rev (little n w))"

lemma NativeEndian_stored: "NativeEndian (stored order 2) = order"
  by (cases order) (simp_all add: NativeEndian_def stored_def numeral_2_eq_2)

unbundle bit_operations_syntax

lemma packed_bytes:
  fixes a b c d :: "8 word"
  defines "w \<equiv> (ucast a OR push_bit 8 (ucast b) OR push_bit 16 (ucast c) OR push_bit 24 (ucast d) :: 32 word)"
  shows "ucast w = a" "ucast (drop_bit 8 w) = b" "ucast (drop_bit 16 w) = c" "ucast (drop_bit 24 w) = d"
  by (rule bit_word_eqI; auto simp: w_def bit_simps dest: bit_imp_le_length)+

lemma little_4: "little 4 w = [ucast w, ucast (drop_bit 8 w), ucast (drop_bit 16 w), ucast (drop_bit 24 w)]"
proof -
  have "4 = Suc (Suc (Suc (Suc 0)))" by simp
  then show ?thesis by (simp only: little.simps drop_bit_drop_bit) simp
qed

lemma little_packed:
  "little 4 (ucast a OR push_bit 8 (ucast b) OR push_bit 16 (ucast c) OR push_bit 24 (ucast d) :: 32 word) = [a, b, c, d]"
  for a b c d :: "8 word"
  by (simp only: little_4 packed_bytes)

text \<open>On either machine the address in network order lies in memory as its four octets, first the highest.\<close>

lemma NetworkOrder_stored:
  "stored order 4 (NetworkOrder (NativelyLittle (stored order 2)) ip) = (case Octets ip of (a, b, c, d) \<Rightarrow> [a, b, c, d])"
proof (cases order)
  case LittleEndian
  then show ?thesis
    by (simp add: NativelyLittle_def NativeEndian_stored NetworkOrder_def stored_def little_packed split: prod.split)
next
  case BigEndian
  then show ?thesis
    by (simp add: NativelyLittle_def NativeEndian_stored NetworkOrder_def stored_def little_4 Octets_def)
qed

end
