(* ===== verification/Kube_Node.thy ===== *)
theory Kube_Node
  imports Prelude
begin

text \<open>
  The Kubernetes node object, as far as the program reads and writes it, and the functions over it:
  \<open>pkg/controller/helper/node_utils.go\<close> and the pure part of \<open>pkg/annotation/node.go\<close>. A Go map is an
  optional HOL map, so that the nil map, which can be read but not written, is kept apart from the empty
  one. Time stamps are integers, larger is later.
\<close>

type_synonym go_map = "(string \<rightharpoonup> string) option"

definition map_get :: "go_map \<Rightarrow> string \<Rightarrow> string option" where
  "map_get m k = (case m of None \<Rightarrow> None | Some f \<Rightarrow> f k)"

definition map_put :: "go_map \<Rightarrow> string \<Rightarrow> string \<Rightarrow> go_map res" where
  "map_put m k v = (case m of None \<Rightarrow> Panic ''assignment to entry in nil map'' | Some f \<Rightarrow> Ok (Some (f(k \<mapsto> v))))"

record NodeCondition =
  c_Type :: string
  c_Status :: string
  c_LastHeartbeatTime :: int
  c_LastTransitionTime :: int
  c_Reason :: string
  c_Message :: string

record Node =
  nd_Name :: string
  nd_UID :: string
  nd_Labels :: go_map
  nd_Annotations :: go_map
  nd_DeletionTimestamp :: "int option"
  nd_PodCIDR :: string
  nd_PodCIDRs :: "string list"
  nd_ProviderID :: string
  nd_Conditions :: "NodeCondition list"

definition zero_condition :: NodeCondition where
  "zero_condition = \<lparr>c_Type = '''', c_Status = '''', c_LastHeartbeatTime = 0,
     c_LastTransitionTime = 0, c_Reason = '''', c_Message = ''''\<rparr>"

definition empty_node :: Node where
  "empty_node = \<lparr>nd_Name = '''', nd_UID = '''', nd_Labels = None, nd_Annotations = None,
     nd_DeletionTimestamp = None, nd_PodCIDR = '''', nd_PodCIDRs = [], nd_ProviderID = '''',
     nd_Conditions = []\<rparr>"

section \<open>Conditions and labels\<close>

text \<open>
  The loop of \<open>FindCondition\<close>: the pointer it keeps is the index of an element of the slice (and the
  element), which the caller may write through.
\<close>

fun FindCondition_loop ::
  "NodeCondition list \<Rightarrow> string \<Rightarrow> nat \<Rightarrow> (nat \<times> NodeCondition) option \<Rightarrow> (nat \<times> NodeCondition) option" where
  "FindCondition_loop [] t i retCon = retCon"
| "FindCondition_loop (c # cs) t i retCon =
     (if c_Type c = t \<and>
         (case retCon of None \<Rightarrow> True | Some (_, r) \<Rightarrow> c_LastHeartbeatTime r < c_LastHeartbeatTime c)
      then FindCondition_loop cs t (Suc i) (Some (i, c))
      else FindCondition_loop cs t (Suc i) retCon)"

definition FindCondition_at :: "NodeCondition list \<Rightarrow> string \<Rightarrow> (nat \<times> NodeCondition) option" where
  "FindCondition_at conds conditionType = FindCondition_loop conds conditionType 0 None"

definition FindCondition :: "NodeCondition list \<Rightarrow> string \<Rightarrow> NodeCondition \<times> bool" where
  "FindCondition conds conditionType =
     (case FindCondition_at conds conditionType of
        None \<Rightarrow> (zero_condition, False)
      | Some (_, c) \<Rightarrow> (c, True))"

definition GetNodeCondition :: "Node \<Rightarrow> string \<Rightarrow> NodeCondition option" where
  "GetNodeCondition node conditionType = find (\<lambda>c. c_Type c = conditionType) (nd_Conditions node)"

definition LabelNodeExcludeNode :: string where
  "LabelNodeExcludeNode = ''service.ksyun.com/exclude-node''"

definition LabelNodeExcludeNodeDeprecated :: string where
  "LabelNodeExcludeNodeDeprecated = ''service.beta.kubernetes.io/exclude-node''"

definition HasExcludeLabel :: "Node \<Rightarrow> bool" where
  "HasExcludeLabel node =
     (if map_get (nd_Labels node) LabelNodeExcludeNodeDeprecated \<noteq> None then True
      else if map_get (nd_Labels node) LabelNodeExcludeNode \<noteq> None then True
      else False)"

definition FindNodeByNodeName :: "Node list \<Rightarrow> string \<Rightarrow> Node option" where
  "FindNodeByNodeName nodes nodeName = find (\<lambda>n. nd_Name n = nodeName) nodes"

section \<open>Annotations\<close>

definition KCE1NodeAnnotationInstanceUUIDKey :: string where
  "KCE1NodeAnnotationInstanceUUIDKey = ''appengine.sdns.ksyun.com/instance-uuid''"

definition KCE2NodeAnnotationInstanceUUIDKey :: string where
  "KCE2NodeAnnotationInstanceUUIDKey = ''kce.sdns.ksyun.com/instanceId''"

definition KCE1NodeAnnotationZoneKey :: string where
  "KCE1NodeAnnotationZoneKey = ''appengine.sdns.ksyun.com/zone''"

definition KCE2NodeAnnotationZoneKey :: string where
  "KCE2NodeAnnotationZoneKey = ''kce.sdns.ksyun.com/zone''"

definition IsExistedInstanceUUIDKey :: "Node \<Rightarrow> bool" where
  "IsExistedInstanceUUIDKey node =
     (if nd_Annotations node \<noteq> None then
        (if map_get (nd_Annotations node) KCE1NodeAnnotationInstanceUUIDKey \<noteq> None then True
         else if map_get (nd_Annotations node) KCE2NodeAnnotationInstanceUUIDKey \<noteq> None then True
         else False)
      else False)"

definition IsExistedZoneKey :: "Node \<Rightarrow> bool" where
  "IsExistedZoneKey node =
     (if nd_Annotations node \<noteq> None then
        (if map_get (nd_Annotations node) KCE1NodeAnnotationZoneKey \<noteq> None then True
         else if map_get (nd_Annotations node) KCE2NodeAnnotationZoneKey \<noteq> None then True
         else False)
      else False)"

definition setAnnotation :: "Node \<Rightarrow> string \<Rightarrow> string \<Rightarrow> Node res" where
  "setAnnotation node key value =
     (let annotations = (if nd_Annotations node \<noteq> None then nd_Annotations node else Some Map.empty) in
      case map_put annotations key value of
        Ok m \<Rightarrow> Ok (node\<lparr>nd_Annotations := m\<rparr>)
      | Err e \<Rightarrow> Err e
      | Panic p \<Rightarrow> Panic p)"

definition SetInstanceUUID :: "Node \<Rightarrow> string \<Rightarrow> Node res" where
  "SetInstanceUUID node instanceId = setAnnotation node KCE2NodeAnnotationInstanceUUIDKey instanceId"

definition SetZone :: "Node \<Rightarrow> string \<Rightarrow> Node res" where
  "SetZone node zone = setAnnotation node KCE2NodeAnnotationZoneKey zone"

section \<open>Facts\<close>

text \<open>
  The invariant of the loop, over the conditions seen so far: the kept one has the type asked for, a
  heartbeat no earlier than any other of that type, and is the first with that heartbeat.
\<close>

definition latest_of :: "NodeCondition list \<Rightarrow> string \<Rightarrow> (nat \<times> NodeCondition) option \<Rightarrow> bool" where
  "latest_of cs t r =
     (case r of
        None \<Rightarrow> list_all (\<lambda>c. c_Type c \<noteq> t) cs
      | Some (j, c) \<Rightarrow> j < length cs \<and> cs ! j = c \<and> c_Type c = t \<and>
          (\<forall>k < length cs. c_Type (cs ! k) = t \<longrightarrow>
             c_LastHeartbeatTime (cs ! k) \<le> c_LastHeartbeatTime c \<and>
             (k < j \<longrightarrow> c_LastHeartbeatTime (cs ! k) < c_LastHeartbeatTime c)))"

lemma latest_of_keep:
  assumes "latest_of cs t r"
    and "c_Type d \<noteq> t \<or> (\<exists>j c. r = Some (j, c) \<and> c_LastHeartbeatTime d \<le> c_LastHeartbeatTime c)"
  shows "latest_of (cs @ [d]) t r"
  using assms by (auto simp: latest_of_def nth_append less_Suc_eq split: option.splits)

lemma latest_of_take:
  assumes "latest_of cs t r" "c_Type d = t"
    and "case r of None \<Rightarrow> True | Some (_, c) \<Rightarrow> c_LastHeartbeatTime c < c_LastHeartbeatTime d"
  shows "latest_of (cs @ [d]) t (Some (length cs, d))"
  using assms
  by (fastforce simp: latest_of_def nth_append less_Suc_eq list_all_length split: option.splits)

lemma FindCondition_loop_latest:
  "latest_of cs t r \<Longrightarrow> latest_of (cs @ ds) t (FindCondition_loop ds t (length cs) r)"
proof (induction ds arbitrary: cs r)
  case (Cons d ds)
  show ?case
  proof (cases "c_Type d = t \<and> (case r of None \<Rightarrow> True | Some (_, c) \<Rightarrow> c_LastHeartbeatTime c < c_LastHeartbeatTime d)")
    case True
    then show ?thesis
      using Cons.IH [of "cs @ [d]" "Some (length cs, d)"] latest_of_take [OF Cons.prems] by simp
  next
    case False
    then have "latest_of (cs @ [d]) t r"
      using Cons.prems by (intro latest_of_keep) (auto split: option.splits)
    then show ?thesis
      using False Cons.IH [of "cs @ [d]" r] by (simp only: FindCondition_loop.simps if_not_P) simp
  qed
qed simp

lemma FindCondition_at_latest: "latest_of conds t (FindCondition_at conds t)"
  using FindCondition_loop_latest [of "[]" t None conds] by (simp add: FindCondition_at_def latest_of_def)

lemma FindCondition_at_None: "FindCondition_at conds t = None \<longleftrightarrow> list_all (\<lambda>c. c_Type c \<noteq> t) conds"
proof (cases "FindCondition_at conds t")
  case None
  then show ?thesis using FindCondition_at_latest [of conds t] by (simp add: latest_of_def)
next
  case (Some p)
  then show ?thesis
    using FindCondition_at_latest [of conds t] by (cases p) (auto simp: latest_of_def list_all_length)
qed

text \<open>The invariant determines the result: an index and a condition with it are the ones found.\<close>

lemma latest_of_unique:
  assumes "latest_of cs t (Some (i, c))" "latest_of cs t (Some (j, d))"
  shows "i = j \<and> c = d"
proof -
  have *: "i < length cs" "cs ! i = c" "c_Type c = t" "j < length cs" "cs ! j = d" "c_Type d = t"
    using assms by (auto simp: latest_of_def)
  then have "c_LastHeartbeatTime c = c_LastHeartbeatTime d"
    using assms * by (intro antisym) (auto simp: latest_of_def)
  moreover have "i < j \<Longrightarrow> c_LastHeartbeatTime c < c_LastHeartbeatTime d"
    "j < i \<Longrightarrow> c_LastHeartbeatTime d < c_LastHeartbeatTime c"
    using assms * by (auto simp: latest_of_def)
  ultimately have "i = j" by (metis less_irrefl linorder_neqE_nat)
  then show ?thesis using * by simp
qed

lemma latest_of_found: "latest_of conds t (Some (i, c)) \<Longrightarrow> FindCondition_at conds t = Some (i, c)"
  using FindCondition_at_latest [of conds t] latest_of_unique [of conds t i c]
  by (cases "FindCondition_at conds t") (auto simp: latest_of_def list_all_length)

section \<open>Properties\<close>

text \<open>
  \<open>FindCondition\<close> returns a condition of the type asked for whenever the node has one, the one with the
  latest heartbeat (the first such in the list), and otherwise the zero condition with \<open>False\<close>.
\<close>

lemma FindCondition_latest:
  "case FindCondition conds t of (c, found) \<Rightarrow>
     (found \<longleftrightarrow> (\<exists>d \<in> set conds. c_Type d = t)) \<and>
     (if found then c \<in> set conds \<and> c_Type c = t \<and>
        (\<forall>d \<in> set conds. c_Type d = t \<longrightarrow> c_LastHeartbeatTime d \<le> c_LastHeartbeatTime c)
      else c = zero_condition)"
  using FindCondition_at_latest [of conds t] FindCondition_at_None [of conds t]
  by (cases "FindCondition_at conds t")
     (auto simp: FindCondition_def latest_of_def list_all_iff in_set_conv_nth)

end
