(* ===== verification/World.thy ===== *)
theory World
  imports Kube_Node
begin

text \<open>
  The code outside the repository that the program calls, as a record of functions over an abstract
  world \<open>'w\<close>: the Kubernetes client and event recorder, the concurrent map of the controller, HTTP
  transport, the request signer, the AK/SK provider, random numbers, JSON decoding, and the
  retry and backoff libraries. Every definition of the model takes the record as an argument. The
  predicates at the end state the documented behaviour that properties rely on, each by name; no
  definition of the model uses them.
\<close>

section \<open>Data exchanged with the outside\<close>

record Request =
  rq_Method :: string
  rq_URL :: string
  rq_Header :: "string \<Rightarrow> string list"
  rq_Body :: string

record Response =
  rs_StatusCode :: int
  rs_Body :: string

record AKSK =
  ak_AK :: string
  ak_SK :: string
  ak_SecurityToken :: string

record Route =
  rt_Name :: string
  rt_DestinationCIDR :: string
  rt_InstanceId :: string
  rt_RouteId :: string

record RouteSetType =
  rst_RouteId :: string
  rst_VpcId :: string
  rst_RouteType :: string
  rst_DestinationCIDR :: string
  rst_NextHopset :: "string list"

record Vpc =
  vpc_VpcId :: string
  vpc_ProductTag :: string

record RouteArgs =
  ra_DomainId :: string
  ra_InstanceId :: string
  ra_InstanceType :: string
  ra_CidrBlock :: string

record AlarmArgs =
  aa_Name :: string
  aa_Product :: string
  aa_Priority :: string
  aa_Content :: string
  aa_NoDeal :: string

record Backoff =
  bo_Duration :: int
  bo_FactorMilli :: int
  bo_JitterMilli :: int
  bo_Steps :: int
  bo_Cap :: int

record Event =
  ev_Object :: string
  ev_UID :: string
  ev_Type :: string
  ev_Reason :: string
  ev_Message :: string

section \<open>The outside\<close>

record 'w env =
  k_get :: "string \<Rightarrow> ('w, Node) eff"
  k_list :: "('w, Node list) eff"
  k_update :: "Node \<Rightarrow> ('w, Node) eff"
  k_patch :: "Node \<Rightarrow> string \<Rightarrow> ('w, unit) eff"
  k_status_patch :: "Node \<Rightarrow> string \<Rightarrow> ('w, unit) eff"
  k_marshal :: "Node \<Rightarrow> string res"
  k_merge_patch :: "string \<Rightarrow> string \<Rightarrow> string res"
  is_not_found :: "gerror \<Rightarrow> bool"
  is_conflict :: "gerror \<Rightarrow> bool"
  new_aggregate :: "gerror list \<Rightarrow> gerror option"
  record_event :: "Event \<Rightarrow> 'w \<Rightarrow> 'w"
  now :: "'w \<Rightarrow> int \<times> 'w"
  cache_get :: "string \<Rightarrow> 'w \<Rightarrow> Route option"
  cache_set_if_absent :: "string \<Rightarrow> Route \<Rightarrow> 'w \<Rightarrow> 'w"
  cache_remove :: "string \<Rightarrow> 'w \<Rightarrow> 'w"
  exp_backoff :: "Backoff \<Rightarrow> ('w \<times> Route option, bool) eff \<Rightarrow> ('w \<times> Route option, unit) eff"
  retry_do :: "Backoff \<Rightarrow> (gerror option \<Rightarrow> bool) \<Rightarrow> ('w \<times> string, unit) eff \<Rightarrow> ('w \<times> string, unit) eff"
  sleep_seconds :: "nat \<Rightarrow> 'w \<Rightarrow> 'w"
  rand_int63 :: "'w \<Rightarrow> nat \<times> 'w"
  url_scheme :: "string \<Rightarrow> string option"
  new_request_error :: "string \<Rightarrow> string \<Rightarrow> gerror option"
  sign_request :: "string \<times> string \<Rightarrow> string \<Rightarrow> string \<Rightarrow> Request \<Rightarrow> ('w, Request) eff"
  http_do :: "Request \<Rightarrow> ('w, Response) eff"
  aksk_get :: "('w, AKSK) eff"
  aksk_reload :: "('w, AKSK) eff"
  marshal_route_args :: "RouteArgs \<Rightarrow> string"
  marshal_alarm_args :: "AlarmArgs \<Rightarrow> string"
  unmarshal_vpcs :: "string \<Rightarrow> Vpc list res"
  unmarshal_route_id :: "string \<Rightarrow> string res"
  unmarshal_routes :: "string \<Rightarrow> RouteSetType list res"
  metadata_get :: "string \<Rightarrow> ('w, Response) eff"

section \<open>Documented behaviour\<close>

text \<open>
  \<open>wait.ExponentialBackoff\<close>: the condition is checked at most \<open>Steps\<close> times, with a sleep between two
  checks; it stops at the first check that returns true or an error (which it returns), and returns
  \<open>ErrWaitTimeout\<close> when the checks are used up.
\<close>

definition ErrWaitTimeout :: gerror where
  "ErrWaitTimeout = ErrorString ''timed out waiting for the condition''"

fun backoff_checks :: "nat \<Rightarrow> ('s \<Rightarrow> 's) \<Rightarrow> ('s, bool) eff \<Rightarrow> ('s, unit) eff" where
  "backoff_checks 0 slp cond s = (Err ErrWaitTimeout, s)"
| "backoff_checks (Suc k) slp cond s =
     on_res cond
       (\<lambda>done s'. if done then (Ok (), s')
                  else if k = 0 then (Err ErrWaitTimeout, s')
                  else backoff_checks k slp cond (slp s'))
       (\<lambda>e s'. (Err e, s')) s"

definition backoff_documented :: "'w env \<Rightarrow> bool" where
  "backoff_documented E \<longleftrightarrow>
     (\<forall>b. \<exists>slp. \<forall>cond w v. exp_backoff E b cond (w, v)
        = backoff_checks (nat (bo_Steps b)) (map_prod slp id) cond (w, v))"

text \<open>
  \<open>retry.Do\<close> with \<open>LastErrorOnly\<close>: at most 10 attempts (the default); an attempt that succeeds ends it
  with nil; an error that \<open>RetryIf\<close> does not accept, or the last attempt's, is returned.
\<close>

fun retry_attempts :: "nat \<Rightarrow> ('s \<Rightarrow> 's) \<Rightarrow> (gerror option \<Rightarrow> bool) \<Rightarrow> ('s, unit) eff \<Rightarrow> ('s, unit) eff" where
  "retry_attempts 0 slp retryIf fn s = (Ok (), s)"
| "retry_attempts (Suc k) slp retryIf fn s =
     on_res fn
       (\<lambda>_ s'. (Ok (), s'))
       (\<lambda>e s'. if \<not> retryIf (Some e) \<or> k = 0 then (Err e, s')
               else retry_attempts k slp retryIf fn (slp s')) s"

definition retry_documented :: "'w env \<Rightarrow> bool" where
  "retry_documented E \<longleftrightarrow>
     (\<forall>b. \<exists>slp. \<forall>p fn w v. retry_do E b p fn (w, v) = retry_attempts 10 (map_prod slp id) p fn (w, v))"

text \<open>The concurrent map: \<open>SetIfAbsent\<close> keeps a value that is there, \<open>Remove\<close> removes one key.\<close>

definition cache_documented :: "'w env \<Rightarrow> bool" where
  "cache_documented E \<longleftrightarrow>
     (\<forall>k r w j. cache_get E j (cache_set_if_absent E k r w) =
        (if j = k \<and> cache_get E k w = None then Some r else cache_get E j w)) \<and>
     (\<forall>k w j. cache_get E j (cache_remove E k w) = (if j = k then None else cache_get E j w))"

text \<open>\<open>NewAggregate\<close> of errors that are not nil is nil exactly for the empty list.\<close>

definition aggregate_documented :: "'w env \<Rightarrow> bool" where
  "aggregate_documented E \<longleftrightarrow> (\<forall>es. new_aggregate E es = None \<longleftrightarrow> es = [])"

text \<open>Only an API status error is a conflict, never an error made by \<open>fmt.Errorf\<close>.\<close>

definition conflict_documented :: "'w env \<Rightarrow> bool" where
  "conflict_documented E \<longleftrightarrow> (\<forall>s. \<not> is_conflict E (ErrorString s))"

lemmas documented_defs = backoff_documented_def retry_documented_def cache_documented_def
  aggregate_documented_def conflict_documented_def

end
