(* ===== verification/Kop_Http.thy ===== *)
theory Kop_Http
  imports World "HOL-Library.Char_ord" "HOL-Library.List_Lexorder"
begin

text \<open>
  The HTTP client of the cloud API: \<open>pkg/http/kophttp.go\<close>, with \<open>pkg/util/retry.go\<close>,
  \<open>pkg/util/random/random.go\<close> and the part of \<open>pkg/util/encoding.go\<close> it calls. The state of a client is
  the record \<open>KopClient\<close>; each setter returns the client updated. \<open>send\<close> builds one request and performs
  it, \<open>Go\<close> retries \<open>send\<close> under \<open>shouldRetry\<close>. Logging and tracing spans are left out.
\<close>

section \<open>Association lists for maps that are ranged over\<close>

fun hset :: "'k \<Rightarrow> 'v \<Rightarrow> ('k \<times> 'v) list \<Rightarrow> ('k \<times> 'v) list" where
  "hset k v [] = [(k, v)]"
| "hset k v ((j, u) # hs) = (if j = k then (k, v) # hs else (j, u) # hset k v hs)"

lemma map_of_hset [simp]: "map_of (hset k v hs) = (map_of hs)(k \<mapsto> v)"
  by (induction hs) auto

lemma fst_set_hset [simp]: "fst ` set (hset k v hs) = insert k (fst ` set hs)"
  by (induction k v hs rule: hset.induct) (simp_all add: insert_commute)

lemma distinct_hset: "distinct (map fst hs) \<Longrightarrow> distinct (map fst (hset k v hs))"
  by (induction k v hs rule: hset.induct) auto

section \<open>Query strings\<close>

type_synonym url_values = "(string \<times> string list) list"

definition hex_upper :: "nat \<Rightarrow> char" where
  "hex_upper d = char_of (if d < 10 then 48 + d else 55 + d)"

definition unreserved :: "char \<Rightarrow> bool" where
  "unreserved c = (let k = (of_char c :: nat) in
     (65 \<le> k \<and> k \<le> 90) \<or> (97 \<le> k \<and> k \<le> 122) \<or> (48 \<le> k \<and> k \<le> 57)
     \<or> c \<in> {CHR ''-'', CHR ''_'', CHR ''.'', CHR ''~''})"

definition escape_char :: "char \<Rightarrow> string" where
  "escape_char c =
     (if unreserved c then [c]
      else if c = CHR '' '' then ''+''
      else (let k = (of_char c :: nat) in [CHR ''%'', hex_upper (k div 16), hex_upper (k mod 16)]))"

definition QueryEscape :: "string \<Rightarrow> string" where
  "QueryEscape s = concat (map escape_char s)"

fun amp_join :: "string list \<Rightarrow> string" where
  "amp_join [] = ''''"
| "amp_join [x] = x"
| "amp_join (x # y # zs) = x @ ''&'' @ amp_join (y # zs)"

definition Values_Encode :: "url_values \<Rightarrow> string" where
  "Values_Encode v =
     amp_join (concat (map (\<lambda>(k, vs). map (\<lambda>x. QueryEscape k @ ''='' @ QueryEscape x) vs)
       (sort_key fst v)))"

definition Values_Get :: "string list \<Rightarrow> string" where
  "Values_Get vs = (case vs of [] \<Rightarrow> '''' | x # _ \<Rightarrow> x)"

text \<open>\<open>ConvertToQueryValues\<close> of a \<open>url.Values\<close>: each key is set to its first value.\<close>

definition ConvertToQueryValues :: "url_values \<Rightarrow> url_values" where
  "ConvertToQueryValues mapValues =
     foldl (\<lambda>values (k, vs). hset k [Values_Get vs] values) [] mapValues"

section \<open>Headers\<close>

definition token_char :: "char \<Rightarrow> bool" where
  "token_char c = (let k = (of_char c :: nat) in
     (65 \<le> k \<and> k \<le> 90) \<or> (97 \<le> k \<and> k \<le> 122) \<or> (48 \<le> k \<and> k \<le> 57)
     \<or> c \<in> set ''!#$%&*+-.^_|~'' \<or> k = 39 \<or> k = 96)"

fun canon_loop :: "bool \<Rightarrow> string \<Rightarrow> string" where
  "canon_loop up [] = []"
| "canon_loop up (c # cs) =
     (let k = (of_char c :: nat);
          d = (if up \<and> 97 \<le> k \<and> k \<le> 122 then char_of (k - 32)
               else if \<not> up \<and> 65 \<le> k \<and> k \<le> 90 then char_of (k + 32) else c)
      in d # canon_loop (c = CHR ''-'') cs)"

definition CanonicalHeaderKey :: "string \<Rightarrow> string" where
  "CanonicalHeaderKey s = (if list_all token_char s then canon_loop True s else s)"

definition Header_Add :: "string \<Rightarrow> string \<Rightarrow> Request \<Rightarrow> Request" where
  "Header_Add k v r =
     (let c = CanonicalHeaderKey k in r\<lparr>rq_Header := (rq_Header r)(c := rq_Header r c @ [v])\<rparr>)"

definition Header_Set :: "string \<Rightarrow> string \<Rightarrow> Request \<Rightarrow> Request" where
  "Header_Set k v r = r\<lparr>rq_Header := (rq_Header r)(CanonicalHeaderKey k := [v])\<rparr>"

section \<open>Random strings\<close>

definition Uppercase :: string where "Uppercase = ''ABCDEFGHIJKLMNOPQRSTUVWXYZ''"
definition Lowercase :: string where "Lowercase = ''abcdefghijklmnopqrstuvwxyz''"
definition Alphabetic :: string where "Alphabetic = Uppercase @ Lowercase"
definition Numeric :: string where "Numeric = ''0123456789''"
definition Alphanumeric :: string where "Alphanumeric = Alphabetic @ Numeric"

fun random_loop :: "'w env \<Rightarrow> nat \<Rightarrow> string \<Rightarrow> 'w \<Rightarrow> string \<times> 'w" where
  "random_loop E 0 charset w = ([], w)"
| "random_loop E (Suc n) charset w =
     (let (r, w1) = rand_int63 E w; (b, w2) = random_loop E n charset w1
      in (charset ! (r mod length charset) # b, w2))"

definition random_String :: "'w env \<Rightarrow> 8 word \<Rightarrow> string list \<Rightarrow> 'w \<Rightarrow> string \<times> 'w" where
  "random_String E len charsets w =
     (let charset = concat charsets;
          charset = (if charset = '''' then Alphanumeric else charset)
      in random_loop E (unat len) charset w)"

section \<open>The client\<close>

record KopClient =
  kop_endpoint :: string
  kop_tenantId :: string
  kop_instanceId :: string
  kop_method :: string
  kop_url :: string
  kop_requestIdPrefix :: string
  kop_headers :: "(string \<times> string) list"
  kop_body :: "string option"
  kop_insecure :: bool
  kop_signer :: "(string \<times> string) option"
  kop_region :: string
  kop_servername :: string
  kop_backoff :: "Backoff option"

definition ENDPOINT :: string where "ENDPOINT = ''http://internal.api.ksyun.com''"
definition POST :: string where "POST = ''POST''"
definition UPDATE :: string where "UPDATE = ''PUT''"
definition GET :: string where "GET = ''GET''"
definition DELETE :: string where "DELETE = ''DELETE''"

definition DefaultBackOff :: Backoff where
  "DefaultBackOff = \<lparr>bo_Duration = 500000000, bo_FactorMilli = 1500, bo_JitterMilli = 2000,
     bo_Steps = 10, bo_Cap = 5000000000\<rparr>"

definition NewKopClient :: KopClient where
  "NewKopClient = \<lparr>kop_endpoint = ENDPOINT, kop_tenantId = '''', kop_instanceId = '''',
     kop_method = '''', kop_url = '''', kop_requestIdPrefix = ''vpc-route-controller'',
     kop_headers = [], kop_body = None, kop_insecure = False, kop_signer = None, kop_region = '''',
     kop_servername = '''', kop_backoff = Some DefaultBackOff\<rparr>"

definition SetEndpoint :: "'w env \<Rightarrow> string \<Rightarrow> KopClient \<Rightarrow> KopClient" where
  "SetEndpoint E value kop =
     (let kop = kop\<lparr>kop_endpoint := value\<rparr> in
      if url_scheme E value = Some ''https'' then kop\<lparr>kop_insecure := True\<rparr> else kop)"

definition SetInstanceId :: "string \<Rightarrow> KopClient \<Rightarrow> KopClient" where
  "SetInstanceId value kop = kop\<lparr>kop_instanceId := value\<rparr>"

definition SetTenantId :: "string \<Rightarrow> KopClient \<Rightarrow> KopClient" where
  "SetTenantId value kop = kop\<lparr>kop_tenantId := value\<rparr>"

definition SetRequestIdPrefix :: "string \<Rightarrow> KopClient \<Rightarrow> KopClient" where
  "SetRequestIdPrefix value kop =
     (let value = (if length value = 0 then ''vpc-route-controller'' else value)
      in kop\<lparr>kop_requestIdPrefix := value\<rparr>)"

definition SetMethod :: "string \<Rightarrow> KopClient \<Rightarrow> KopClient" where
  "SetMethod value kop = kop\<lparr>kop_method := value\<rparr>"

definition SetHeader :: "(string \<times> string) list \<Rightarrow> KopClient \<Rightarrow> KopClient" where
  "SetHeader value kop =
     kop\<lparr>kop_headers := foldl (\<lambda>hs (key, val). hset key val hs) (kop_headers kop) value\<rparr>"

definition SetBackOff :: "Backoff option \<Rightarrow> KopClient \<Rightarrow> KopClient" where
  "SetBackOff backoff kop = kop\<lparr>kop_backoff := backoff\<rparr>"

definition SetUrlQuery :: "string \<Rightarrow> url_values \<Rightarrow> KopClient \<Rightarrow> KopClient" where
  "SetUrlQuery value i kop =
     (let u = ConvertToQueryValues i in
      if length value = 0 then kop\<lparr>kop_url := kop_endpoint kop @ ''?'' @ Values_Encode u\<rparr>
      else kop\<lparr>kop_url := kop_endpoint kop @ ''/'' @ value @ ''?'' @ Values_Encode u\<rparr>)"

text \<open>\<open>SetBody\<close> takes the argument already marshalled (\<open>util.ConvertToMap\<close> is \<open>json.Marshal\<close>).\<close>

definition SetBody :: "string \<Rightarrow> KopClient \<Rightarrow> KopClient" where
  "SetBody marshalled kop = kop\<lparr>kop_body := Some marshalled\<rparr>"

definition SetByteBody :: "string \<Rightarrow> KopClient \<Rightarrow> KopClient" where
  "SetByteBody b kop = kop\<lparr>kop_body := Some b\<rparr>"

definition SetUrl :: "string \<Rightarrow> KopClient \<Rightarrow> KopClient" where
  "SetUrl value kop = kop\<lparr>kop_url := kop_endpoint kop @ ''/'' @ value\<rparr>"

text \<open>The first part and the rest of a text that is split at \<open>sep\<close>.\<close>

fun cut :: "string \<Rightarrow> string \<Rightarrow> (string \<times> string) option" where
  "cut sep [] = None"
| "cut sep (c # cs) =
     (if take (length sep) (c # cs) = sep then Some ([], drop (length sep) (c # cs))
      else map_option (\<lambda>(a, b). (c # a, b)) (cut sep cs))"

definition first_part :: "string \<Rightarrow> string \<Rightarrow> string" where
  "first_part sep s = (case cut sep s of None \<Rightarrow> s | Some (a, _) \<Rightarrow> a)"

definition getServerName :: "KopClient \<Rightarrow> string" where
  "getServerName kop =
     (if kop_servername kop \<noteq> '''' then kop_servername kop
      else
        (case cut ''://'' (kop_url kop) of
           Some (_, rest) \<Rightarrow> first_part ''/'' (first_part ''://'' rest)
         | None \<Rightarrow> kop_url kop))"

lemma cut_clean:
  assumes "sep = x # xs" "x \<notin> set a"
  shows "cut sep (a @ b) = map_option (\<lambda>(c, d). (a @ c, d)) (cut sep b)"
  using assms
proof (induction a)
  case Nil
  show ?case by (cases "cut sep b") auto
next
  case (Cons y a)
  then show ?case by (cases "cut sep b") auto
qed

text \<open>Without a name of its own the server is the host of the URL.\<close>

lemma getServerName_host:
  assumes "kop_servername kop = ''''" "kop_url kop = scheme @ ''://'' @ host @ ''/'' @ path"
    and "CHR '':'' \<notin> set scheme" "CHR '':'' \<notin> set host" "CHR ''/'' \<notin> set host"
  shows "getServerName kop = host"
proof -
  have "cut ''://'' (kop_url kop) = Some (scheme, host @ ''/'' @ path)"
    unfolding assms(2) using cut_clean [of "''://''" "CHR '':''" _ scheme] assms(3) by simp
  moreover have "\<exists>q. first_part ''://'' (host @ ''/'' @ path) = host @ ''/'' @ q"
    using cut_clean [of "''://''" "CHR '':''" _ host "''/'' @ path"] assms(4)
    by (auto simp: first_part_def split: option.splits)
  moreover have "first_part ''/'' (host @ ''/'' @ q) = host" for q
    using cut_clean [of "''/''" "CHR ''/''" _ host "''/'' @ q"] assms(5) by (simp add: first_part_def)
  ultimately show ?thesis using assms(1) by (auto simp: getServerName_def)
qed

definition SetSigner :: "string \<Rightarrow> string \<Rightarrow> string \<Rightarrow> string \<Rightarrow> KopClient \<Rightarrow> KopClient" where
  "SetSigner serverName region accessKeyId accessKeySecret kop =
     kop\<lparr>kop_region := region, kop_servername := serverName,
         kop_signer := Some (accessKeyId, accessKeySecret)\<rparr>"

section \<open>Which errors are retried\<close>

text \<open>
  The types whose method set has \<open>Timeout() bool\<close>: the type assertion to \<open>TimeoutError\<close> succeeds for
  them, whatever \<open>Timeout()\<close> returns.
\<close>

fun is_TimeoutError :: "gerror \<Rightarrow> bool" where
  "is_TimeoutError (DNSError _) = True"
| "is_TimeoutError (OpError _ _) = True"
| "is_TimeoutError (UrlError _ _ _) = True"
| "is_TimeoutError _ = False"

fun shouldRetry_err :: "gerror \<Rightarrow> bool" where
  "shouldRetry_err e =
     (if is_TimeoutError e then True
      else if e = UnexpectedEOF \<or> e = EOF then True
      else case e of
        DNSError _ \<Rightarrow> True
      | OpError op _ \<Rightarrow> op = ''read'' \<or> op = ''write''
      | UrlError op _ e' \<Rightarrow>
          if op \<in> {''Get'', ''Put'', ''Delete'', ''Head''} then shouldRetry_err e' else False
      | KopError code msg \<Rightarrow> False
      | _ \<Rightarrow> False)"

declare shouldRetry_err.simps [simp del]

definition shouldRetry :: "gerror option \<Rightarrow> bool" where
  "shouldRetry err = (case err of None \<Rightarrow> False | Some e \<Rightarrow> shouldRetry_err e)"

section \<open>One request\<close>

definition genRequestId :: "'w env \<Rightarrow> KopClient \<Rightarrow> 'w \<Rightarrow> string \<times> 'w" where
  "genRequestId E kop w =
     (let (r, w') = random_String E 32 [] w in (kop_requestIdPrefix kop @ ''-'' @ r, w'))"

text \<open>\<open>http.NewRequest\<close>: the checks of method and URL are a parameter.\<close>

definition new_request :: "'w env \<Rightarrow> string \<Rightarrow> string \<Rightarrow> string \<Rightarrow> Request res" where
  "new_request E method url body =
     (case new_request_error E method url of
        Some e \<Rightarrow> Err e
      | None \<Rightarrow> Ok \<lparr>rq_Method = method, rq_URL = url, rq_Header = (\<lambda>_. []), rq_Body = body\<rparr>)"

text \<open>\<open>String()\<close> of a nil \<open>*bytes.Buffer\<close> is the text \<open><nil>\<close>; its \<open>Len()\<close> panics.\<close>

definition buffer_String :: "string option \<Rightarrow> string" where
  "buffer_String b = (case b of None \<Rightarrow> ''<nil>'' | Some s \<Rightarrow> s)"

definition nil_panic :: string where
  "nil_panic = ''runtime error: invalid memory address or nil pointer dereference''"

text \<open>The request made for the method, before signing (lines 222 to 241).\<close>

definition method_request :: "'w env \<Rightarrow> KopClient \<Rightarrow> Request res" where
  "method_request E kop =
     (if kop_method kop = POST \<or> kop_method kop = UPDATE then
        (case new_request E (kop_method kop) (kop_url kop) (buffer_String (kop_body kop)) of
           Err e \<Rightarrow> Err e
         | r \<Rightarrow> (if kop_body kop = None then Panic nil_panic else r))
      else new_request E (kop_method kop) (kop_url kop) '''')"

text \<open>Signing replaces the request by one whose body is the buffer's text (lines 243 to 260).\<close>

definition signed_request :: "'w env \<Rightarrow> KopClient \<Rightarrow> Request \<Rightarrow> ('w, Request) eff" where
  "signed_request E kop requ w =
     (case kop_signer kop of
        None \<Rightarrow> (Ok requ, w)
      | Some creds \<Rightarrow>
          (case new_request E (kop_method kop) (kop_url kop) (buffer_String (kop_body kop)) of
             Ok r \<Rightarrow> sign_request E creds (kop_servername kop) (kop_region kop) r w
           | Err e \<Rightarrow> (Err e, w)
           | Panic p \<Rightarrow> (Panic p, w)))"

definition with_headers :: "KopClient \<Rightarrow> string \<Rightarrow> Request \<Rightarrow> Request" where
  "with_headers kop xRequestId requ =
     (let requ = Header_Add ''Content-Type'' ''application/json'' requ;
          requ = Header_Add ''Accept'' ''*/*'' requ;
          requ = Header_Add ''User-Agent'' ''vpc-route-controller'' requ;
          requ = Header_Add ''X-Request-ID'' xRequestId requ;
          requ = Header_Add ''X-Openstack-Request-Id'' xRequestId requ
      in foldl (\<lambda>r (k, v). Header_Set k v r) requ (kop_headers kop))"

definition send :: "'w env \<Rightarrow> KopClient \<Rightarrow> ('w, string) eff" where
  "send E kop w =
     (let (xRequestId, w1) = genRequestId E kop w in
      case method_request E kop of
        Err e \<Rightarrow> (Err e, w1)
      | Panic p \<Rightarrow> (Panic p, w1)
      | Ok requ \<Rightarrow>
          on_res (signed_request E kop requ)
            (\<lambda>requ. on_res (http_do E (with_headers kop xRequestId requ))
               (\<lambda>resp w'.
                  if rs_StatusCode resp \<noteq> 200 \<and> rs_StatusCode resp \<noteq> 201
                     \<and> rs_StatusCode resp \<noteq> 202 \<and> rs_StatusCode resp \<noteq> 204
                  then (Err (KopError (rs_StatusCode resp) (rs_Body resp)), w')
                  else (Ok (rs_Body resp), w'))
               (\<lambda>e w'. (Err e, w')))
            (\<lambda>e w'. (Err e, w')) w1)"

section \<open>Retried requests\<close>

definition RetryWithBackOff ::
  "'w env \<Rightarrow> Backoff \<Rightarrow> ('w \<times> string, unit) eff \<Rightarrow> (gerror option \<Rightarrow> bool) \<Rightarrow> ('w \<times> string, unit) eff" where
  "RetryWithBackOff E b fn retryable = on_res (retry_do E b retryable fn) (\<lambda>_ s. (Ok (), s)) (\<lambda>e s. (Err e, s))"

text \<open>The closure of \<open>Go\<close> assigns \<open>body\<close>; the pair of the world and \<open>body\<close> is its state.\<close>

definition go_attempt :: "'w env \<Rightarrow> KopClient \<Rightarrow> ('w \<times> string, unit) eff" where
  "go_attempt E kop s =
     (case send E kop (fst s) of
        (Ok body, w') \<Rightarrow> (Ok (), (w', body))
      | (Err e, w') \<Rightarrow> (Err e, (w', []))
      | (Panic p, w') \<Rightarrow> (Panic p, (w', snd s)))"

definition backoff_is_zero :: "Backoff \<Rightarrow> bool" where
  "backoff_is_zero b =
     (bo_Duration b = 0 \<and> bo_FactorMilli b = 0 \<and> bo_JitterMilli b = 0 \<and> bo_Steps b = 0 \<and> bo_Cap b = 0)"

definition effective_backoff :: "KopClient \<Rightarrow> Backoff" where
  "effective_backoff kop =
     (case kop_backoff kop of
        None \<Rightarrow> DefaultBackOff
      | Some b \<Rightarrow> if backoff_is_zero b then DefaultBackOff else b)"

definition Go :: "'w env \<Rightarrow> KopClient \<Rightarrow> ('w, string) eff" where
  "Go E kop w =
     (case RetryWithBackOff E (effective_backoff kop) (go_attempt E kop) shouldRetry (w, []) of
        (Ok _, (w', body)) \<Rightarrow> (Ok body, w')
      | (Err e, (w', body)) \<Rightarrow> (Err e, w')
      | (Panic p, (w', body)) \<Rightarrow> (Panic p, w'))"


section \<open>Facts\<close>

lemma Canonical_ContentType: "CanonicalHeaderKey ''Content-Type'' = ''Content-Type''"
  by code_simp

lemma shouldRetry_None [simp]: "\<not> shouldRetry None"
  by (simp add: shouldRetry_def)

lemma shouldRetry_KopError [simp]: "\<not> shouldRetry (Some (KopError code msg))"
  by (simp add: shouldRetry_def shouldRetry_err.simps)

lemma shouldRetry_ErrorString [simp]: "\<not> shouldRetry (Some (ErrorString s))"
  by (simp add: shouldRetry_def shouldRetry_err.simps)

lemma map_of_foldl_hset:
  "map_of (foldl (\<lambda>hs (key, val). hset key val hs) hs vs) k =
     (case map_of (rev vs) k of Some v \<Rightarrow> Some v | None \<Rightarrow> map_of hs k)"
  by (induction vs arbitrary: hs) (auto simp: map_add_def split: option.splits)

lemma map_of_rev_distinct: "distinct (map fst xs) \<Longrightarrow> map_of (rev xs) = map_of xs"
  by (subst map_of_inject_set) (simp_all flip: rev_map)

lemma map_of_SetHeader:
  "distinct (map fst value) \<Longrightarrow>
   map_of (kop_headers (SetHeader value kop)) k =
     (case map_of value k of Some v \<Rightarrow> Some v | None \<Rightarrow> map_of (kop_headers kop) k)"
  by (simp add: SetHeader_def map_of_foldl_hset map_of_rev_distinct)

lemma random_loop_length: "random_loop E n cs w = (b, w') \<Longrightarrow> length b = n"
  by (induction n arbitrary: w b w') (auto split: prod.splits)

lemma random_loop_chars: "cs \<noteq> [] \<Longrightarrow> random_loop E n cs w = (b, w') \<Longrightarrow> set b \<subseteq> set cs"
proof (induction n arbitrary: w b w')
  case (Suc n)
  then show ?case by (fastforce split: prod.splits)
qed simp

text \<open>What \<open>send\<close> and \<open>Go\<close> do, stated once for the clients of this theory.\<close>

lemma Go_first_attempt_Ok:
  assumes "retry_documented E" "send E kop w = (Ok body, w')"
  shows "Go E kop w = (Ok body, w')"
proof -
  have a: "go_attempt E kop (w, []) = (Ok (), (w', body))"
    using assms(2) by (simp add: go_attempt_def)
  obtain slp where "\<forall>p fn w v. retry_do E (effective_backoff kop) p fn (w, v)
      = retry_attempts 10 (map_prod slp id) p fn (w, v)"
    using assms(1) unfolding retry_documented_def by blast
  then have "retry_do E (effective_backoff kop) shouldRetry (go_attempt E kop) (w, [])
      = (Ok (), (w', body))"
    using a by (simp add: eval_nat_numeral on_res_def)
  then show ?thesis by (simp add: Go_def RetryWithBackOff_def on_res_def)
qed

lemma Go_first_attempt_Err:
  assumes "retry_documented E" "send E kop w = (Err e, w')" "\<not> shouldRetry (Some e)"
  shows "Go E kop w = (Err e, w')"
proof -
  have a: "go_attempt E kop (w, []) = (Err e, (w', []))"
    using assms(2) by (simp add: go_attempt_def)
  obtain slp where "\<forall>p fn w v. retry_do E (effective_backoff kop) p fn (w, v)
      = retry_attempts 10 (map_prod slp id) p fn (w, v)"
    using assms(1) unfolding retry_documented_def by blast
  then have "retry_do E (effective_backoff kop) shouldRetry (go_attempt E kop) (w, [])
      = (Err e, (w', []))"
    using a assms(3) by (simp add: eval_nat_numeral on_res_def)
  then show ?thesis by (simp add: Go_def RetryWithBackOff_def on_res_def)
qed

end
