(* ===== verification/Retry_Loop.thy ===== *)
theory Retry_Loop
  imports World
begin

text \<open>
  The interface of a loop that tries a step a bounded number of times: the poll for a created route, the
  retried patch of a node's status, the backoff of \<open>wait\<close> and the attempts of \<open>retry.Do\<close>. A step says
  whether to stop and with which result; a result of a step that does not stop is returned only when the
  budget is used up. The lemmas say how such a loop can end, once for all four.
\<close>

text \<open>\<open>attempts step pause k s t\<close>: \<open>k\<close> steps from \<open>s\<close> did not stop, and the next one starts in \<open>t\<close>.\<close>

inductive attempts ::
  "('s \<Rightarrow> (bool \<times> 'r) \<times> 's) \<Rightarrow> ('s \<Rightarrow> 's) \<Rightarrow> nat \<Rightarrow> 's \<Rightarrow> 's \<Rightarrow> bool"
  for step :: "'s \<Rightarrow> (bool \<times> 'r) \<times> 's" and pause :: "'s \<Rightarrow> 's" where
  none: "attempts step pause 0 s s"
| more: "step s = ((False, r), s') \<Longrightarrow> attempts step pause k (pause s') t \<Longrightarrow> attempts step pause (Suc k) s t"

inductive_cases attempts_SucE: "attempts step pause (Suc k) s t"
inductive_cases attempts_0E: "attempts step pause 0 s t"

lemma attempts_deterministic:
  "attempts step pause k s t \<Longrightarrow> attempts step pause k s u \<Longrightarrow> t = u"
proof (induction k s t rule: attempts.induct)
  case (none s)
  then show ?case by (auto elim: attempts_0E)
next
  case (more s r s' k t)
  then show ?case by (auto elim!: attempts_SucE)
qed

locale retry_loop =
  fixes loop :: "nat \<Rightarrow> 's \<Rightarrow> 'r \<times> 's"
    and step :: "'s \<Rightarrow> (bool \<times> 'r) \<times> 's"
    and pause :: "'s \<Rightarrow> 's"
  assumes loop_stop: "step s = ((True, r), s') \<Longrightarrow> loop (Suc n) s = (r, s')"
    and loop_last: "step s = ((False, r), s') \<Longrightarrow> loop (Suc 0) s = (r, s')"
    and loop_again: "step s = ((False, r), s') \<Longrightarrow> loop (Suc (Suc n)) s = loop (Suc n) (pause s')"
begin

lemma loop_outcome:
  obtains (stopped) k t r s' where "k \<le> n" "attempts step pause k s t" "step t = ((True, r), s')"
      "loop (Suc n) s = (r, s')"
  | (used_up) t r s' where "attempts step pause n s t" "step t = ((False, r), s')"
      "loop (Suc n) s = (r, s')"
proof -
  have "(\<exists>k t r s'. k \<le> n \<and> attempts step pause k s t \<and> step t = ((True, r), s') \<and> loop (Suc n) s = (r, s'))
      \<or> (\<exists>t r s'. attempts step pause n s t \<and> step t = ((False, r), s') \<and> loop (Suc n) s = (r, s'))"
  proof (induction n arbitrary: s)
    case 0
    obtain b r s' where st: "step s = ((b, r), s')" by (metis surj_pair)
    have none: "attempts step pause 0 s s" by (rule attempts.none)
    show ?case
    proof (cases b)
      case True
      then have "step s = ((True, r), s')" "loop (Suc 0) s = (r, s')"
        using st loop_stop by auto
      with none show ?thesis by blast
    next
      case False
      then have "step s = ((False, r), s')" "loop (Suc 0) s = (r, s')"
        using st loop_last by auto
      with none show ?thesis by blast
    qed
  next
    case (Suc n)
    obtain b r s' where st: "step s = ((b, r), s')" by (metis surj_pair)
    show ?case
    proof (cases b)
      case True
      then have "attempts step pause 0 s s \<and> step s = ((True, r), s') \<and> loop (Suc (Suc n)) s = (r, s')"
        using st loop_stop by (auto intro: attempts.none)
      then show ?thesis by blast
    next
      case False
      then have next_step: "step s = ((False, r), s')" using st by simp
      have more: "attempts step pause (Suc k) s t" if "attempts step pause k (pause s') t" for k t
        using next_step that by (rule attempts.more)
      from Suc.IH [of "pause s'"] show ?thesis
        unfolding loop_again [OF next_step] using more Suc_le_mono by meson
    qed
  qed
  then show thesis using stopped used_up by blast
qed

text \<open>The loop ends with the first step that stops, when it comes within the budget.\<close>

lemma loop_stops_at:
  "attempts step pause k s t \<Longrightarrow> step t = ((True, r), s') \<Longrightarrow> k \<le> n \<Longrightarrow> loop (Suc n) s = (r, s')"
proof (induction k s t arbitrary: n rule: attempts.induct)
  case (none s)
  then show ?case by (simp add: loop_stop)
next
  case (more s q u k t)
  then obtain m where "n = Suc m" "k \<le> m" by (cases n) auto
  with more show ?case by (simp add: loop_again)
qed

lemma loop_used_up:
  "attempts step pause n s t \<Longrightarrow> step t = ((False, r), s') \<Longrightarrow> loop (Suc n) s = (r, s')"
proof (induction n s t rule: attempts.induct)
  case (none s)
  then show ?case by (simp add: loop_last)
next
  case (more s q u k t)
  then show ?case by (simp add: loop_again)
qed

end

section \<open>The documented loops of the libraries\<close>

definition check_step :: "('s, bool) eff \<Rightarrow> 's \<Rightarrow> (bool \<times> unit res) \<times> 's" where
  "check_step cond s =
     (case cond s of
        (Ok b, s') \<Rightarrow> ((b, if b then Ok () else Err ErrWaitTimeout), s')
      | (Err e, s') \<Rightarrow> ((True, Err e), s')
      | (Panic p, s') \<Rightarrow> ((True, Panic p), s'))"

interpretation backoff: retry_loop "\<lambda>n. backoff_checks n slp cond" "check_step cond" slp
  for slp and cond
  by unfold_locales (auto simp: check_step_def on_res_def split: prod.splits res.splits if_splits)

definition attempt_step ::
  "(gerror option \<Rightarrow> bool) \<Rightarrow> ('s, unit) eff \<Rightarrow> 's \<Rightarrow> (bool \<times> unit res) \<times> 's" where
  "attempt_step retryIf fn s =
     (case fn s of
        (Err e, s') \<Rightarrow> ((\<not> retryIf (Some e), Err e), s')
      | (r, s') \<Rightarrow> ((True, r), s'))"

interpretation retry: retry_loop "\<lambda>n. retry_attempts n slp retryIf fn" "attempt_step retryIf fn" slp
  for slp and retryIf and fn
  by unfold_locales (auto simp: attempt_step_def on_res_def split: prod.splits res.splits if_splits)

end
