(* ===== verification/Neutron_Client.thy ===== *)
theory Neutron_Client
  imports Kop_Http Retry_Loop
begin

text \<open>
  The API clients under \<open>pkg/ksyun/openstack_client\<close>: the neutron \<open>RouteClient\<close> (\<open>neutron/route.go\<close>), the alarm
  client (\<open>alarm/alarm.go\<close>) and the configuration they share. An operation is an effect on the world
  together with the client, since it updates the client's headers and its HTTP client. Every
  \<open>RouteClient\<close> operation repeats the same signed call with one credential reload; that block is
  \<open>call_api\<close>, with the text of the operation in its error messages as an argument.
\<close>

section \<open>Configuration and clients\<close>

record Config =
  cf_NetworkEndpoint :: string
  cf_ClusterUUID :: string
  cf_VpcID :: string
  cf_Region :: string
  cf_InstanceIdFrom :: string
  cf_AlarmEnabled :: bool

definition DefaultNetworkEndpoint :: string where
  "DefaultNetworkEndpoint = ''http://internal.api.ksyun.com''"

definition with_endpoint :: "Config \<Rightarrow> Config" where
  "with_endpoint conf =
     (if length (cf_NetworkEndpoint conf) = 0 then conf\<lparr>cf_NetworkEndpoint := DefaultNetworkEndpoint\<rparr>
      else conf)"

record ApiClient =
  ac_conf :: Config
  ac_client :: KopClient
  ac_headers :: "(string \<times> string) list"

record RouteClient = ApiClient +
  rc_productTag :: string

definition defaultVersion :: string where "defaultVersion = ''2016-03-04''"
definition defaultServerName :: string where "defaultServerName = ''vpc''"
definition DefaultTimeout :: int where "DefaultTimeout = 60"
definition DefaultWaitForInterval :: int where "DefaultWaitForInterval = 5"

definition token_header :: string where "token_header = ''X-Ksc-Security-Token''"

definition fmt_route_args :: "RouteArgs \<Rightarrow> string" where
  "fmt_route_args a = ''&{'' @ ra_DomainId a @ '' '' @ ra_InstanceId a @ '' '' @ ra_InstanceType a
     @ '' '' @ ra_CidrBlock a @ ''}''"

section \<open>The signed call\<close>

definition lift_w :: "('w, 'a) eff \<Rightarrow> ('w \<times> 'c, 'a) eff" where
  "lift_w m s = (case m (fst s) of (r, w') \<Rightarrow> (r, (w', snd s)))"

definition set_token :: "AKSK \<Rightarrow> ('c) ApiClient_scheme \<Rightarrow> 'c ApiClient_scheme" where
  "set_token aksk c =
     (if length (ak_SecurityToken aksk) \<noteq> 0
      then c\<lparr>ac_headers := hset token_header (ak_SecurityToken aksk) (ac_headers c)\<rparr> else c)"

definition resign :: "string \<Rightarrow> AKSK \<Rightarrow> 'c ApiClient_scheme \<Rightarrow> 'c ApiClient_scheme" where
  "resign server aksk c =
     c\<lparr>ac_client := SetSigner server (cf_Region (ac_conf c)) (ak_AK aksk) (ak_SK aksk) (ac_client c)\<rparr>"

definition prepare ::
  "'w env \<Rightarrow> string \<Rightarrow> url_values \<Rightarrow> string \<Rightarrow> (KopClient \<Rightarrow> KopClient) \<Rightarrow> AKSK
   \<Rightarrow> 'c ApiClient_scheme \<Rightarrow> 'c ApiClient_scheme" where
  "prepare E server action method body aksk c =
     (let c = set_token aksk c;
          k = SetEndpoint E (cf_NetworkEndpoint (ac_conf c)) (ac_client c);
          k = SetHeader (ac_headers c) k;
          k = body k;
          k = SetUrlQuery '''' action k;
          k = SetMethod method k
      in resign server aksk (c\<lparr>ac_client := k\<rparr>))"

definition client_go :: "'w env \<Rightarrow> ('w \<times> 'c ApiClient_scheme, string) eff" where
  "client_go E s = lift_w (Go E (ac_client (snd s))) s"

definition SecurityTokenExpired :: string where
  "SecurityTokenExpired = ''SecurityTokenExpired''"

definition call_api ::
  "'w env \<Rightarrow> string \<Rightarrow> string \<Rightarrow> url_values \<Rightarrow> string \<Rightarrow> (KopClient \<Rightarrow> KopClient) \<Rightarrow> AKSK
   \<Rightarrow> ('w \<times> 'c ApiClient_scheme, string) eff" where
  "call_api E server what action method body aksk s =
     on_res (client_go E)
       (\<lambda>data s. (Ok data, s))
       (\<lambda>err s.
          if str_contains (error_text err) SecurityTokenExpired then
            on_res (lift_w (aksk_reload E))
              (\<lambda>aksk2 s.
                 on_res (client_go E)
                   (\<lambda>data s. (Ok data, s))
                   (\<lambda>err s. (Err (ErrorString (''retry kop '' @ what @ '' after reloading aksk err: ''
                                  @ error_text err)), s))
                   (fst s, resign server aksk2 (set_token aksk2 (snd s))))
              (\<lambda>err s. (Err (ErrorString (''kop '' @ what @ '' and reload aksk err: '' @ error_text err)), s))
              s
          else (Err (ErrorString (''kop '' @ what @ '' err: '' @ error_text err)), s))
       (fst s, prepare E server action method body aksk (snd s))"

text \<open>The lines before the call: \<open>GetAKSK\<close>, whose error is returned as it is.\<close>

definition with_aksk :: "'w env \<Rightarrow> (AKSK \<Rightarrow> ('w \<times> 'c, 'a) eff) \<Rightarrow> ('w \<times> 'c, 'a) eff" where
  "with_aksk E k = on_res (lift_w (aksk_get E)) k (\<lambda>err s. (Err err, s))"

definition decode :: "'a res \<Rightarrow> ('s, 'a) eff" where
  "decode r s = (r, s)"

definition decode_wrapped :: "string \<Rightarrow> 'a res \<Rightarrow> ('s, 'a) eff" where
  "decode_wrapped data r s =
     (case r of Err e \<Rightarrow> (Err (ErrorString (''json unmarshal '' @ data @ '' err: '' @ error_text e)), s)
      | r \<Rightarrow> (r, s))"

section \<open>The operations of RouteClient\<close>

definition DescribeVpcs :: "'w env \<Rightarrow> ('w \<times> RouteClient, Vpc) eff" where
  "DescribeVpcs E = with_aksk E (\<lambda>aksk s.
     let vpc = cf_VpcID (ac_conf (snd s));
         action = [(''Action'', [''DescribeVpcs'']), (''Version'', [defaultVersion]), (''VpcId.1'', [vpc])]
     in on_res (call_api E defaultServerName (''describe vpc '' @ vpc) action GET id aksk)
          (\<lambda>data. on_res (decode (unmarshal_vpcs E data))
             (\<lambda>vpcs s. case vpcs of
                 [] \<Rightarrow> (Err (ErrorString (''can not found vpc '' @ vpc)), s)
               | v # _ \<Rightarrow> (Ok v, s))
             (\<lambda>err s. (Err err, s)))
          (\<lambda>err s. (Err err, s)) s)"

definition NewRouteClient :: "'w env \<Rightarrow> Config \<Rightarrow> ('w, RouteClient) eff" where
  "NewRouteClient E conf w =
     (let headers = [(''User-Agent'', ''vpc-route-controller''), (''Content-Type'', ''application/json''),
                     (''Accept'', ''application/json''), (''X-ProductTag-Source'', ''all'')];
          routeClient = \<lparr>ac_conf = with_endpoint conf, ac_client = NewKopClient,
                         ac_headers = headers, rc_productTag = ''''\<rparr>
      in case DescribeVpcs E (w, routeClient) of
           (Ok result, (w', c)) \<Rightarrow> (Ok (c\<lparr>rc_productTag := vpc_ProductTag result\<rparr>), w')
         | (Err e, (w', c)) \<Rightarrow> (Err e, w')
         | (Panic p, (w', c)) \<Rightarrow> (Panic p, w'))"

text \<open>For a VPC tagged \<open>trust\<close> the action is renamed and the source header set.\<close>

definition trust_action :: "string \<Rightarrow> string \<Rightarrow> RouteClient \<Rightarrow> string \<times> RouteClient" where
  "trust_action plain trusted c =
     (if rc_productTag c = ''trust''
      then (trusted, c\<lparr>ac_headers := hset ''X-ProductTag-Source'' ''trust'' (ac_headers c)\<rparr>)
      else (plain, c))"

definition rc_CreateRoute :: "'w env \<Rightarrow> RouteArgs \<Rightarrow> ('w \<times> RouteClient, string) eff" where
  "rc_CreateRoute E args = with_aksk E (\<lambda>aksk s.
     let (actionName, c) = trust_action ''CreateRoute'' ''CreateTrustRoute'' (snd s);
         action = [(''Action'', [actionName]), (''Version'', [defaultVersion]),
                   (''VpcId'', [ra_DomainId args]), (''RouteType'', [ra_InstanceType args]),
                   (''InstanceId'', [ra_InstanceId args]), (''DestinationCidrBlock'', [ra_CidrBlock args])]
     in on_res (call_api E defaultServerName (''create route '' @ fmt_route_args args) action POST
                  (SetBody (marshal_route_args E args)) aksk)
          (\<lambda>data. on_res (decode (unmarshal_route_id E data))
             (\<lambda>routeId s. (Ok routeId, s))
             (\<lambda>err s. (Err err, s)))
          (\<lambda>err s. (Err err, s)) (fst s, c))"

definition rc_DeleteRoute :: "'w env \<Rightarrow> string \<Rightarrow> ('w \<times> RouteClient, unit) eff" where
  "rc_DeleteRoute E rid = with_aksk E (\<lambda>aksk s.
     let (actionName, c) = trust_action ''DeleteRoute'' ''DeleteTrustRoute'' (snd s);
         action = [(''Action'', [actionName]), (''Version'', [defaultVersion]), (''RouteId'', [rid])]
     in on_res (call_api E defaultServerName (''delete route '' @ rid) action DELETE id aksk)
          (\<lambda>data s. (Ok (), s))
          (\<lambda>err s. (Err err, s)) (fst s, c))"

definition rc_ListRoutes :: "'w env \<Rightarrow> RouteArgs \<Rightarrow> ('w \<times> RouteClient, RouteSetType list) eff" where
  "rc_ListRoutes E args = with_aksk E (
     let action = [(''Action'', [''DescribeRoutes'']), (''Version'', [defaultVersion]),
                   (''Filter.1.Name'', [''vpc-id'']), (''Filter.1.Value.1'', [ra_DomainId args]),
                   (''Filter.2.Name'', [''route-type'']), (''Filter.2.Value.1'', [ra_InstanceType args])]
     in (\<lambda>aksk. on_res (call_api E defaultServerName (''list routes '' @ fmt_route_args args) action GET id aksk)
          (\<lambda>data. decode_wrapped data (unmarshal_routes E data))
          (\<lambda>err s. (Err err, s))))"

definition rc_GetRoutes :: "'w env \<Rightarrow> RouteArgs \<Rightarrow> ('w \<times> RouteClient, RouteSetType list) eff" where
  "rc_GetRoutes E args = with_aksk E (
     let action = [(''Action'', [''DescribeRoutes'']), (''Version'', [defaultVersion]),
                   (''Filter.1.Name'', [''vpc-id'']), (''Filter.1.Value.1'', [ra_DomainId args]),
                   (''Filter.2.Name'', [''route-type'']), (''Filter.2.Value.1'', [ra_InstanceType args]),
                   (''Filter.3.Name'', [''destination-cidr-block'']), (''Filter.3.Value.1'', [ra_CidrBlock args])]
     in (\<lambda>aksk. on_res (call_api E defaultServerName (''get routes '' @ fmt_route_args args) action GET id aksk)
          (\<lambda>data. decode_wrapped data (unmarshal_routes E data))
          (\<lambda>err s. (Err err, s))))"

definition index_out_of_range :: string where
  "index_out_of_range = ''runtime error: index out of range [0] with length 0''"

text \<open>\<open>&response.RouteSet[0]\<close> of an empty answer panics.\<close>

definition rc_GetRoute :: "'w env \<Rightarrow> string \<Rightarrow> ('w \<times> RouteClient, RouteSetType) eff" where
  "rc_GetRoute E rid = with_aksk E (
     let action = [(''Action'', [''DescribeRoutes'']), (''Version'', [defaultVersion]), (''RouteId.1'', [rid])]
     in (\<lambda>aksk. on_res (call_api E defaultServerName (''get route '' @ rid) action GET id aksk)
          (\<lambda>data. on_res (decode_wrapped data (unmarshal_routes E data))
             (\<lambda>routes s. case routes of [] \<Rightarrow> (Panic index_out_of_range, s) | r # _ \<Rightarrow> (Ok r, s))
             (\<lambda>err s. (Err err, s)))
          (\<lambda>err s. (Err err, s))))"

section \<open>Waiting for a route\<close>

definition GetClientErrorFromString :: "string \<Rightarrow> string \<Rightarrow> gerror" where
  "GetClientErrorFromString str req = ApiError req (- 1) ''vpcRouteControllerFailure'' str ''''"

definition pause_interval :: "'w env \<Rightarrow> 'w \<times> 'c \<Rightarrow> 'w \<times> 'c" where
  "pause_interval E s = (sleep_seconds E (nat DefaultWaitForInterval) (fst s), snd s)"

function wait_loop :: "'w env \<Rightarrow> string \<Rightarrow> int \<Rightarrow> ('w \<times> RouteClient, unit) eff" where
  "wait_loop E vrouterId timeout s =
     (case rc_GetRoute E vrouterId s of
        (Panic p, s') \<Rightarrow> (Panic p, s')
      | (r, s') \<Rightarrow>
          (let success = (case r of Ok route \<Rightarrow> length (rst_RouteId route) \<noteq> 0 | _ \<Rightarrow> False) in
           if success then (Ok (), s')
           else if timeout - DefaultWaitForInterval \<le> 0
           then (Err (GetClientErrorFromString ''Timeout'' ''''), s')
           else wait_loop E vrouterId (timeout - DefaultWaitForInterval) (pause_interval E s')))"
  by pat_completeness auto
termination
  by (relation "measure (\<lambda>(E, rid, timeout, s). nat timeout)") (auto simp: DefaultWaitForInterval_def)

declare wait_loop.simps [simp del]

definition WaitForAllRouteEntriesAvailable :: "'w env \<Rightarrow> string \<Rightarrow> int \<Rightarrow> ('w \<times> RouteClient, unit) eff" where
  "WaitForAllRouteEntriesAvailable E vrouterId timeout =
     (let timeout = (if timeout \<le> 0 then DefaultTimeout else timeout)
      in wait_loop E vrouterId timeout)"

section \<open>Alarms\<close>

definition DefaultProduct :: string where "DefaultProduct = ''CONTAINER_NETWORK''"

definition fmt_alarm_args :: "AlarmArgs \<Rightarrow> string" where
  "fmt_alarm_args m = ''{'' @ aa_Name m @ '' '' @ aa_Product m @ '' '' @ aa_Priority m @ '' ''
     @ aa_Content m @ '' '' @ aa_NoDeal m @ ''}''"

definition NewAlarmClient :: "Config \<Rightarrow> ApiClient" where
  "NewAlarmClient conf = \<lparr>ac_conf = with_endpoint conf, ac_client = NewKopClient,
     ac_headers = [(''User-Agent'', ''vpc-route-controller''), (''Content-Type'', ''application/json''),
                   (''Accept'', ''application/json'')]\<rparr>"

text \<open>The keys of the alarm service are linked in at build time: an argument.\<close>

definition CreateAlarm :: "'w env \<Rightarrow> string \<times> string \<Rightarrow> AlarmArgs \<Rightarrow> ('w \<times> ApiClient, unit) eff" where
  "CreateAlarm E keys message s =
     (let c = snd s;
          action = [(''Action'', [''AlarmReceptor'']), (''Version'', [''2019-01-30''])];
          k = SetEndpoint E (cf_NetworkEndpoint (ac_conf c)) (ac_client c);
          k = SetHeader (ac_headers c) k;
          k = SetBody (marshal_alarm_args E message) k;
          k = SetUrlQuery '''' action k;
          k = SetMethod POST k;
          k = SetSigner ''alarm'' (cf_Region (ac_conf c)) (fst keys) (snd keys) k
      in on_res (client_go E)
           (\<lambda>_ s. (Ok (), s))
           (\<lambda>err s.
              if str_contains (error_text err) SecurityTokenExpired then
                on_res (client_go E)
                  (\<lambda>_ s. (Ok (), s))
                  (\<lambda>err s. (Err (ErrorString (''retry kop create alarm '' @ fmt_alarm_args message
                      @ '' after reloading aksk err: '' @ error_text err)), s))
                  (fst s, (snd s)\<lparr>ac_client := SetSigner ''alarm'' (cf_Region (ac_conf (snd s)))
                      (fst keys) (snd keys) (ac_client (snd s))\<rparr>)
              else (Err (ErrorString (''kop create alarm '' @ fmt_alarm_args message @ '' err: ''
                  @ error_text err)), s))
           (fst s, c\<lparr>ac_client := k\<rparr>))"

end
