(* ===== verification/Ksyun_Api.thy ===== *)
theory Ksyun_Api
  imports Neutron_Client
begin

text \<open>
  The cloud operations of \<open>pkg/ksyun/ksyun.go\<close>: list, find, create and delete a route of the VPC. Each opens
  a new \<open>RouteClient\<close>, and on failure raises an alarm when alarms are enabled. The package variables
  \<open>Cfg\<close> and the alarm keys are the record \<open>Globals\<close>.
\<close>

record Globals =
  g_Cfg :: Config
  g_AlarmKeys :: "string \<times> string"

definition defaultRouteType :: string where "defaultRouteType = ''Host''"

definition getErrorString :: "gerror option \<Rightarrow> string" where
  "getErrorString e = (case e of None \<Rightarrow> '''' | Some e \<Rightarrow> error_text e)"

text \<open>An operation on a client of its own: the client is dropped when it is done.\<close>

definition on_client :: "('w \<times> 'c, 'a) eff \<Rightarrow> 'c \<Rightarrow> ('w, 'a) eff" where
  "on_client m c w = (case m (w, c) of (r, s') \<Rightarrow> (r, fst s'))"

text \<open>The alarm block of every operation; the result of \<open>CreateAlarm\<close> is ignored.\<close>

definition alarm_message :: "Globals \<Rightarrow> string \<Rightarrow> gerror \<Rightarrow> AlarmArgs" where
  "alarm_message G nm err = \<lparr>aa_Name = nm, aa_Product = DefaultProduct, aa_Priority = ''2'',
     aa_Content = ''region: '' @ cf_Region (g_Cfg G) @ '', cluster: '' @ cf_ClusterUUID (g_Cfg G)
       @ '', plugin: vpc-route-controller,  error: '' @ error_text err,
     aa_NoDeal = ''1''\<rparr>"

definition raise_alarm :: "'w env \<Rightarrow> Globals \<Rightarrow> string \<Rightarrow> gerror \<Rightarrow> ('w, unit) eff" where
  "raise_alarm E G nm err w =
     (if cf_AlarmEnabled (g_Cfg G) then
        on_res (on_client (CreateAlarm E (g_AlarmKeys G) (alarm_message G nm err)) (NewAlarmClient (g_Cfg G)))
          (\<lambda>_ w. (Ok (), w)) (\<lambda>_ w. (Ok (), w)) w
      else (Ok (), w))"

text \<open>\<open>if err != nil { alarm; return e' }\<close>\<close>

definition fail_with_alarm :: "'w env \<Rightarrow> Globals \<Rightarrow> string \<Rightarrow> gerror \<Rightarrow> gerror \<Rightarrow> ('w, 'a) eff" where
  "fail_with_alarm E G nm err e' =
     on_res (raise_alarm E G nm err) (\<lambda>_ w. (Err e', w)) (\<lambda>_ w. (Err e', w))"

definition route_args :: "Globals \<Rightarrow> string \<Rightarrow> string \<Rightarrow> RouteArgs" where
  "route_args G instanceId cidr = \<lparr>ra_DomainId = cf_VpcID (g_Cfg G), ra_InstanceId = instanceId,
     ra_InstanceType = defaultRouteType, ra_CidrBlock = cidr\<rparr>"

text \<open>The conversion to \<open>model.Route\<close> in \<open>ListRoutes\<close> and \<open>FindRoute\<close>.\<close>

definition to_route :: "RouteSetType \<Rightarrow> Route" where
  "to_route r =
     (let gatewayId = (case rst_NextHopset r of [] \<Rightarrow> '''' | g # _ \<Rightarrow> g)
      in \<lparr>rt_Name = rst_RouteId r @ ''-'' @ rst_DestinationCIDR r,
          rt_DestinationCIDR = rst_DestinationCIDR r,
          rt_InstanceId = gatewayId,
          rt_RouteId = rst_RouteId r\<rparr>)"

fun collect_routes :: "RouteSetType list \<Rightarrow> Route list" where
  "collect_routes [] = []"
| "collect_routes (r # rs) =
     (if rst_DestinationCIDR r = ''0.0.0.0/0'' then collect_routes rs
      else to_route r # collect_routes rs)"

definition ListRoutes :: "'w env \<Rightarrow> Globals \<Rightarrow> ('w, Route list) eff" where
  "ListRoutes E G =
     on_res (NewRouteClient E (g_Cfg G))
       (\<lambda>r. on_res (on_client (rc_ListRoutes E (route_args G '''' '''')) r)
          (\<lambda>routes w. (Ok (collect_routes routes), w))
          (\<lambda>err. fail_with_alarm E G ''ListRoutes'' err err))
       (\<lambda>err w. (Err err, w))"

definition FindRoute :: "'w env \<Rightarrow> Globals \<Rightarrow> string \<Rightarrow> ('w, Route option) eff" where
  "FindRoute E G cidr =
     on_res (NewRouteClient E (g_Cfg G))
       (\<lambda>r. on_res (on_client (rc_GetRoutes E (route_args G '''' cidr)) r)
          (\<lambda>routes w. case routes of [] \<Rightarrow> (Ok None, w) | r # _ \<Rightarrow> (Ok (Some (to_route r)), w))
          (\<lambda>err. fail_with_alarm E G ''FindRoute'' err err))
       (\<lambda>err w. (Err err, w))"

definition newline :: string where "newline = [CHR 0x0A]"

definition DeleteRoute :: "'w env \<Rightarrow> Globals \<Rightarrow> string \<Rightarrow> ('w, unit) eff" where
  "DeleteRoute E G cidr =
     on_res (NewRouteClient E (g_Cfg G))
       (\<lambda>r. on_res (FindRoute E G cidr)
          (\<lambda>route. case route of
               None \<Rightarrow> (\<lambda>w. (Ok (), w))
             | Some rt \<Rightarrow>
                 on_res (on_client (rc_DeleteRoute E (rt_RouteId rt)) r)
                   (\<lambda>_ w. (Ok (), w))
                   (\<lambda>err. fail_with_alarm E G ''DeleteRoute'' err
                      (ErrorString (''Error deleteRoute: '' @ error_text err @ '' . '' @ newline))))
          (\<lambda>err w. (Err err, w)))
       (\<lambda>err w. (Err err, w))"

text \<open>\<open>CreateRoute\<close> uses one client for the creation and for the wait that follows it.\<close>

definition CreateRoute :: "'w env \<Rightarrow> Globals \<Rightarrow> string \<Rightarrow> string \<Rightarrow> ('w, unit) eff" where
  "CreateRoute E G instanceId cidr =
     on_res (NewRouteClient E (g_Cfg G))
       (\<lambda>r. on_client
          (on_res (rc_CreateRoute E (route_args G instanceId cidr))
             (\<lambda>rid. on_res (WaitForAllRouteEntriesAvailable E rid 60)
                (\<lambda>_ s. (Ok (), s))
                (\<lambda>err s. (Err (ErrorString (''Error not found Route: '' @ error_text err @ '' . '' @ newline)), s)))
             (\<lambda>err. lift_w (fail_with_alarm E G ''CreateRoute'' err
                (ErrorString (''Error createRoute: '' @ error_text err @ '' . '' @ newline))))) r)
       (\<lambda>err w. (Err err, w))"

section \<open>Facts\<close>

lemma collect_routes_eq:
  "collect_routes rs = map to_route (filter (\<lambda>r. rst_DestinationCIDR r \<noteq> ''0.0.0.0/0'') rs)"
  by (induction rs) auto

end
