(* ===== verification/Query_Codec.thy ===== *)
theory Query_Codec
  imports Kop_Http
begin

text \<open>
  The other end of a query string: what a server reads from the URL the client of \<open>pkg/http/kophttp.go\<close>
  builds (Go's \<open>url.QueryUnescape\<close> and \<open>url.ParseQuery\<close>). The round trip shows that no parameter of a call
  can be lost or changed by its characters, such as the slash of a CIDR.
\<close>

section \<open>Decoding\<close>

definition hex_val :: "char \<Rightarrow> nat" where
  "hex_val c = (let k = (of_char c :: nat) in if k < 58 then k - 48 else k - 55)"

fun QueryUnescape :: "string \<Rightarrow> string" where
  "QueryUnescape [] = []"
| "QueryUnescape (c # cs) =
     (if c = CHR ''%'' then
        (case cs of
           a # b # rest \<Rightarrow> char_of (hex_val a * 16 + hex_val b) # QueryUnescape rest
         | _ \<Rightarrow> [])
      else if c = CHR ''+'' then CHR '' '' # QueryUnescape cs
      else c # QueryUnescape cs)"

fun split_on :: "char \<Rightarrow> string \<Rightarrow> string list" where
  "split_on d [] = [[]]"
| "split_on d (c # cs) =
     (if c = d then [] # split_on d cs
      else (case split_on d cs of l # ls \<Rightarrow> (c # l) # ls | [] \<Rightarrow> [[c]]))"

definition parse_pair :: "string \<Rightarrow> string \<times> string" where
  "parse_pair p = (QueryUnescape (takeWhile (\<lambda>c. c \<noteq> CHR ''='') p),
                   QueryUnescape (tl (dropWhile (\<lambda>c. c \<noteq> CHR ''='') p)))"

definition ParseQuery :: "string \<Rightarrow> (string \<times> string) list" where
  "ParseQuery s = map parse_pair (filter (\<lambda>p. p \<noteq> []) (split_on (CHR ''&'') s))"

section \<open>Facts\<close>

lemma hex_val_upper: "d < 16 \<Longrightarrow> hex_val (hex_upper d) = d"
  by (simp add: hex_val_def hex_upper_def Let_def)

lemma unescape_char: "QueryUnescape (escape_char c @ rest) = c # QueryUnescape rest"
proof -
  have k: "(of_char c :: nat) div 16 < 16" using nat_of_char_less_256 [of c] by (simp add: less_mult_imp_div_less)
  have "char_of ((of_char c :: nat) div 16 * 16 + of_char c mod 16) = c"
    by (simp add: div_mult_mod_eq)
  moreover have "unreserved c \<Longrightarrow> c \<noteq> CHR ''%'' \<and> c \<noteq> CHR ''+''"
    by (auto simp: unreserved_def Let_def)
  ultimately show ?thesis
    using k by (auto simp: escape_char_def Let_def hex_val_upper)
qed

lemma QueryUnescape_QueryEscape: "QueryUnescape (QueryEscape s) = s"
  by (induction s) (simp_all add: QueryEscape_def unescape_char)

lemma hex_upper_neq: "hex_upper d \<noteq> CHR ''&'' \<and> hex_upper d \<noteq> CHR ''=''" if "d < 16"
proof -
  have "of_char (hex_upper d) \<noteq> (38 :: nat) \<and> of_char (hex_upper d) \<noteq> (61 :: nat)"
    using that by (simp add: hex_upper_def)
  then show ?thesis by auto
qed

lemma escape_char_safe: "CHR ''&'' \<notin> set (escape_char c) \<and> CHR ''='' \<notin> set (escape_char c)"
proof -
  have "(of_char c :: nat) div 16 < 16" using nat_of_char_less_256 [of c] by (simp add: less_mult_imp_div_less)
  then show ?thesis
    using hex_upper_neq [of "of_char c div 16"] hex_upper_neq [of "of_char c mod 16"]
    by (auto simp: escape_char_def Let_def unreserved_def)
qed

lemma QueryEscape_safe: "CHR ''&'' \<notin> set (QueryEscape s)" "CHR ''='' \<notin> set (QueryEscape s)"
  using escape_char_safe by (auto simp: QueryEscape_def)

lemma parse_pair_escaped: "parse_pair (QueryEscape k @ ''='' @ QueryEscape v) = (k, v)"
  by (simp add: parse_pair_def takeWhile_append dropWhile_append QueryEscape_safe QueryUnescape_QueryEscape
      takeWhile_eq_all_conv dropWhile_eq_Nil_conv)

lemma split_on_append: "d \<notin> set a \<Longrightarrow> split_on d (a @ d # b) = a # split_on d b"
  by (induction a) auto

lemma split_on_none: "d \<notin> set a \<Longrightarrow> split_on d a = [a]"
  by (induction a) auto

lemma split_on_amp_join:
  "list_all (\<lambda>x. CHR ''&'' \<notin> set x) xs \<Longrightarrow> xs \<noteq> [] \<Longrightarrow> split_on (CHR ''&'') (amp_join xs) = xs"
  by (induction xs rule: amp_join.induct) (simp_all add: split_on_none split_on_append)

lemma ParseQuery_pairs:
  "ParseQuery (amp_join (map (\<lambda>(k, v). QueryEscape k @ ''='' @ QueryEscape v) ps)) = ps"
proof (cases "ps = []")
  case True
  then show ?thesis by (simp add: ParseQuery_def)
next
  case False
  let ?f = "\<lambda>(k, v). QueryEscape k @ ''='' @ QueryEscape v"
  have "list_all (\<lambda>x. CHR ''&'' \<notin> set x) (map ?f ps)"
    using QueryEscape_safe by (fastforce simp: list_all_iff)
  then have "split_on (CHR ''&'') (amp_join (map ?f ps)) = map ?f ps"
    using False by (intro split_on_amp_join) auto
  moreover have "filter (\<lambda>p. p \<noteq> []) (map ?f ps) = map ?f ps"
    by (auto simp: filter_id_conv)
  moreover have "map (parse_pair \<circ> ?f) ps = ps"
    by (rule map_idI) (auto simp: parse_pair_escaped [simplified])
  ultimately show ?thesis by (simp add: ParseQuery_def)
qed

lemma hset_fresh: "k \<notin> fst ` set hs \<Longrightarrow> hset k v hs = hs @ [(k, v)]"
  by (induction k v hs rule: hset.induct) auto

lemma ConvertToQueryValues_distinct:
  assumes "distinct (map fst v)"
  shows "ConvertToQueryValues v = map (\<lambda>(k, vs). (k, [Values_Get vs])) v"
proof -
  have "foldl (\<lambda>values (k, vs). hset k [Values_Get vs] values) acc v
      = acc @ map (\<lambda>(k, vs). (k, [Values_Get vs])) v"
    if "distinct (map fst v)" "fst ` set acc \<inter> fst ` set v = {}" for acc
    using that
  proof (induction v arbitrary: acc)
    case (Cons p v)
    obtain k vs where p: "p = (k, vs)" by force
    with Cons.prems have "hset k [Values_Get vs] acc = acc @ [(k, [Values_Get vs])]"
      by (intro hset_fresh) auto
    then show ?case using Cons p by auto
  qed simp
  then show ?thesis using assms by (simp add: ConvertToQueryValues_def)
qed

lemma insort_key_map: "map f (insort_key (\<lambda>x. g (f x)) x xs) = insort_key g (f x) (map f xs)"
  by (induction xs) auto

lemma sort_key_map: "sort_key g (map f xs) = map f (sort_key (\<lambda>x. g (f x)) xs)"
  by (induction xs) (simp_all add: insort_key_map)

lemma Values_Encode_singletons:
  "Values_Encode (map (\<lambda>(k, vs). (k, [g vs])) v) =
   amp_join (map (\<lambda>(k, v). QueryEscape k @ ''='' @ QueryEscape v) (sort_key fst (map (\<lambda>(k, vs). (k, g vs)) v)))"
proof -
  have m2: "sort_key fst (map (\<lambda>(k, vs). (k, g vs)) v) = map (\<lambda>(k, vs). (k, g vs)) (sort_key fst v)"
    "sort_key fst (map (\<lambda>(k, vs). (k, [g vs])) v) = map (\<lambda>(k, vs). (k, [g vs])) (sort_key fst v)"
    using sort_key_map [of fst "\<lambda>(k, vs). (k, g vs)" v] sort_key_map [of fst "\<lambda>(k, vs). (k, [g vs])" v]
    by (simp_all add: case_prod_beta comp_def)
  show ?thesis
    unfolding Values_Encode_def m2 by (simp add: case_prod_beta comp_def concat_map_singleton)
qed

lemma ParseQuery_SetUrlQuery:
  assumes "distinct (map fst v)"
  shows "ParseQuery (Values_Encode (ConvertToQueryValues v)) = sort_key fst (map (\<lambda>(k, vs). (k, Values_Get vs)) v)"
  by (simp only: ConvertToQueryValues_distinct [OF assms] Values_Encode_singletons ParseQuery_pairs)

lemma map_of_sort_key_fst:
  assumes "distinct (map fst xs)"
  shows "map_of (sort_key fst xs) = map_of xs"
proof -
  have "distinct (map fst (sort_key fst xs))"
    using assms by (simp add: distinct_map inj_on_def)
  then show ?thesis using assms by (subst map_of_inject_set) auto
qed

lemma map_of_values: "map_of (map (\<lambda>(k, vs). (k, f vs)) v) k = map_option f (map_of v k)"
  by (induction v) auto

lemma query_lookup:
  assumes "distinct (map fst v)"
  shows "map_of (ParseQuery (Values_Encode (ConvertToQueryValues v))) k = map_option Values_Get (map_of v k)"
proof -
  have "map fst (map (\<lambda>(k, vs). (k, Values_Get vs)) v) = map fst v" by (induction v) auto
  then have "distinct (map fst (map (\<lambda>(k, vs). (k, Values_Get vs)) v))" using assms by (simp only:)
  then show ?thesis
    unfolding ParseQuery_SetUrlQuery [OF assms] by (simp only: map_of_sort_key_fst map_of_values)
qed

lemma SetUrlQuery_query:
  assumes "distinct (map fst v)"
  shows "\<exists>q. kop_url (SetUrlQuery '''' v kop) = kop_endpoint kop @ ''?'' @ q \<and>
             (\<lambda>k. map_of (ParseQuery q) k) = (\<lambda>k. map_option Values_Get (map_of v k))"
  by (rule exI [of _ "Values_Encode (ConvertToQueryValues v)"])
     (simp add: SetUrlQuery_def Let_def query_lookup [OF assms])

section \<open>Properties\<close>

text \<open>
  C14 Every parameter that \<open>SetUrlQuery\<close> puts into the URL is read back unchanged by the server, whatever
  bytes its key and value hold: the query part of the URL parses to exactly the first value of each key.
\<close>

theorem query_roundtrip:
  assumes "distinct (map fst v)"
  shows "\<exists>q. kop_url (SetUrlQuery '''' v kop) = kop_endpoint kop @ ''?'' @ q \<and>
             (\<lambda>k. map_of (ParseQuery q) k) = (\<lambda>k. map_option Values_Get (map_of v k))"
  using assms by (rule SetUrlQuery_query)

theorem query_roundtrip_witness:
  "\<exists>q. kop_url (SetUrlQuery '''' [(''DestinationCidrBlock'', [''10.0.0.0/8''])] NewKopClient)
      = kop_endpoint NewKopClient @ ''?'' @ q \<and>
    map_of (ParseQuery q) ''DestinationCidrBlock'' = Some ''10.0.0.0/8''"
  using query_roundtrip [of "[(''DestinationCidrBlock'', [''10.0.0.0/8''])]" NewKopClient]
  by (auto simp: Values_Get_def dest: fun_cong [of _ _ "''DestinationCidrBlock''"])

end
