(* ===== verification/Reference_Cloud.thy ===== *)
theory Reference_Cloud
  imports Ksyun_Api Query_Codec
begin

text \<open>
  A concrete outside world: a cloud that keeps the routes of one VPC and answers the HTTP requests the
  program sends, an API server that keeps nodes, a clock and a controller cache. It fills in every
  parameter of the record \<open>env\<close>, so that the documented behaviour assumed of the outside is seen to be
  consistent and the program can be run in it. Requests are read from their URL, as a server would;
  answers are written as netstrings, which the JSON parameters decode.
\<close>

section \<open>Netstrings\<close>

definition netstring :: "string \<Rightarrow> string" where
  "netstring s = dec (length s) @ '':'' @ s"

definition un_netstring :: "string \<Rightarrow> (string \<times> string) option" where
  "un_netstring s =
     (let ds = takeWhile is_digit s; rest = dropWhile is_digit s; n = dec_val 0 ds in
      case rest of
        [] \<Rightarrow> None
      | c # cs \<Rightarrow> if ds \<noteq> [] \<and> c = CHR '':'' \<and> n \<le> length cs then Some (take n cs, drop n cs) else None)"

lemma un_netstring_netstring [simp]: "un_netstring (netstring s @ rest) = Some (s, rest)"
proof -
  have "takeWhile is_digit (dec (length s) @ '':'' @ s @ rest) = dec (length s)"
    "dropWhile is_digit (dec (length s) @ '':'' @ s @ rest) = '':'' @ s @ rest"
    using dec_digits [of "length s"] by (auto simp: takeWhile_append dropWhile_append list_all_iff is_digit_def)
  then show ?thesis by (simp add: un_netstring_def netstring_def dec_val_dec dec_nonempty)
qed

text \<open>A list of strings, each a netstring; the decoder's fuel is the length of the text.\<close>

definition netstrings :: "string list \<Rightarrow> string" where
  "netstrings ss = concat (map netstring ss)"

fun un_netstrings :: "nat \<Rightarrow> string \<Rightarrow> string list option" where
  "un_netstrings 0 s = (if s = [] then Some [] else None)"
| "un_netstrings (Suc k) s =
     (if s = [] then Some []
      else (case un_netstring s of
              None \<Rightarrow> None
            | Some (x, rest) \<Rightarrow> map_option ((#) x) (un_netstrings k rest)))"

definition decode_list :: "string \<Rightarrow> string list option" where
  "decode_list s = un_netstrings (length s) s"

lemma netstring_nonempty [simp]: "netstring s \<noteq> []"
  by (simp add: netstring_def)

lemma un_netstrings_netstrings:
  "length ss \<le> k \<Longrightarrow> un_netstrings k (netstrings ss) = Some ss"
proof (induction ss arbitrary: k)
  case Nil
  then show ?case by (cases k) (simp_all add: netstrings_def)
next
  case (Cons s ss)
  then obtain j where "k = Suc j" "length ss \<le> j" by (cases k) auto
  with Cons.IH [of j] show ?case by (simp add: netstrings_def)
qed

lemma decode_list_netstrings [simp]: "decode_list (netstrings ss) = Some ss"
proof -
  have "length ss \<le> length (netstrings ss)"
  proof (induction ss)
    case (Cons s ss)
    have "1 \<le> length (netstring s)" using netstring_nonempty [of s] by (cases "netstring s") auto
    with Cons show ?case by (simp add: netstrings_def)
  qed simp
  then show ?thesis by (simp add: decode_list_def un_netstrings_netstrings)
qed

section \<open>The cloud and the API server\<close>

record Cloud =
  cl_vpc :: Vpc
  cl_routes :: "RouteSetType list"
  cl_next :: nat
  cl_nodes :: "Node list"
  cl_cache :: "(string \<times> Route) list"
  cl_events :: "Event list"
  cl_clock :: int

definition enc_vpc :: "Vpc \<Rightarrow> string" where
  "enc_vpc v = netstrings [vpc_VpcId v, vpc_ProductTag v]"

definition enc_route :: "RouteSetType \<Rightarrow> string" where
  "enc_route r = netstrings [rst_RouteId r, rst_VpcId r, rst_RouteType r, rst_DestinationCIDR r,
     netstrings (rst_NextHopset r)]"

definition dec_vpc :: "string \<Rightarrow> Vpc option" where
  "dec_vpc s = (case decode_list s of Some [i, t] \<Rightarrow> Some \<lparr>vpc_VpcId = i, vpc_ProductTag = t\<rparr> | _ \<Rightarrow> None)"

definition dec_route :: "string \<Rightarrow> RouteSetType option" where
  "dec_route s =
     (case decode_list s of
        Some [i, v, t, c, hs] \<Rightarrow>
          map_option (\<lambda>hops. \<lparr>rst_RouteId = i, rst_VpcId = v, rst_RouteType = t, rst_DestinationCIDR = c,
            rst_NextHopset = hops\<rparr>) (decode_list hs)
      | _ \<Rightarrow> None)"

fun all_some :: "'a option list \<Rightarrow> 'a list option" where
  "all_some [] = Some []"
| "all_some (x # xs) = Option.bind x (\<lambda>y. map_option ((#) y) (all_some xs))"

definition decode_all :: "(string \<Rightarrow> 'a option) \<Rightarrow> string \<Rightarrow> 'a list res" where
  "decode_all d s =
     (case Option.bind (decode_list s) (\<lambda>xs. all_some (map d xs)) of
        Some ys \<Rightarrow> Ok ys
      | None \<Rightarrow> Err (ErrorString ''unexpected end of JSON input''))"

lemma all_some_Some [simp]: "all_some (map Some xs) = Some xs"
  by (induction xs) auto

lemma dec_enc_vpc [simp]: "dec_vpc (enc_vpc v) = Some v"
  by (simp add: dec_vpc_def enc_vpc_def)

lemma dec_enc_route [simp]: "dec_route (enc_route r) = Some r"
  by (simp add: dec_route_def enc_route_def)

lemma decode_all_vpcs [simp]: "decode_all dec_vpc (netstrings (map enc_vpc vs)) = Ok vs"
  by (simp add: decode_all_def comp_def)

lemma decode_all_routes [simp]: "decode_all dec_route (netstrings (map enc_route rs)) = Ok rs"
  by (simp add: decode_all_def comp_def)

text \<open>A parameter that is absent matches anything.\<close>

definition matching :: "(string \<Rightarrow> string option) \<Rightarrow> string \<Rightarrow> string \<Rightarrow> bool" where
  "matching q k x = (case q k of None \<Rightarrow> True | Some v \<Rightarrow> v = x)"

definition described :: "(string \<Rightarrow> string option) \<Rightarrow> RouteSetType \<Rightarrow> bool" where
  "described q r = (matching q ''RouteId.1'' (rst_RouteId r) \<and>
     matching q ''Filter.1.Value.1'' (rst_VpcId r) \<and>
     matching q ''Filter.2.Value.1'' (rst_RouteType r) \<and>
     matching q ''Filter.3.Value.1'' (rst_DestinationCIDR r))"

definition param :: "(string \<Rightarrow> string option) \<Rightarrow> string \<Rightarrow> string" where
  "param q k = (case q k of None \<Rightarrow> '''' | Some v \<Rightarrow> v)"

definition new_route :: "(string \<Rightarrow> string option) \<Rightarrow> nat \<Rightarrow> RouteSetType" where
  "new_route q n = \<lparr>rst_RouteId = ''rt-'' @ dec n, rst_VpcId = param q ''VpcId'',
     rst_RouteType = param q ''RouteType'', rst_DestinationCIDR = param q ''DestinationCidrBlock'',
     rst_NextHopset = [param q ''InstanceId'']\<rparr>"

definition duplicate_message :: string where
  "duplicate_message = ''the destination is the same with a route''"

definition answer :: "(string \<Rightarrow> string option) \<Rightarrow> Cloud \<Rightarrow> Response \<times> Cloud" where
  "answer q w =
     (let action = param q ''Action'' in
      if action = ''DescribeVpcs'' then
        (\<lparr>rs_StatusCode = 200, rs_Body = netstrings (map enc_vpc
            (filter (\<lambda>v. matching q ''VpcId.1'' (vpc_VpcId v)) [cl_vpc w]))\<rparr>, w)
      else if action = ''DescribeRoutes'' then
        (\<lparr>rs_StatusCode = 200, rs_Body = netstrings (map enc_route (filter (described q) (cl_routes w)))\<rparr>, w)
      else if action \<in> {''CreateRoute'', ''CreateTrustRoute''} then
        (let r = new_route q (cl_next w) in
         if list_ex (\<lambda>x. rst_DestinationCIDR x = rst_DestinationCIDR r) (cl_routes w)
         then (\<lparr>rs_StatusCode = 409, rs_Body = duplicate_message\<rparr>, w)
         else (\<lparr>rs_StatusCode = 200, rs_Body = netstrings [rst_RouteId r]\<rparr>,
               w\<lparr>cl_routes := cl_routes w @ [r], cl_next := Suc (cl_next w)\<rparr>))
      else if action \<in> {''DeleteRoute'', ''DeleteTrustRoute''} then
        (\<lparr>rs_StatusCode = 200, rs_Body = ''''\<rparr>,
         w\<lparr>cl_routes := filter (\<lambda>x. rst_RouteId x \<noteq> param q ''RouteId'') (cl_routes w)\<rparr>)
      else (\<lparr>rs_StatusCode = 404, rs_Body = ''no such action''\<rparr>, w))"

definition query_part :: "string \<Rightarrow> string" where
  "query_part url = tl (dropWhile (\<lambda>c. c \<noteq> CHR ''?'') url)"

definition serve :: "Request \<Rightarrow> (Cloud, Response) eff" where
  "serve rq w = (case answer (map_of (ParseQuery (query_part (rq_URL rq)))) w of (resp, w') \<Rightarrow> (Ok resp, w'))"

definition has_reason :: "string \<Rightarrow> gerror \<Rightarrow> bool" where
  "has_reason reason e = (case e of ApiErr r _ \<Rightarrow> r = reason | _ \<Rightarrow> False)"

definition put_node :: "Node \<Rightarrow> Node list \<Rightarrow> Node list" where
  "put_node n ns = map (\<lambda>m. if nd_Name m = nd_Name n then n else m) ns"

definition enc_condition :: "NodeCondition \<Rightarrow> string" where
  "enc_condition c = netstrings [c_Type c, c_Status c, dec_int (c_LastHeartbeatTime c),
     dec_int (c_LastTransitionTime c), c_Reason c, c_Message c]"

text \<open>Status patches carry the conditions: what \<open>marshal\<close> writes of a node.\<close>

definition enc_status :: "Node \<Rightarrow> string" where
  "enc_status n = netstrings (map enc_condition (nd_Conditions n))"

definition tick :: "Cloud \<Rightarrow> Cloud" where
  "tick w = w\<lparr>cl_clock := cl_clock w + 1\<rparr>"

definition ref_keys :: AKSK where
  "ref_keys = \<lparr>ak_AK = ''ak'', ak_SK = ''sk'', ak_SecurityToken = ''token''\<rparr>"

definition ref_env :: "Cloud env" where
  "ref_env = \<lparr>
     k_get = (\<lambda>name w. (case find (\<lambda>n. nd_Name n = name) (cl_nodes w) of
                Some n \<Rightarrow> Ok n | None \<Rightarrow> Err (ApiErr ''NotFound'' ''node not found''), w)),
     k_list = (\<lambda>w. (Ok (cl_nodes w), w)),
     k_update = (\<lambda>n w. if list_ex (\<lambda>m. nd_Name m = nd_Name n) (cl_nodes w)
                then (Ok n, w\<lparr>cl_nodes := put_node n (cl_nodes w)\<rparr>)
                else (Err (ApiErr ''NotFound'' ''node not found''), w)),
     k_patch = (\<lambda>n p w. (Ok (), w\<lparr>cl_nodes := put_node n (cl_nodes w)\<rparr>)),
     k_status_patch = (\<lambda>n p w. (Ok (), w\<lparr>cl_nodes := map (\<lambda>m. if nd_Name m = nd_Name n
                then m\<lparr>nd_Conditions := nd_Conditions n\<rparr> else m) (cl_nodes w)\<rparr>)),
     k_marshal = (\<lambda>n. Ok (enc_status n)),
     k_merge_patch = (\<lambda>old new. Ok (if old = new then ''{}'' else ''{'' @ new @ ''}'')),
     is_not_found = has_reason ''NotFound'',
     is_conflict = has_reason ''Conflict'',
     new_aggregate = (\<lambda>es. case es of [] \<Rightarrow> None | e # _ \<Rightarrow> Some (ErrorString (error_text e))),
     record_event = (\<lambda>e w. w\<lparr>cl_events := cl_events w @ [e]\<rparr>),
     now = (\<lambda>w. (cl_clock w, tick w)),
     cache_get = (\<lambda>k w. map_of (cl_cache w) k),
     cache_set_if_absent = (\<lambda>k r w. if map_of (cl_cache w) k = None
                then w\<lparr>cl_cache := (k, r) # cl_cache w\<rparr> else w),
     cache_remove = (\<lambda>k w. w\<lparr>cl_cache := filter (\<lambda>p. fst p \<noteq> k) (cl_cache w)\<rparr>),
     exp_backoff = (\<lambda>b. backoff_checks (nat (bo_Steps b)) (map_prod tick id)),
     retry_do = (\<lambda>b. retry_attempts 10 (map_prod tick id)),
     sleep_seconds = (\<lambda>n w. w\<lparr>cl_clock := cl_clock w + int n\<rparr>),
     rand_int63 = (\<lambda>w. (nat (cl_clock w), w)),
     url_scheme = (\<lambda>u. if take 8 u = ''https://'' then Some ''https'' else Some ''http''),
     new_request_error = (\<lambda>m u. None),
     sign_request = (\<lambda>creds service region r w. (Ok (Header_Set ''Authorization'' (fst creds) r), w)),
     http_do = serve,
     aksk_get = (\<lambda>w. (Ok ref_keys, w)),
     aksk_reload = (\<lambda>w. (Ok ref_keys, w)),
     marshal_route_args = (\<lambda>a. netstrings [ra_DomainId a, ra_InstanceId a, ra_InstanceType a, ra_CidrBlock a]),
     marshal_alarm_args = (\<lambda>a. netstrings [aa_Name a, aa_Product a, aa_Priority a, aa_Content a, aa_NoDeal a]),
     unmarshal_vpcs = decode_all dec_vpc,
     unmarshal_route_id = (\<lambda>s. case decode_list s of Some [i] \<Rightarrow> Ok i
                | _ \<Rightarrow> Err (ErrorString ''unexpected end of JSON input'')),
     unmarshal_routes = decode_all dec_route,
     metadata_get = (\<lambda>path w. (Ok \<lparr>rs_StatusCode = 200, rs_Body = ''i-'' @ path\<rparr>, w))\<rparr>"

lemma ref_env_simps [simp]:
  "k_get ref_env = (\<lambda>name w. (case find (\<lambda>n. nd_Name n = name) (cl_nodes w) of Some n \<Rightarrow> Ok n | None \<Rightarrow> Err (ApiErr ''NotFound'' ''node not found''), w))"
  "k_list ref_env = (\<lambda>w. (Ok (cl_nodes w), w))"
  "k_update ref_env = (\<lambda>n w. if list_ex (\<lambda>m. nd_Name m = nd_Name n) (cl_nodes w) then (Ok n, w\<lparr>cl_nodes := put_node n (cl_nodes w)\<rparr>) else (Err (ApiErr ''NotFound'' ''node not found''), w))"
  "k_patch ref_env = (\<lambda>n p w. (Ok (), w\<lparr>cl_nodes := put_node n (cl_nodes w)\<rparr>))"
  "k_status_patch ref_env = (\<lambda>n p w. (Ok (), w\<lparr>cl_nodes := map (\<lambda>m. if nd_Name m = nd_Name n then m\<lparr>nd_Conditions := nd_Conditions n\<rparr> else m) (cl_nodes w)\<rparr>))"
  "k_marshal ref_env = (\<lambda>n. Ok (enc_status n))"
  "k_merge_patch ref_env = (\<lambda>old new. Ok (if old = new then ''{}'' else ''{'' @ new @ ''}''))"
  "is_not_found ref_env = has_reason ''NotFound''"
  "is_conflict ref_env = has_reason ''Conflict''"
  "new_aggregate ref_env = (\<lambda>es. case es of [] \<Rightarrow> None | e # _ \<Rightarrow> Some (ErrorString (error_text e)))"
  "record_event ref_env = (\<lambda>e w. w\<lparr>cl_events := cl_events w @ [e]\<rparr>)"
  "now ref_env = (\<lambda>w. (cl_clock w, tick w))"
  "cache_get ref_env = (\<lambda>k w. map_of (cl_cache w) k)"
  "cache_set_if_absent ref_env = (\<lambda>k r w. if map_of (cl_cache w) k = None then w\<lparr>cl_cache := (k, r) # cl_cache w\<rparr> else w)"
  "cache_remove ref_env = (\<lambda>k w. w\<lparr>cl_cache := filter (\<lambda>p. fst p \<noteq> k) (cl_cache w)\<rparr>)"
  "exp_backoff ref_env = (\<lambda>b. backoff_checks (nat (bo_Steps b)) (map_prod tick id))"
  "retry_do ref_env = (\<lambda>b. retry_attempts 10 (map_prod tick id))"
  "sleep_seconds ref_env = (\<lambda>n w. w\<lparr>cl_clock := cl_clock w + int n\<rparr>)"
  "rand_int63 ref_env = (\<lambda>w. (nat (cl_clock w), w))"
  "url_scheme ref_env = (\<lambda>u. if take 8 u = ''https://'' then Some ''https'' else Some ''http'')"
  "new_request_error ref_env = (\<lambda>m u. None)"
  "sign_request ref_env = (\<lambda>creds service region r w. (Ok (Header_Set ''Authorization'' (fst creds) r), w))"
  "http_do ref_env = serve"
  "aksk_get ref_env = (\<lambda>w. (Ok ref_keys, w))"
  "aksk_reload ref_env = (\<lambda>w. (Ok ref_keys, w))"
  "marshal_route_args ref_env = (\<lambda>a. netstrings [ra_DomainId a, ra_InstanceId a, ra_InstanceType a, ra_CidrBlock a])"
  "marshal_alarm_args ref_env = (\<lambda>a. netstrings [aa_Name a, aa_Product a, aa_Priority a, aa_Content a, aa_NoDeal a])"
  "unmarshal_vpcs ref_env = decode_all dec_vpc"
  "unmarshal_route_id ref_env = (\<lambda>s. case decode_list s of Some [i] \<Rightarrow> Ok i | _ \<Rightarrow> Err (ErrorString ''unexpected end of JSON input''))"
  "unmarshal_routes ref_env = decode_all dec_route"
  "metadata_get ref_env = (\<lambda>path w. (Ok \<lparr>rs_StatusCode = 200, rs_Body = ''i-'' @ path\<rparr>, w))"
  by (simp_all add: ref_env_def)

lemma map_of_filter_key: "map_of (filter (\<lambda>p. fst p \<noteq> k) xs) j = (if j = k then None else map_of xs j)"
  by (induction xs) auto

lemma ref_documented:
  "backoff_documented ref_env" "retry_documented ref_env" "cache_documented ref_env"
  "aggregate_documented ref_env" "conflict_documented ref_env"
  by (auto simp: documented_defs map_of_filter_key has_reason_def split: list.splits)

section \<open>A request and its answer\<close>

lemma ref_random: "\<exists>b. random_loop ref_env n cs w = (b, w)"
  by (induction n) (auto split: prod.splits)

lemma ref_request_id: "\<exists>i. genRequestId ref_env kop w = (i, w)"
proof -
  obtain b where "random_loop ref_env 32 Alphanumeric w = (b, w)" using ref_random by blast
  then show ?thesis by (simp add: genRequestId_def random_String_def)
qed

lemma rq_URL_Header [simp]: "rq_URL (Header_Add k v r) = rq_URL r" "rq_URL (Header_Set k v r) = rq_URL r"
  by (simp_all add: Header_Add_def Header_Set_def Let_def)

lemma rq_URL_with_headers [simp]: "rq_URL (with_headers kop i r) = rq_URL r"
proof -
  have "rq_URL (foldl (\<lambda>r (k, v). Header_Set k v r) r hs) = rq_URL r" for r hs
    by (induction hs arbitrary: r) auto
  then show ?thesis by (simp add: with_headers_def Let_def)
qed

definition sendable :: "KopClient \<Rightarrow> bool" where
  "sendable kop \<longleftrightarrow> kop_method kop \<in> {GET, DELETE} \<or> kop_method kop = POST \<and> kop_body kop \<noteq> None"

lemma ref_send:
  assumes "sendable kop" "answer (map_of (ParseQuery (query_part (kop_url kop)))) w = (resp, w')"
  shows "send ref_env kop w =
    (if rs_StatusCode resp \<in> {200, 201, 202, 204} then Ok (rs_Body resp)
     else Err (KopError (rs_StatusCode resp) (rs_Body resp)), w')"
proof -
  obtain i where i: "genRequestId ref_env kop w = (i, w)" using ref_request_id by blast
  obtain rq where m: "method_request ref_env kop = Ok rq" "rq_URL rq = kop_url kop"
    using assms(1)
    by (auto simp: method_request_def new_request_def sendable_def POST_def UPDATE_def GET_def DELETE_def)
  obtain rq2 where s: "signed_request ref_env kop rq w = (Ok rq2, w)" "rq_URL rq2 = kop_url kop"
    using m by (cases "kop_signer kop") (auto simp: signed_request_def new_request_def)
  have "http_do ref_env (with_headers kop i rq2) w = (Ok resp, w')"
    using assms(2) s(2) by (simp add: serve_def)
  with i m(1) s(1) show ?thesis by (simp add: send_def on_res_def)
qed

lemma ref_Go:
  assumes "sendable kop" "answer (map_of (ParseQuery (query_part (kop_url kop)))) w = (resp, w')"
  shows "Go ref_env kop w =
    (if rs_StatusCode resp \<in> {200, 201, 202, 204} then Ok (rs_Body resp)
     else Err (KopError (rs_StatusCode resp) (rs_Body resp)), w')"
proof (cases "rs_StatusCode resp \<in> {200, 201, 202, 204}")
  case True
  with ref_send [OF assms] have "send ref_env kop w = (Ok (rs_Body resp), w')" by (simp only: if_True)
  with True show ?thesis using Go_first_attempt_Ok [OF ref_documented(2)] by (simp only: if_True)
next
  case False
  with ref_send [OF assms] have "send ref_env kop w = (Err (KopError (rs_StatusCode resp) (rs_Body resp)), w')"
    by (simp only: if_False)
  with False show ?thesis using Go_first_attempt_Err [OF ref_documented(2)] by (simp only: if_False shouldRetry_KopError not_False_eq_True)
qed

section \<open>The calls of the client\<close>

lemma query_part_append: "CHR ''?'' \<notin> set a \<Longrightarrow> query_part (a @ ''?'' @ q) = q"
  by (simp add: query_part_def dropWhile_append)

definition plain_body :: "(KopClient \<Rightarrow> KopClient) \<Rightarrow> string \<Rightarrow> bool" where
  "plain_body body method \<longleftrightarrow> (method \<in> {GET, DELETE} \<and> body = id) \<or> (method = POST \<and> (\<exists>b. body = SetBody b))"

lemma SetHeader_fields [simp]:
  "kop_endpoint (SetHeader h k) = kop_endpoint k" "kop_body (SetHeader h k) = kop_body k"
  by (simp_all add: SetHeader_def)

lemma prepare_client:
  fixes c :: "'c ApiClient_scheme"
  assumes "plain_body body method" "distinct (map fst action)" "CHR ''?'' \<notin> set (cf_NetworkEndpoint (ac_conf c))"
  shows "sendable (ac_client (prepare E server action method body aksk c))"
    and "(\<lambda>k. map_of (ParseQuery (query_part (kop_url (ac_client (prepare E server action method body aksk c))))) k)
       = (\<lambda>k. map_option Values_Get (map_of action k))"
    and "ac_conf (prepare E server action method body aksk c) = ac_conf c"
proof -
  define k where "k = body (SetHeader (ac_headers (set_token aksk c))
      (SetEndpoint E (cf_NetworkEndpoint (ac_conf c)) (ac_client c)))"
  have conf: "ac_conf (set_token aksk c) = ac_conf c" "ac_client (set_token aksk c) = ac_client c"
    by (simp_all add: set_token_def)
  have ep: "kop_endpoint k = cf_NetworkEndpoint (ac_conf c)"
    using assms(1) by (auto simp: k_def plain_body_def SetBody_def SetEndpoint_def Let_def)
  have p: "ac_client (prepare E server action method body aksk c)
      = SetSigner server (cf_Region (ac_conf c)) (ak_AK aksk) (ak_SK aksk) (SetMethod method (SetUrlQuery '''' action k))"
    using conf by (simp add: prepare_def Let_def resign_def k_def)
  obtain q where q: "kop_url (SetUrlQuery '''' action k) = kop_endpoint k @ ''?'' @ q"
    "(\<lambda>x. map_of (ParseQuery q) x) = (\<lambda>x. map_option Values_Get (map_of action x))"
    using SetUrlQuery_query [OF assms(2)] by blast
  show "sendable (ac_client (prepare E server action method body aksk c))"
    using assms(1) by (auto simp: p sendable_def plain_body_def SetSigner_def SetMethod_def SetUrlQuery_def
        k_def SetBody_def Let_def)
  show "(\<lambda>k. map_of (ParseQuery (query_part (kop_url (ac_client (prepare E server action method body aksk c))))) k)
       = (\<lambda>k. map_option Values_Get (map_of action k))"
    using q assms(3) by (simp add: p SetSigner_def SetMethod_def ep query_part_append [simplified])
  show "ac_conf (prepare E server action method body aksk c) = ac_conf c"
    using conf by (simp add: prepare_def Let_def resign_def)
qed

text \<open>One call, answered with status 200 or with the error for a duplicate route.\<close>

lemma ref_call:
  fixes c :: "'c ApiClient_scheme"
  assumes "plain_body body method" "distinct (map fst action)" "CHR ''?'' \<notin> set (cf_NetworkEndpoint (ac_conf c))"
    and "answer (\<lambda>k. map_option Values_Get (map_of action k)) w = (resp, w')"
    and "rs_StatusCode resp = 200 \<or> resp = \<lparr>rs_StatusCode = 409, rs_Body = duplicate_message\<rparr>"
  shows "call_api ref_env server what action method body aksk (w, c) =
     (if rs_StatusCode resp = 200 then Ok (rs_Body resp)
      else Err (ErrorString (''kop '' @ what @ '' err: '' @ error_text (KopError 409 duplicate_message))),
      (w', prepare ref_env server action method body aksk c))"
proof -
  let ?c = "prepare ref_env server action method body aksk c"
  have "answer (map_of (ParseQuery (query_part (kop_url (ac_client ?c))))) w = (resp, w')"
    using prepare_client(2) [OF assms(1-3), of ref_env server aksk] assms(4) by simp
  note go = ref_Go [OF prepare_client(1) [OF assms(1-3)] this]
  show ?thesis
  proof (cases "rs_StatusCode resp = 200")
    case True
    then show ?thesis using go by (simp add: call_api_def client_go_def lift_w_def on_res_def)
  next
    case False
    then have resp: "resp = \<lparr>rs_StatusCode = 409, rs_Body = duplicate_message\<rparr>" using assms(5) by simp
    have "\<not> str_contains (error_text (KopError 409 duplicate_message)) SecurityTokenExpired"
      by code_simp
    then show ?thesis
      using go resp by (simp add: call_api_def client_go_def lift_w_def on_res_def del: error_text.simps)
  qed
qed

section \<open>The operations of the client\<close>

definition ref_up :: "Globals \<Rightarrow> Cloud \<Rightarrow> bool" where
  "ref_up G w \<longleftrightarrow> CHR ''?'' \<notin> set (cf_NetworkEndpoint (g_Cfg G)) \<and>
     vpc_VpcId (cl_vpc w) = cf_VpcID (g_Cfg G) \<and>
     (\<forall>r \<in> set (cl_routes w). rst_VpcId r = cf_VpcID (g_Cfg G) \<and> rst_RouteType r = defaultRouteType \<and>
        (\<exists>n < cl_next w. rst_RouteId r = ''rt-'' @ dec n)) \<and>
     distinct (map rst_RouteId (cl_routes w)) \<and> distinct (map rst_DestinationCIDR (cl_routes w))"

definition client_of :: "Globals \<Rightarrow> 'c ApiClient_scheme \<Rightarrow> bool" where
  "client_of G c \<longleftrightarrow> ac_conf c = with_endpoint (g_Cfg G)"

lemma endpoint_ok: "ref_up G w \<Longrightarrow> client_of G c \<Longrightarrow> CHR ''?'' \<notin> set (cf_NetworkEndpoint (ac_conf c))"
  by (auto simp: ref_up_def client_of_def with_endpoint_def DefaultNetworkEndpoint_def)

text \<open>A call and its answer, as every operation below uses it.\<close>

lemma ref_call_ok:
  assumes "answer (\<lambda>k. map_option Values_Get (map_of action k)) w = (\<lparr>rs_StatusCode = 200, rs_Body = data\<rparr>, w')"
    and "ref_up G w" "client_of G c" "plain_body body method" "distinct (map fst action)"
  obtains c' where "client_of G c'"
    "call_api ref_env server what action method body aksk (w, c) = (Ok data, (w', c'))"
proof
  note e = endpoint_ok [OF assms(2,3)]
  show "client_of G (prepare ref_env server action method body aksk c)"
    using prepare_client(3) [OF assms(4,5) e] assms(3) by (simp add: client_of_def)
  show "call_api ref_env server what action method body aksk (w, c)
      = (Ok data, (w', prepare ref_env server action method body aksk c))"
    using ref_call [OF assms(4,5) e assms(1)] by simp
qed

lemma ref_call_duplicate:
  assumes "answer (\<lambda>k. map_option Values_Get (map_of action k)) w
      = (\<lparr>rs_StatusCode = 409, rs_Body = duplicate_message\<rparr>, w')"
    and "ref_up G w" "client_of G c" "plain_body body method" "distinct (map fst action)"
  obtains c' where "client_of G c'"
    "call_api ref_env server what action method body aksk (w, c) =
       (Err (ErrorString (''kop '' @ what @ '' err: '' @ error_text (KopError 409 duplicate_message))), (w', c'))"
proof
  note e = endpoint_ok [OF assms(2,3)]
  show "client_of G (prepare ref_env server action method body aksk c)"
    using prepare_client(3) [OF assms(4,5) e] assms(3) by (simp add: client_of_def)
  show "call_api ref_env server what action method body aksk (w, c) =
      (Err (ErrorString (''kop '' @ what @ '' err: '' @ error_text (KopError 409 duplicate_message))),
       (w', prepare ref_env server action method body aksk c))"
    using ref_call [OF assms(4,5) e assms(1)] by simp
qed

lemma plain_bodies: "plain_body id GET" "plain_body id DELETE" "plain_body (SetBody b) POST"
  unfolding plain_body_def by blast+

lemma with_aksk_ref [simp]: "with_aksk ref_env k s = k ref_keys s"
  by (simp add: with_aksk_def on_res_def lift_w_def)

lemma ref_DescribeVpcs:
  assumes "ref_up G w" "client_of G c"
  obtains c' where "client_of G c'" "DescribeVpcs ref_env (w, c) = (Ok (cl_vpc w), (w, c'))"
proof -
  let ?a = "[(''Action'', [''DescribeVpcs'']), (''Version'', [defaultVersion]), (''VpcId.1'', [cf_VpcID (ac_conf c)])]"
  have ans: "answer (\<lambda>k. map_option Values_Get (map_of ?a k)) w
      = (\<lparr>rs_StatusCode = 200, rs_Body = netstrings (map enc_vpc [cl_vpc w])\<rparr>, w)"
    using assms by (simp add: answer_def param_def Values_Get_def matching_def ref_up_def client_of_def with_endpoint_def)
  obtain c' where "client_of G c'"
    "call_api ref_env defaultServerName (''describe vpc '' @ cf_VpcID (ac_conf c)) ?a GET id ref_keys (w, c)
       = (Ok (netstrings (map enc_vpc [cl_vpc w])), (w, c'))"
    by (rule ref_call_ok [OF ans assms plain_bodies(1)]) simp_all
  then show thesis
    by (intro that) (simp_all add: DescribeVpcs_def on_res_def decode_def Let_def del: list.map)
qed

lemma ref_NewRouteClient:
  assumes "ref_up G w"
  obtains c where "client_of G c" "NewRouteClient ref_env (g_Cfg G) w = (Ok c, w)"
proof -
  let ?c = "\<lparr>ac_conf = with_endpoint (g_Cfg G), ac_client = NewKopClient,
     ac_headers = [(''User-Agent'', ''vpc-route-controller''), (''Content-Type'', ''application/json''),
                   (''Accept'', ''application/json''), (''X-ProductTag-Source'', ''all'')], rc_productTag = ''''\<rparr>"
  have "client_of G ?c" by (simp add: client_of_def)
  then obtain c' where "client_of G c'" "DescribeVpcs ref_env (w, ?c) = (Ok (cl_vpc w), (w, c'))"
    by (rule ref_DescribeVpcs [OF assms])
  then show thesis
    by (intro that [of "c'\<lparr>rc_productTag := vpc_ProductTag (cl_vpc w)\<rparr>"])
       (simp_all add: NewRouteClient_def client_of_def)
qed

lemma filter_all: "(\<And>x. x \<in> set xs \<Longrightarrow> P x) \<Longrightarrow> filter P xs = xs"
  by (simp add: filter_id_conv)

lemma filter_distinct_key: "distinct (map f xs) \<Longrightarrow> x \<in> set xs \<Longrightarrow> filter (\<lambda>y. f y = f x) xs = [x]"
  by (induction xs) (auto simp: filter_empty_conv image_iff)

lemma ref_up_route: "ref_up G w \<Longrightarrow> r \<in> set (cl_routes w) \<Longrightarrow>
    rst_VpcId r = cf_VpcID (g_Cfg G) \<and> rst_RouteType r = defaultRouteType \<and>
    (\<exists>n < cl_next w. rst_RouteId r = ''rt-'' @ dec n)"
  by (auto simp: ref_up_def)

lemma ref_ListRoutes_call:
  assumes "ref_up G w" "client_of G c"
  obtains c' where "client_of G c'"
    "rc_ListRoutes ref_env (route_args G i cidr) (w, c) = (Ok (cl_routes w), (w, c'))"
proof -
  let ?args = "route_args G i cidr"
  let ?a = "[(''Action'', [''DescribeRoutes'']), (''Version'', [defaultVersion]),
             (''Filter.1.Name'', [''vpc-id'']), (''Filter.1.Value.1'', [ra_DomainId ?args]),
             (''Filter.2.Name'', [''route-type'']), (''Filter.2.Value.1'', [ra_InstanceType ?args])]"
  have all: "filter (described (\<lambda>k. map_option Values_Get (map_of ?a k))) (cl_routes w) = cl_routes w"
    using ref_up_route [OF assms(1)]
    by (intro filter_all) (simp add: described_def matching_def Values_Get_def route_args_def)
  have ans: "answer (\<lambda>k. map_option Values_Get (map_of ?a k)) w
      = (\<lparr>rs_StatusCode = 200, rs_Body = netstrings (map enc_route (cl_routes w))\<rparr>, w)"
    using all by (simp add: answer_def param_def Values_Get_def)
  obtain c' where "client_of G c'"
    "call_api ref_env defaultServerName (''list routes '' @ fmt_route_args ?args) ?a GET id ref_keys (w, c)
       = (Ok (netstrings (map enc_route (cl_routes w))), (w, c'))"
    by (rule ref_call_ok [OF ans assms plain_bodies(1)]) simp_all
  then show thesis
    by (intro that) (simp_all add: rc_ListRoutes_def on_res_def decode_wrapped_def Let_def)
qed

lemma ref_GetRoutes_call:
  assumes "ref_up G w" "client_of G c"
  obtains c' where "client_of G c'"
    "rc_GetRoutes ref_env (route_args G i cidr) (w, c) =
       (Ok (filter (\<lambda>r. rst_DestinationCIDR r = cidr) (cl_routes w)), (w, c'))"
proof -
  let ?args = "route_args G i cidr"
  let ?a = "[(''Action'', [''DescribeRoutes'']), (''Version'', [defaultVersion]),
             (''Filter.1.Name'', [''vpc-id'']), (''Filter.1.Value.1'', [ra_DomainId ?args]),
             (''Filter.2.Name'', [''route-type'']), (''Filter.2.Value.1'', [ra_InstanceType ?args]),
             (''Filter.3.Name'', [''destination-cidr-block'']), (''Filter.3.Value.1'', [ra_CidrBlock ?args])]"
  let ?rs = "filter (\<lambda>r. rst_DestinationCIDR r = cidr) (cl_routes w)"
  have all: "filter (described (\<lambda>k. map_option Values_Get (map_of ?a k))) (cl_routes w) = ?rs"
    using ref_up_route [OF assms(1)]
    by (intro filter_cong) (auto simp: described_def matching_def Values_Get_def route_args_def)
  have ans: "answer (\<lambda>k. map_option Values_Get (map_of ?a k)) w
      = (\<lparr>rs_StatusCode = 200, rs_Body = netstrings (map enc_route ?rs)\<rparr>, w)"
    using all by (simp add: answer_def param_def Values_Get_def)
  obtain c' where "client_of G c'"
    "call_api ref_env defaultServerName (''get routes '' @ fmt_route_args ?args) ?a GET id ref_keys (w, c)
       = (Ok (netstrings (map enc_route ?rs)), (w, c'))"
    by (rule ref_call_ok [OF ans assms plain_bodies(1)]) simp_all
  then show thesis
    by (intro that) (simp_all add: rc_GetRoutes_def on_res_def decode_wrapped_def Let_def)
qed

lemma ref_GetRoute_call:
  assumes "ref_up G w" "client_of G c" "r \<in> set (cl_routes w)"
  obtains c' where "client_of G c'" "rc_GetRoute ref_env (rst_RouteId r) (w, c) = (Ok r, (w, c'))"
proof -
  let ?a = "[(''Action'', [''DescribeRoutes'']), (''Version'', [defaultVersion]), (''RouteId.1'', [rst_RouteId r])]"
  have "filter (\<lambda>x. rst_RouteId x = rst_RouteId r) (cl_routes w) = [r]"
    using assms(1,3) by (intro filter_distinct_key) (simp_all add: ref_up_def)
  then have all: "filter (described (\<lambda>k. map_option Values_Get (map_of ?a k))) (cl_routes w) = [r]"
    by (simp add: described_def [abs_def] matching_def Values_Get_def eq_commute)
  have ans: "answer (\<lambda>k. map_option Values_Get (map_of ?a k)) w
      = (\<lparr>rs_StatusCode = 200, rs_Body = netstrings (map enc_route [r])\<rparr>, w)"
    using all by (simp add: answer_def param_def Values_Get_def)
  obtain c' where "client_of G c'"
    "call_api ref_env defaultServerName (''get route '' @ rst_RouteId r) ?a GET id ref_keys (w, c)
       = (Ok (netstrings (map enc_route [r])), (w, c'))"
    by (rule ref_call_ok [OF ans assms(1,2) plain_bodies(1)]) simp_all
  then show thesis
    by (intro that) (simp_all add: rc_GetRoute_def on_res_def decode_wrapped_def Let_def del: list.map)
qed

lemma trust_action_client: "trust_action plain trusted c = (a, c') \<Longrightarrow> client_of G c \<Longrightarrow> a \<in> {plain, trusted} \<and> client_of G c'"
  by (auto simp: trust_action_def client_of_def split: if_splits)

definition created :: "Globals \<Rightarrow> string \<Rightarrow> string \<Rightarrow> Cloud \<Rightarrow> RouteSetType" where
  "created G i cidr w = \<lparr>rst_RouteId = ''rt-'' @ dec (cl_next w), rst_VpcId = cf_VpcID (g_Cfg G),
     rst_RouteType = defaultRouteType, rst_DestinationCIDR = cidr, rst_NextHopset = [i]\<rparr>"

definition with_created :: "Globals \<Rightarrow> string \<Rightarrow> string \<Rightarrow> Cloud \<Rightarrow> Cloud" where
  "with_created G i cidr w =
     w\<lparr>cl_routes := cl_routes w @ [created G i cidr w], cl_next := Suc (cl_next w)\<rparr>"

lemma ref_up_with_created:
  assumes "ref_up G w" "cidr \<notin> rst_DestinationCIDR ` set (cl_routes w)"
  shows "ref_up G (with_created G i cidr w)"
proof -
  have "rst_RouteId r \<noteq> rst_RouteId (created G i cidr w)" if "r \<in> set (cl_routes w)" for r
    using ref_up_route [OF assms(1) that] by (auto simp: created_def)
  then have fresh: "rst_RouteId (created G i cidr w) \<notin> rst_RouteId ` set (cl_routes w)"
    by (metis imageE)
  have old: "\<exists>n < Suc (cl_next w). rst_RouteId r = ''rt-'' @ dec n" if "r \<in> set (cl_routes w)" for r
    using ref_up_route [OF assms(1) that] less_SucI by blast
  show ?thesis
    using assms fresh old unfolding ref_up_def with_created_def
    by (auto simp: created_def)
qed

lemma ref_CreateRoute_call:
  assumes "ref_up G w" "client_of G c" "cidr \<notin> rst_DestinationCIDR ` set (cl_routes w)"
  obtains c' where "client_of G c'"
    "rc_CreateRoute ref_env (route_args G i cidr) (w, c) =
       (Ok (rst_RouteId (created G i cidr w)), (with_created G i cidr w, c'))"
proof -
  let ?args = "route_args G i cidr"
  obtain a c1 where t: "trust_action ''CreateRoute'' ''CreateTrustRoute'' c = (a, c1)" by force
  then have a: "a \<in> {''CreateRoute'', ''CreateTrustRoute''}" and c1: "client_of G c1"
    using trust_action_client [OF t assms(2)] by auto
  let ?a = "[(''Action'', [a]), (''Version'', [defaultVersion]),
             (''VpcId'', [ra_DomainId ?args]), (''RouteType'', [ra_InstanceType ?args]),
             (''InstanceId'', [ra_InstanceId ?args]), (''DestinationCidrBlock'', [ra_CidrBlock ?args])]"
  have "new_route (\<lambda>k. map_option Values_Get (map_of ?a k)) (cl_next w) = created G i cidr w"
    by (simp add: new_route_def created_def param_def Values_Get_def route_args_def)
  moreover have "\<not> list_ex (\<lambda>x. rst_DestinationCIDR x = rst_DestinationCIDR (created G i cidr w)) (cl_routes w)"
    using assms(3) by (auto simp: list_ex_iff created_def)
  ultimately have ans: "answer (\<lambda>k. map_option Values_Get (map_of ?a k)) w
      = (\<lparr>rs_StatusCode = 200, rs_Body = netstrings [rst_RouteId (created G i cidr w)]\<rparr>, with_created G i cidr w)"
    using a by (auto simp: answer_def param_def Values_Get_def with_created_def Let_def)
  obtain c' where "client_of G c'"
    "call_api ref_env defaultServerName (''create route '' @ fmt_route_args ?args) ?a POST
        (SetBody (marshal_route_args ref_env ?args)) ref_keys (w, c1)
       = (Ok (netstrings [rst_RouteId (created G i cidr w)]), (with_created G i cidr w, c'))"
    by (rule ref_call_ok [OF ans assms(1) c1 plain_bodies(3)]) simp_all
  then show thesis
    by (intro that) (simp_all add: rc_CreateRoute_def on_res_def decode_def Let_def t del: ref_env_simps(26))
qed

lemma ref_CreateRoute_duplicate:
  assumes "ref_up G w" "client_of G c" "cidr \<in> rst_DestinationCIDR ` set (cl_routes w)"
  obtains c' where "client_of G c'"
    "rc_CreateRoute ref_env (route_args G i cidr) (w, c) =
       (Err (ErrorString (''kop create route '' @ fmt_route_args (route_args G i cidr) @ '' err: ''
          @ error_text (KopError 409 duplicate_message))), (w, c'))"
proof -
  let ?args = "route_args G i cidr"
  obtain a c1 where t: "trust_action ''CreateRoute'' ''CreateTrustRoute'' c = (a, c1)" by force
  then have a: "a \<in> {''CreateRoute'', ''CreateTrustRoute''}" and c1: "client_of G c1"
    using trust_action_client [OF t assms(2)] by auto
  let ?a = "[(''Action'', [a]), (''Version'', [defaultVersion]),
             (''VpcId'', [ra_DomainId ?args]), (''RouteType'', [ra_InstanceType ?args]),
             (''InstanceId'', [ra_InstanceId ?args]), (''DestinationCidrBlock'', [ra_CidrBlock ?args])]"
  have "new_route (\<lambda>k. map_option Values_Get (map_of ?a k)) (cl_next w) = created G i cidr w"
    by (simp add: new_route_def created_def param_def Values_Get_def route_args_def)
  moreover have "list_ex (\<lambda>x. rst_DestinationCIDR x = rst_DestinationCIDR (created G i cidr w)) (cl_routes w)"
    using assms(3) by (auto simp: list_ex_iff created_def)
  ultimately have ans: "answer (\<lambda>k. map_option Values_Get (map_of ?a k)) w
      = (\<lparr>rs_StatusCode = 409, rs_Body = duplicate_message\<rparr>, w)"
    using a by (auto simp: answer_def param_def Values_Get_def Let_def)
  obtain c' where "client_of G c'"
    "call_api ref_env defaultServerName (''create route '' @ fmt_route_args ?args) ?a POST
        (SetBody (marshal_route_args ref_env ?args)) ref_keys (w, c1)
       = (Err (ErrorString (''kop '' @ (''create route '' @ fmt_route_args ?args) @ '' err: ''
            @ error_text (KopError 409 duplicate_message))), (w, c'))"
    by (rule ref_call_duplicate [OF ans assms(1) c1 plain_bodies(3), where server = defaultServerName
          and what = "''create route '' @ fmt_route_args ?args" and aksk = ref_keys])
       (auto simp del: error_text.simps append.simps ref_env_simps)
  then show thesis
    by (intro that) (simp_all add: rc_CreateRoute_def on_res_def decode_def Let_def t
        del: ref_env_simps(26) error_text.simps)
qed

definition without_route :: "string \<Rightarrow> Cloud \<Rightarrow> Cloud" where
  "without_route rid w = w\<lparr>cl_routes := filter (\<lambda>x. rst_RouteId x \<noteq> rid) (cl_routes w)\<rparr>"

lemma ref_up_without_route: "ref_up G w \<Longrightarrow> ref_up G (without_route rid w)"
  by (auto simp: ref_up_def without_route_def distinct_map_filter)

lemma ref_DeleteRoute_call:
  assumes "ref_up G w" "client_of G c"
  obtains c' where "client_of G c'" "rc_DeleteRoute ref_env rid (w, c) = (Ok (), (without_route rid w, c'))"
proof -
  obtain a c1 where t: "trust_action ''DeleteRoute'' ''DeleteTrustRoute'' c = (a, c1)" by force
  then have a: "a \<in> {''DeleteRoute'', ''DeleteTrustRoute''}" and c1: "client_of G c1"
    using trust_action_client [OF t assms(2)] by auto
  let ?a = "[(''Action'', [a]), (''Version'', [defaultVersion]), (''RouteId'', [rid])]"
  have ans: "answer (\<lambda>k. map_option Values_Get (map_of ?a k)) w
      = (\<lparr>rs_StatusCode = 200, rs_Body = ''''\<rparr>, without_route rid w)"
    using a by (auto simp: answer_def param_def Values_Get_def Let_def without_route_def)
  obtain c' where "client_of G c'"
    "call_api ref_env defaultServerName (''delete route '' @ rid) ?a DELETE id ref_keys (w, c1)
       = (Ok '''', (without_route rid w, c'))"
    by (rule ref_call_ok [OF ans assms(1) c1 plain_bodies(2)]) simp_all
  then show thesis
    by (intro that) (simp_all add: rc_DeleteRoute_def on_res_def Let_def t)
qed

section \<open>The operations of pkg/ksyun\<close>

definition ref_table :: "Cloud \<Rightarrow> string \<Rightarrow> Route option" where
  "ref_table w cidr = map_option to_route (find (\<lambda>r. rst_DestinationCIDR r = cidr) (cl_routes w))"

lemma to_route_fields [simp]:
  "rt_DestinationCIDR (to_route r) = rst_DestinationCIDR r" "rt_RouteId (to_route r) = rst_RouteId r"
  "rt_InstanceId (to_route r) = (case rst_NextHopset r of [] \<Rightarrow> '''' | g # _ \<Rightarrow> g)"
  by (simp_all add: to_route_def)

lemma find_distinct_iff:
  "distinct (map f xs) \<Longrightarrow> find (\<lambda>x. f x = c) xs = Some x \<longleftrightarrow> x \<in> set xs \<and> f x = c"
  by (induction xs) auto

lemma ref_table_Some:
  assumes "ref_up G w"
  shows "ref_table w cidr = Some rt \<longleftrightarrow> (\<exists>r \<in> set (cl_routes w). rst_DestinationCIDR r = cidr \<and> rt = to_route r)"
  using assms find_distinct_iff [of rst_DestinationCIDR "cl_routes w" cidr]
  by (auto simp: ref_table_def ref_up_def)

lemma ref_table_None: "ref_table w cidr = None \<longleftrightarrow> cidr \<notin> rst_DestinationCIDR ` set (cl_routes w)"
  by (auto simp: ref_table_def find_None_iff)

lemma find_filter: "find P xs = (case filter P xs of [] \<Rightarrow> None | x # _ \<Rightarrow> Some x)"
  by (induction xs) auto

lemma on_client_Ok: "m (w, c) = (r, (w', c')) \<Longrightarrow> on_client m c w = (r, w')"
  by (simp add: on_client_def)

lemma ref_FindRoute:
  assumes "ref_up G w"
  shows "FindRoute ref_env G cidr w = (Ok (ref_table w cidr), w)"
proof -
  obtain c where c: "client_of G c" "NewRouteClient ref_env (g_Cfg G) w = (Ok c, w)"
    using ref_NewRouteClient [OF assms] .
  obtain c' where "rc_GetRoutes ref_env (route_args G '''' cidr) (w, c) =
       (Ok (filter (\<lambda>r. rst_DestinationCIDR r = cidr) (cl_routes w)), (w, c'))"
    using ref_GetRoutes_call [OF assms c(1)] .
  then show ?thesis
    using c(2) by (simp add: FindRoute_def on_res_def on_client_def ref_table_def find_filter split: list.split)
qed

lemma ref_ListRoutes:
  assumes "ref_up G w"
  shows "ListRoutes ref_env G w = (Ok (collect_routes (cl_routes w)), w)"
proof -
  obtain c where c: "client_of G c" "NewRouteClient ref_env (g_Cfg G) w = (Ok c, w)"
    using ref_NewRouteClient [OF assms] .
  obtain c' where "rc_ListRoutes ref_env (route_args G '''' '''') (w, c) = (Ok (cl_routes w), (w, c'))"
    using ref_ListRoutes_call [OF assms c(1)] .
  then show ?thesis using c(2) by (simp add: ListRoutes_def on_res_def on_client_def)
qed

lemma ref_CreateRoute_new:
  assumes "ref_up G w" "ref_table w cidr = None"
  shows "CreateRoute ref_env G i cidr w = (Ok (), with_created G i cidr w)"
proof -
  obtain c where c: "client_of G c" "NewRouteClient ref_env (g_Cfg G) w = (Ok c, w)"
    using ref_NewRouteClient [OF assms(1)] .
  let ?r = "created G i cidr w" and ?w = "with_created G i cidr w"
  note new = assms(2) [unfolded ref_table_None]
  obtain c1 where c1: "client_of G c1"
    "rc_CreateRoute ref_env (route_args G i cidr) (w, c) = (Ok (rst_RouteId ?r), (?w, c1))"
    using ref_CreateRoute_call [OF assms(1) c(1) new] .
  have "?r \<in> set (cl_routes ?w)" by (simp add: with_created_def)
  then obtain c2 where "rc_GetRoute ref_env (rst_RouteId ?r) (?w, c1) = (Ok ?r, (?w, c2))"
    using ref_GetRoute_call [OF ref_up_with_created [OF assms(1) new] c1(1)] by metis
  moreover have "rst_RouteId ?r \<noteq> ''''" by (simp add: created_def)
  ultimately have "WaitForAllRouteEntriesAvailable ref_env (rst_RouteId ?r) 60 (?w, c1) = (Ok (), (?w, c2))"
    by (simp add: WaitForAllRouteEntriesAvailable_def wait_loop.simps)
  then show ?thesis using c(2) c1(2) by (simp add: CreateRoute_def on_res_def on_client_def)
qed

lemma ref_CreateRoute_exists:
  assumes "ref_up G w" "ref_table w cidr = Some r" "\<not> cf_AlarmEnabled (g_Cfg G)"
  shows "\<exists>e. CreateRoute ref_env G i cidr w = (Err e, w) \<and> str_contains (error_text e) ''same with a route''"
proof -
  obtain c where c: "client_of G c" "NewRouteClient ref_env (g_Cfg G) w = (Ok c, w)"
    using ref_NewRouteClient [OF assms(1)] .
  define msg where "msg = error_text (KopError 409 duplicate_message)"
  have "cidr \<in> rst_DestinationCIDR ` set (cl_routes w)"
    using assms(2) ref_table_None [of w cidr] by auto
  then obtain c1 where c1: "rc_CreateRoute ref_env (route_args G i cidr) (w, c) =
     (Err (ErrorString (''kop create route '' @ fmt_route_args (route_args G i cidr) @ '' err: '' @ msg)), (w, c1))"
    using ref_CreateRoute_duplicate [OF assms(1) c(1)] unfolding msg_def by metis
  have "str_contains msg ''same with a route''" unfolding msg_def by code_simp
  then have "str_contains (''Error createRoute: '' @ (''kop create route '' @ fmt_route_args (route_args G i cidr)
      @ '' err: '' @ msg) @ '' . '' @ newline) ''same with a route''"
    by (intro str_contains_right str_contains_left)
  then show ?thesis
    using c(2) c1 assms(3)
    by (simp add: CreateRoute_def on_res_def on_client_def lift_w_def fail_with_alarm_def raise_alarm_def)
qed

lemma ref_DeleteRoute:
  assumes "ref_up G w"
  shows "DeleteRoute ref_env G cidr w =
    (Ok (), case ref_table w cidr of None \<Rightarrow> w | Some r \<Rightarrow> without_route (rt_RouteId r) w)"
proof -
  obtain c where c: "client_of G c" "NewRouteClient ref_env (g_Cfg G) w = (Ok c, w)"
    using ref_NewRouteClient [OF assms] .
  have del: "on_client (rc_DeleteRoute ref_env rid) c w = (Ok (), without_route rid w)" for rid
  proof -
    obtain c' where "rc_DeleteRoute ref_env rid (w, c) = (Ok (), (without_route rid w, c'))"
      using ref_DeleteRoute_call [OF assms c(1)] .
    then show ?thesis by (rule on_client_Ok)
  qed
  then show ?thesis
    using c(2) ref_FindRoute [OF assms, of cidr]
    by (cases "ref_table w cidr") (simp_all add: DeleteRoute_def on_res_def)
qed

end
