(* ===== verification/Failing_Cloud.thy ===== *)
theory Failing_Cloud
  imports Reference_Cloud
begin

text \<open>
  The reference environment with a cloud that answers every request with one status other than success:
  what the API operations return then. It shows that the error paths of the controller can be reached.
\<close>

definition failing_env :: "int \<Rightarrow> string \<Rightarrow> AKSK \<Rightarrow> Cloud env" where
  "failing_env code msg keys = ref_env\<lparr>http_do := (\<lambda>rq w. (Ok \<lparr>rs_StatusCode = code, rs_Body = msg\<rparr>, w)),
     aksk_reload := (\<lambda>w. (Ok keys, w))\<rparr>"

lemma failing_env_simps [simp]:
  "http_do (failing_env code msg keys) = (\<lambda>rq w. (Ok \<lparr>rs_StatusCode = code, rs_Body = msg\<rparr>, w))"
  "aksk_reload (failing_env code msg keys) = (\<lambda>w. (Ok keys, w))"
  "aksk_get (failing_env code msg keys) = (\<lambda>w. (Ok ref_keys, w))"
  "new_request_error (failing_env code msg keys) = (\<lambda>m u. None)"
  "sign_request (failing_env code msg keys) = sign_request ref_env"
  "rand_int63 (failing_env code msg keys) = rand_int63 ref_env"
  "retry_do (failing_env code msg keys) = retry_do ref_env"
  "record_event (failing_env code msg keys) = record_event ref_env"
  "new_aggregate (failing_env code msg keys) = new_aggregate ref_env"
  by (simp_all add: failing_env_def)

lemma failing_documented: "retry_documented (failing_env code msg keys)"
  using ref_documented(2) by (simp add: retry_documented_def)

lemma failing_random: "random_loop (failing_env code msg keys) n cs w = random_loop ref_env n cs w"
  by (induction n arbitrary: w) (simp_all add: Let_def split: prod.splits)

lemma failing_request_id: "\<exists>i. genRequestId (failing_env code msg keys) kop w = (i, w)"
  using ref_request_id [of kop w] by (simp add: genRequestId_def random_String_def failing_random Let_def)

lemma failing_send:
  assumes "sendable kop" "code \<notin> {200, 201, 202, 204}"
  shows "send (failing_env code msg keys) kop w = (Err (KopError code msg), w)"
proof -
  let ?E = "failing_env code msg keys"
  obtain i where i: "genRequestId ?E kop w = (i, w)" using failing_request_id by blast
  obtain rq where m: "method_request ?E kop = Ok rq"
    using assms(1)
    by (auto simp: method_request_def new_request_def sendable_def POST_def UPDATE_def GET_def DELETE_def)
  obtain rq2 where s: "signed_request ?E kop rq w = (Ok rq2, w)"
    by (cases "kop_signer kop") (auto simp: signed_request_def new_request_def)
  show ?thesis using i m s assms(2) by (simp add: send_def on_res_def)
qed

lemma failing_Go:
  assumes "sendable kop" "code \<notin> {200, 201, 202, 204}"
  shows "Go (failing_env code msg keys) kop w = (Err (KopError code msg), w)"
  by (rule Go_first_attempt_Err [OF failing_documented failing_send [OF assms]]) simp

lemma failing_call:
  fixes c :: "'c ApiClient_scheme"
  assumes "code \<notin> {200, 201, 202, 204}" "\<not> str_contains (error_text (KopError code msg)) SecurityTokenExpired"
    and "plain_body body method" "distinct (map fst action)" "CHR ''?'' \<notin> set (cf_NetworkEndpoint (ac_conf c))"
  shows "call_api (failing_env code msg keys) server what action method body aksk (w, c) =
     (Err (ErrorString (''kop '' @ what @ '' err: '' @ error_text (KopError code msg))),
      (w, prepare (failing_env code msg keys) server action method body aksk c))"
proof -
  let ?E = "failing_env code msg keys"
  let ?c = "prepare ?E server action method body aksk c"
  have "Go ?E (ac_client ?c) w = (Err (KopError code msg), w)"
    by (rule failing_Go [OF prepare_client(1) [OF assms(3-5)] assms(1)])
  then show ?thesis
    using assms(2) by (simp add: call_api_def client_go_def lift_w_def on_res_def del: error_text.simps)
qed

lemma failing_DescribeVpcs:
  assumes "code \<notin> {200, 201, 202, 204}" "\<not> str_contains (error_text (KopError code msg)) SecurityTokenExpired"
    and "CHR ''?'' \<notin> set (cf_NetworkEndpoint (ac_conf c))"
  obtains e c' where "DescribeVpcs (failing_env code msg keys) (w, c) = (Err e, (w, c'))"
proof -
  let ?E = "failing_env code msg keys"
  let ?a = "[(''Action'', [''DescribeVpcs'']), (''Version'', [defaultVersion]), (''VpcId.1'', [cf_VpcID (ac_conf c)])]"
  have "\<exists>e c'. call_api ?E defaultServerName (''describe vpc '' @ cf_VpcID (ac_conf c)) ?a GET id ref_keys (w, c)
      = (Err e, (w, c'))"
    using failing_call [OF assms(1,2) plain_bodies(1) _ assms(3), of ?a keys] by auto
  then show thesis
    by (auto simp: DescribeVpcs_def with_aksk_def lift_w_def on_res_def Let_def simp del: append.simps intro: that)
qed

lemma failing_NewRouteClient:
  assumes "code \<notin> {200, 201, 202, 204}" "\<not> str_contains (error_text (KopError code msg)) SecurityTokenExpired"
    and "CHR ''?'' \<notin> set (cf_NetworkEndpoint cfg)"
  shows "\<exists>e. NewRouteClient (failing_env code msg keys) cfg w = (Err e, w)"
proof -
  let ?c = "\<lparr>ac_conf = with_endpoint cfg, ac_client = NewKopClient,
     ac_headers = [(''User-Agent'', ''vpc-route-controller''), (''Content-Type'', ''application/json''),
                   (''Accept'', ''application/json''), (''X-ProductTag-Source'', ''all'')], rc_productTag = ''''\<rparr>"
  have "CHR ''?'' \<notin> set (cf_NetworkEndpoint (ac_conf ?c))"
    using assms(3) by (auto simp: with_endpoint_def DefaultNetworkEndpoint_def)
  then obtain e c' where "DescribeVpcs (failing_env code msg keys) (w, ?c) = (Err e, (w, c'))"
    by (rule failing_DescribeVpcs [OF assms(1,2)])
  then show ?thesis by (simp add: NewRouteClient_def)
qed

lemma failing_FindRoute:
  assumes "code \<notin> {200, 201, 202, 204}" "\<not> str_contains (error_text (KopError code msg)) SecurityTokenExpired"
    and "CHR ''?'' \<notin> set (cf_NetworkEndpoint (g_Cfg G))"
  shows "\<exists>e. FindRoute (failing_env code msg keys) G cidr w = (Err e, w)"
  using failing_NewRouteClient [OF assms, of keys w] by (auto simp: FindRoute_def on_res_def)

end
