(* ===== verification/Route_Manager.thy ===== *)
theory Route_Manager
  imports Ksyun_Api Net_Facts
begin

text \<open>
  The pure part of \<open>pkg/controller/route/manager.go\<close> (which nodes need a route, which CIDR and instance a
  node has, which routes conflict with the nodes), its cloud operations \<open>createRouteForInstance\<close>,
  \<open>deleteRouteForInstance\<close> and \<open>findRoute\<close>, and \<open>pkg/controller/helper/event.go\<close>. The mutex around the two
  cloud operations makes each atomic; the model runs each as one effect.
\<close>

section \<open>Nodes\<close>

definition NodeReady :: string where "NodeReady = ''Ready''"
definition NodeNetworkUnavailable :: string where "NodeNetworkUnavailable = ''NetworkUnavailable''"
definition ConditionTrue :: string where "ConditionTrue = ''True''"
definition ConditionFalse :: string where "ConditionFalse = ''False''"
definition ConditionUnknown :: string where "ConditionUnknown = ''Unknown''"

definition needSyncRoute :: "Node \<Rightarrow> bool" where
  "needSyncRoute node =
     (if HasExcludeLabel node then False
      else
        (let (readyCondition, ok) = FindCondition (nd_Conditions node) NodeReady in
         if ok \<and> c_Status readyCondition = ConditionUnknown then False
         else if nd_DeletionTimestamp node \<noteq> None then False
         else True))"

text \<open>The loop over \<open>append(node.Spec.PodCIDRs, node.Spec.PodCIDR)\<close>: what was parsed last.\<close>

fun ipv4_route_loop :: "string list \<Rightarrow> IPNet option \<Rightarrow> string \<Rightarrow> (IPNet option \<times> string) res" where
  "ipv4_route_loop [] ipv4CIDR ipv4CIDRStr = Ok (ipv4CIDR, ipv4CIDRStr)"
| "ipv4_route_loop (podCidr # rest) ipv4CIDR ipv4CIDRStr =
     (if podCidr \<noteq> '''' then
        (case ParseCIDR podCidr of
           Ok (_, net) \<Rightarrow>
             (if length (ipn_Mask net) = 4 then Ok (Some net, IPNet_String net)
              else ipv4_route_loop rest (Some net) (IPNet_String net))
         | Err e \<Rightarrow> Err (ErrorString (''invalid pod cidr on node spec: '' @ podCidr))
         | Panic p \<Rightarrow> Panic p)
      else ipv4_route_loop rest ipv4CIDR ipv4CIDRStr)"

definition getIPv4RouteForNode :: "Node \<Rightarrow> (IPNet option \<times> string) res" where
  "getIPv4RouteForNode node = ipv4_route_loop (nd_PodCIDRs node @ [nd_PodCIDR node]) None ''''"

definition getNodeInstanceId :: "Node \<Rightarrow> string" where
  "getNodeInstanceId node =
     (case map_get (nd_Annotations node) ''appengine.sdns.ksyun.com/instance-uuid'' of
        Some v \<Rightarrow> v
      | None \<Rightarrow>
          (case map_get (nd_Annotations node) ''kce.sdns.ksyun.com/instanceId'' of
             Some v \<Rightarrow> v
           | None \<Rightarrow> if nd_ProviderID node \<noteq> '''' then nd_ProviderID node else ''''))"

section \<open>Conflicts\<close>

text \<open>The last address of the route's network.\<close>

definition last_ip :: "IPNet \<Rightarrow> ip" where
  "last_ip cidr = map2 (\<lambda>a m. a OR NOT m) (ipn_IP cidr) (ipn_Mask cidr)"

definition containsRoute :: "IPNet option \<Rightarrow> string \<Rightarrow> (bool \<times> bool) res" where
  "containsRoute outside insideRoute =
     (case outside of
        None \<Rightarrow> Ok (True, True)
      | Some outs \<Rightarrow>
          (case ParseCIDR insideRoute of
             Err e \<Rightarrow> Err (ErrorString (''ignoring route '' @ insideRoute @ '', unparsable CIDR: '' @ error_text e))
           | Panic p \<Rightarrow> Panic p
           | Ok (_, cidr) \<Rightarrow>
               if IPNet_String outs = insideRoute then Ok (True, False)
               else if \<not> IPNet_Contains outs (ipn_IP cidr) \<or> \<not> IPNet_Contains outs (last_ip cidr)
               then Ok (False, False)
               else Ok (True, True)))"

fun conflictWithNodes :: "Route \<Rightarrow> Node list \<Rightarrow> bool" where
  "conflictWithNodes route [] = False"
| "conflictWithNodes route (node # nodes) =
     (case getIPv4RouteForNode node of
        Ok (ipv4Cidr, _) \<Rightarrow>
          (if ipv4Cidr = None then conflictWithNodes route nodes
           else (case containsRoute ipv4Cidr (rt_DestinationCIDR route) of
                   Ok (equal, contains) \<Rightarrow>
                     (if contains \<or> (equal \<and> rt_InstanceId route \<noteq> getNodeInstanceId node) then True
                      else conflictWithNodes route nodes)
                 | _ \<Rightarrow> conflictWithNodes route nodes))
      | _ \<Rightarrow> conflictWithNodes route nodes)"

section \<open>Finding, creating and deleting a route\<close>

definition findRoute :: "'w env \<Rightarrow> Globals \<Rightarrow> string \<Rightarrow> Route list \<Rightarrow> ('w, Route option) eff" where
  "findRoute E G cidr cachedRoutes w =
     (if cidr = '''' then (Err (ErrorString ''empty query condition''), w)
      else if length cachedRoutes \<noteq> 0 then
        (Ok (find (\<lambda>route. rt_DestinationCIDR route = cidr) cachedRoutes), w)
      else FindRoute E G cidr w)"

definition createBackoff :: Backoff where
  "createBackoff = \<lparr>bo_Duration = 5000000000, bo_FactorMilli = 2000, bo_JitterMilli = 1000,
     bo_Steps = 3, bo_Cap = 0\<rparr>"

definition same_with_a_route :: string where "same_with_a_route = ''same with a route''"

text \<open>
  The condition function: its state is the world and the captured variable \<open>route\<close>, which
  \<open>route, findErr = ksyun.FindRoute(...)\<close> assigns also when the call fails.
\<close>

definition create_condition :: "'w env \<Rightarrow> Globals \<Rightarrow> string \<Rightarrow> string \<Rightarrow> ('w \<times> Route option, bool) eff" where
  "create_condition E G instanceId cidr =
     on_res (lift_w (CreateRoute E G instanceId cidr))
       (\<lambda>_ s. (Ok True, s))
       (\<lambda>innerErr s.
          if str_contains (error_text innerErr) same_with_a_route then
            on_res (lift_w (FindRoute E G cidr))
              (\<lambda>found s. if found \<noteq> None then (Ok True, (fst s, found)) else (Err innerErr, (fst s, None)))
              (\<lambda>findErr s. (Err innerErr, (fst s, None))) s
          else (Ok False, s))"

definition createRouteForInstance :: "'w env \<Rightarrow> Globals \<Rightarrow> string \<Rightarrow> string \<Rightarrow> ('w, Route option) eff" where
  "createRouteForInstance E G instanceId cidr w =
     (case exp_backoff E createBackoff (create_condition E G instanceId cidr) (w, None) of
        (Err err, (w', route)) \<Rightarrow>
          (Err (ErrorString (''error create route for node '' @ instanceId @ '', err: '' @ error_text err)), w')
      | (Panic p, (w', route)) \<Rightarrow> (Panic p, w')
      | (Ok _, (w', route)) \<Rightarrow>
          (case route of
             Some r \<Rightarrow> (Ok (Some r), w')
           | None \<Rightarrow>
               on_res (FindRoute E G cidr) (\<lambda>found w. (Ok found, w)) (\<lambda>_ w. (Ok None, w)) w'))"

definition deleteRouteForInstance :: "'w env \<Rightarrow> Globals \<Rightarrow> string \<Rightarrow> ('w, unit) eff" where
  "deleteRouteForInstance E G cidr = DeleteRoute E G cidr"

section \<open>Event messages\<close>

text \<open>
  \<open>GetLogMessage\<close> keeps the match of \<open>.*(Message:.*)\<close>: on the first line with \<open>Message:\<close>, what starts at
  its last occurrence (\<open>.\<close> matches no newline, \<open>*\<close> is greedy).
\<close>

fun split_lines :: "string \<Rightarrow> string list" where
  "split_lines [] = [[]]"
| "split_lines (c # cs) =
     (if c = CHR 0x0A then [] # split_lines cs
      else (case split_lines cs of l # ls \<Rightarrow> (c # l) # ls | [] \<Rightarrow> [[c]]))"

fun last_message :: "string \<Rightarrow> string option" where
  "last_message [] = None"
| "last_message (c # cs) =
     (case last_message cs of
        Some m \<Rightarrow> Some m
      | None \<Rightarrow> if take 8 (c # cs) = ''Message:'' then Some (c # cs) else None)"

definition GetLogMessage :: "gerror option \<Rightarrow> string" where
  "GetLogMessage err =
     (case err of
        None \<Rightarrow> ''''
      | Some e \<Rightarrow>
          (case List.map_filter last_message (split_lines (error_text e)) of
             m # _ \<Rightarrow> m
           | [] \<Rightarrow> error_text e))"

section \<open>Facts\<close>

lemma To4_16: "length p = 16 \<Longrightarrow> To4 p \<noteq> [] \<Longrightarrow> To4 p = drop 12 p"
  by (auto simp: To4_def split: if_splits)

lemma To4_4: "length p = 4 \<Longrightarrow> To4 p = p"
  by (simp add: To4_def)

lemma contains_length:
  "IPNet_Contains n x \<Longrightarrow> length (norm_ip x) = length (fst (networkNumberAndMask n))"
  by (auto simp: IPNet_Contains_def norm_ip_def Let_def split: prod.splits if_splits)

lemma drop_map2: "drop n (map2 f xs ys) = map2 f (drop n xs) (drop n ys)"
  by (simp add: drop_map drop_zip)

text \<open>The ends of masked bytes, as numbers.\<close>

lemma masked_ends:
  assumes "length q = l" "k \<le> 8 * l" "m = mask_bytes l k" "p = map2 (AND) q m"
  shows "num p = num p div 2 ^ (8 * l - k) * 2 ^ (8 * l - k)"
    and "num (map2 (\<lambda>a m. a OR NOT m) p m) = num p div 2 ^ (8 * l - k) * 2 ^ (8 * l - k) + 2 ^ (8 * l - k) - 1"
proof -
  have lp: "length p = l" and idem: "map2 (AND) p m = p"
    using assms by (simp_all add: map2_and_idem)
  show *: "num p = num p div 2 ^ (8 * l - k) * 2 ^ (8 * l - k)"
    using num_and_mask [OF lp assms(2)] idem assms(3) by simp
  have "num (map2 (\<lambda>a m. a OR NOT m) p m) = num p + (2 ^ (8 * l - k) - 1)"
    using num_or_not [of p m] lp idem num_not_mask [OF assms(2)] assms(3) by simp
  then show "num (map2 (\<lambda>a m. a OR NOT m) p m)
      = num p div 2 ^ (8 * l - k) * 2 ^ (8 * l - k) + 2 ^ (8 * l - k) - 1"
    using * by simp
qed

lemma ParseCIDR_ends:
  assumes "ParseCIDR s = Ok (ip, n)" "IPNet_Contains outs (ipn_IP n)" "IPNet_Contains outs (last_ip n)"
  shows "ip_num (ipn_IP n) = net_num n div 2 ^ net_hostbits n * 2 ^ net_hostbits n"
    and "ip_num (last_ip n) = net_num n div 2 ^ net_hostbits n * 2 ^ net_hostbits n + 2 ^ net_hostbits n - 1"
proof -
  have len: "length (norm_ip (ipn_IP n)) = length (norm_ip (last_ip n))"
    using assms(2,3) by (simp add: contains_length)
  have "ip_num (ipn_IP n) = net_num n div 2 ^ net_hostbits n * 2 ^ net_hostbits n \<and>
    ip_num (last_ip n) = net_num n div 2 ^ net_hostbits n * 2 ^ net_hostbits n + 2 ^ net_hostbits n - 1"
    using assms(1)
  proof (cases rule: ParseCIDR_OkE)
    case (v4 q k)
    define p where "p = map2 (AND) q (mask_bytes 4 k)"
    note e = masked_ends [OF v4(1) _ refl p_def]
    have "length p = 4" "p \<noteq> []" using v4 by (simp_all add: p_def flip: length_greater_0_conv)
    then have "ip_num (ipn_IP n) = num p" "net_num n = num p" "net_hostbits n = 8 * 4 - k"
      "ip_num (last_ip n) = num (map2 (\<lambda>a m. a OR NOT m) p (mask_bytes 4 k))"
      using v4 simpleMaskLength_mask_bytes [of k 4]
      by (simp_all add: ip_num_def net_num_def net_hostbits_def norm_ip_def networkNumberAndMask_def
          To4_4 last_ip_def Let_def flip: p_def)
    then show ?thesis using e v4(2) by (simp only:)
  next
    case (v6 k)
    define p where "p = map2 (AND) ip (mask_bytes 16 k)"
    have n: "n = \<lparr>ipn_IP = p, ipn_Mask = mask_bytes 16 k\<rparr>" and p: "length p = 16"
      using v6 by (simp_all add: p_def)
    define q where "q = map2 (\<lambda>a m. a OR NOT m) p (mask_bytes 16 k)"
    have q: "last_ip n = q" "length q = 16" using n p by (simp_all add: last_ip_def q_def)
    show ?thesis
    proof (cases "To4 p = []")
      case True
      then have "To4 q = []"
        using len To4_length [of q] n p q by (auto simp: norm_ip_def split: if_splits)
      with True have "ip_num (ipn_IP n) = num p" "net_num n = num p" "net_hostbits n = 8 * 16 - k"
        "ip_num (last_ip n) = num q"
        using n p q v6(2) simpleMaskLength_mask_bytes [of k 16]
        by (simp_all add: ip_num_def net_num_def net_hostbits_def norm_ip_def networkNumberAndMask_def Let_def)
      then show ?thesis
        using masked_ends [OF v6(1) _ refl p_def] v6(2) by (simp only: q_def)
    next
      case False
      then have F: "To4 q \<noteq> []"
        using len To4_length [of p] n p q by (auto simp: norm_ip_def split: if_splits)
      have 4: "To4 p = drop 12 p" "To4 q = drop 12 q"
        using To4_16 [OF p False] To4_16 [OF q(2) F] .
      have nn: "networkNumberAndMask n = (drop 12 p, mask_bytes 4 (k - 96))"
        unfolding networkNumberAndMask_def n 4 Let_def IPNet.select_convs
        using p by (simp add: drop_mask_bytes)
      have "ip_num (ipn_IP n) = num (drop 12 p)" "ip_num (last_ip n) = num (drop 12 q)"
        using False F 4 unfolding ip_num_def norm_ip_def q(1) by (simp_all add: n)
      moreover have "net_num n = num (drop 12 p)" "net_hostbits n = 8 * 4 - (k - 96)"
        using p v6(2) simpleMaskLength_mask_bytes [of "k - 96" 4]
        by (simp_all add: net_num_def net_hostbits_def nn)
      moreover have "drop 12 q = map2 (\<lambda>a m. a OR NOT m) (drop 12 p) (mask_bytes 4 (k - 96))"
        "drop 12 p = map2 (AND) (drop 12 ip) (mask_bytes 4 (k - 96))"
        by (simp_all add: p_def q_def drop_map2 drop_mask_bytes)
      ultimately show ?thesis
        using masked_ends [of "drop 12 ip" 4 "k - 96" "mask_bytes 4 (k - 96)" "drop 12 p"] v6 
        by (simp only:) simp
    qed
  qed
  then show "ip_num (ipn_IP n) = net_num n div 2 ^ net_hostbits n * 2 ^ net_hostbits n"
    "ip_num (last_ip n) = net_num n div 2 ^ net_hostbits n * 2 ^ net_hostbits n + 2 ^ net_hostbits n - 1"
    by simp_all
qed


lemma ParseCIDR_nn:
  assumes "ParseCIDR s = Ok (ip, n)"
  shows "fst (networkNumberAndMask n) = norm_ip (ipn_IP n)"
  using assms
proof (cases rule: ParseCIDR_OkE)
  case (v4 q k)
  then show ?thesis by (simp add: networkNumberAndMask_def norm_ip_def Let_def To4_def)
next
  case (v6 k)
  then show ?thesis
    using To4_length [of "ipn_IP n"] by (auto simp: networkNumberAndMask_def norm_ip_def Let_def)
qed

lemma containsRoute_real:
  assumes "containsRoute (Some outs) r = Ok (True, True)"
  obtains ip n where "ParseCIDR r = Ok (ip, n)" "IPNet_Contains outs (ipn_IP n)" "IPNet_Contains outs (last_ip n)"
  using assms by (auto simp: containsRoute_def split: res.splits if_splits)

lemma ipv4_route_loop_sound:
  "ipv4_route_loop ps net0 s0 = Ok (net, s) \<Longrightarrow> (net = net0 \<and> s = s0) \<or>
   (\<exists>n podCidr ip. net = Some n \<and> podCidr \<in> set ps \<and> ParseCIDR podCidr = Ok (ip, n) \<and> s = IPNet_String n)"
  by (induction ps net0 s0 rule: ipv4_route_loop.induct) (fastforce split: if_splits res.splits prod.splits)+

lemma getIPv4RouteForNode_parsed:
  assumes "getIPv4RouteForNode node = Ok (Some net, s)"
  obtains podCidr ip where "podCidr \<in> set (nd_PodCIDRs node @ [nd_PodCIDR node])"
    "ParseCIDR podCidr = Ok (ip, net)" "s = IPNet_String net"
  using ipv4_route_loop_sound [of "nd_PodCIDRs node @ [nd_PodCIDR node]" None "''''" "Some net" s] assms
  by (auto simp: getIPv4RouteForNode_def)

lemma ipv4_route_loop_skip:
  "list_all (\<lambda>d. d = '''' \<or> (\<exists>ip m. ParseCIDR d = Ok (ip, m) \<and> length (ipn_Mask m) \<noteq> 4)) before \<Longrightarrow>
   \<exists>net' s'. ipv4_route_loop (before @ rest) net s = ipv4_route_loop rest net' s'"
  by (induction before arbitrary: net s) (auto simp del: split_paired_Ex)

lemma ParseCIDR_nonempty: "ParseCIDR c = Ok r \<Longrightarrow> c \<noteq> ''''"
  by (auto simp: ParseCIDR_def)

lemma ipv4_route_loop_v4:
  assumes "ParseCIDR c = Ok (ip, n)" "length (ipn_Mask n) = 4"
    and "list_all (\<lambda>d. d = '''' \<or> (\<exists>ip m. ParseCIDR d = Ok (ip, m) \<and> length (ipn_Mask m) \<noteq> 4)) before"
  shows "ipv4_route_loop (before @ c # rest) net s = Ok (Some n, IPNet_String n)"
proof -
  obtain net' s' where "ipv4_route_loop (before @ c # rest) net s = ipv4_route_loop (c # rest) net' s'"
    using ipv4_route_loop_skip [OF assms(3)] by blast
  then show ?thesis using assms ParseCIDR_nonempty [OF assms(1)] by simp
qed

lemma ipv4_route_loop_last:
  assumes "ParseCIDR c = Ok (ip, n)" "length (ipn_Mask n) = 16"
    and "list_all (\<lambda>d. d = '''' \<or> (\<exists>ip m. ParseCIDR d = Ok (ip, m) \<and> length (ipn_Mask m) \<noteq> 4)) before"
  shows "ipv4_route_loop (before @ [c]) net s = Ok (Some n, IPNet_String n)"
proof -
  obtain net' s' where "ipv4_route_loop (before @ [c]) net s = ipv4_route_loop [c] net' s'"
    using ipv4_route_loop_skip [OF assms(3)] by blast
  then show ?thesis using assms ParseCIDR_nonempty [OF assms(1)] by simp
qed

lemma own_string:
  assumes "getIPv4RouteForNode node = Ok (Some n, s)" "length (ipn_Mask n) = 4"
  shows "IPNet_String n = s" "\<exists>ip. ParseCIDR s = Ok (ip, n)" "s \<noteq> ''''"
    "containsRoute (Some n) s = Ok (True, False)"
proof -
  obtain p ip where p: "ParseCIDR p = Ok (ip, n)" and s: "s = IPNet_String n"
    using assms(1) by (rule getIPv4RouteForNode_parsed)
  then obtain ip' where r: "ParseCIDR s = Ok (ip', n)"
    using ParseCIDR_IPNet_String_v4 ParseCIDR_canonical_v4 assms(2) by blast
  then show "IPNet_String n = s" "\<exists>ip. ParseCIDR s = Ok (ip, n)" "s \<noteq> ''''"
    "containsRoute (Some n) s = Ok (True, False)"
    using s ParseCIDR_nonempty [OF r] by (simp_all add: containsRoute_def)
qed

lemma contains_own: "ParseCIDR s = Ok (ip, n) \<Longrightarrow> IPNet_Contains n (ipn_IP n)"
  using ParseCIDR_nn [of s ip n]
  by (auto simp: IPNet_Contains_def norm_ip_def Let_def list_all2_same split: prod.splits if_splits)

text \<open>The route of one node, seen by another whose network does not hold its address.\<close>

lemma other_string:
  assumes "getIPv4RouteForNode node = Ok (Some n, s)" "length (ipn_Mask n) = 4"
    and "getIPv4RouteForNode m = Ok (Some k, t)" "length (ipn_Mask k) = 4" "\<not> IPNet_Contains k (ipn_IP n)"
  shows "containsRoute (Some k) s = Ok (False, False)"
proof -
  obtain ip where s: "ParseCIDR s = Ok (ip, n)" using own_string [OF assms(1,2)] by blast
  obtain ip' where k: "ParseCIDR (IPNet_String k) = Ok (ip', k)" using own_string [OF assms(3,4)] by blast
  have "IPNet_String k \<noteq> s"
    using k s assms(5) contains_own [OF s] by auto
  then show ?thesis using s assms(5) by (simp add: containsRoute_def)
qed

text \<open>
  A node is apart from a network when it has no network of its own, or an IPv4 network that does not hold
  the address of the other. No such node makes a node's own route conflict.
\<close>

definition apart :: "IPNet \<Rightarrow> Node \<Rightarrow> bool" where
  "apart n m =
     (case getIPv4RouteForNode m of
        Ok (Some k, _) \<Rightarrow> length (ipn_Mask k) = 4 \<and> \<not> IPNet_Contains k (ipn_IP n)
      | _ \<Rightarrow> True)"

lemma own_routes_safe:
  assumes "getIPv4RouteForNode node = Ok (Some n, s)" "length (ipn_Mask n) = 4" "rt_DestinationCIDR r = s"
    and "list_all (\<lambda>m. getIPv4RouteForNode m = Ok (Some n, s) \<and> getNodeInstanceId m = rt_InstanceId r \<or> apart n m) nodes"
  shows "\<not> conflictWithNodes r nodes"
  using assms(4)
proof (induction nodes)
  case (Cons m nodes)
  then have IH: "\<not> conflictWithNodes r nodes" by simp
  from Cons.prems consider
      (same) "getIPv4RouteForNode m = Ok (Some n, s)" "getNodeInstanceId m = rt_InstanceId r"
    | (other) k t where "apart n m" "getIPv4RouteForNode m = Ok (Some k, t)"
    | (none) "\<nexists>k t. getIPv4RouteForNode m = Ok (Some k, t)" by auto
  then show ?case
  proof cases
    case same
    then show ?thesis using IH assms(3) own_string(4) [OF assms(1,2)] by simp
  next
    case (other k t)
    then have "length (ipn_Mask k) = 4" "\<not> IPNet_Contains k (ipn_IP n)" by (simp_all add: apart_def)
    then have "containsRoute (Some k) s = Ok (False, False)"
      using other_string [OF assms(1,2) other(2)] by blast
    then show ?thesis using IH assms(3) other(2) by simp
  next
    case none
    then show ?thesis using IH by (auto split: res.splits)
  qed
qed simp

lemma own_route_safe:
  assumes "getIPv4RouteForNode node = Ok (Some n, s)" "length (ipn_Mask n) = 4"
    and "rt_DestinationCIDR r = s" "rt_InstanceId r = getNodeInstanceId node"
    and "list_all (\<lambda>m. m = node \<or> apart n m) nodes"
  shows "\<not> conflictWithNodes r nodes"
  by (rule own_routes_safe [OF assms(1-3)]) (use assms(1,4,5) in \<open>auto simp: list_all_iff\<close>)

text \<open>A route for the CIDR of a listed node that points elsewhere conflicts, whatever the other nodes are.\<close>

lemma own_wrong_conflicts:
  assumes "getIPv4RouteForNode node = Ok (Some n, s)" "length (ipn_Mask n) = 4" "node \<in> set nodes"
    and "rt_DestinationCIDR r = s" "rt_InstanceId r \<noteq> getNodeInstanceId node"
  shows "conflictWithNodes r nodes"
  using assms(3) assms(1,2,4,5) own_string [OF assms(1,2)]
  by (induction nodes) (auto split: res.splits)

text \<open>A node that is apart has another CIDR.\<close>

lemma apart_other_cidr:
  assumes "getIPv4RouteForNode node = Ok (Some n, s)" "length (ipn_Mask n) = 4" "apart n m"
  shows "getIPv4RouteForNode m \<noteq> Ok (k, s)"
proof
  assume m: "getIPv4RouteForNode m = Ok (k, s)"
  have "s \<noteq> ''''" using own_string(3) [OF assms(1,2)] .
  then obtain k' where k: "k = Some k'"
    using m ipv4_route_loop_sound [of "nd_PodCIDRs m @ [nd_PodCIDR m]" None "''''" k s]
    by (auto simp: getIPv4RouteForNode_def)
  then have "length (ipn_Mask k') = 4" "\<not> IPNet_Contains k' (ipn_IP n)" using assms(3) m by (simp_all add: apart_def)
  then have "containsRoute (Some k') s = Ok (False, False)" "containsRoute (Some k') s = Ok (True, False)"
    using other_string [OF assms(1,2)] own_string(4) m k by blast+
  then show False by simp
qed

text \<open>Cutting a message.\<close>

lemma split_lines_none: "CHR 0x0A \<notin> set s \<Longrightarrow> split_lines s = [s]"
  by (induction s) auto

lemma last_message_none: "\<not> str_contains s ''Message:'' \<Longrightarrow> last_message s = None"
proof (induction s)
  case (Cons c cs)
  have "take 8 (c # cs) \<noteq> ''Message:''"
  proof
    assume "take 8 (c # cs) = ''Message:''"
    then have "c # cs = ''Message:'' @ drop 8 (c # cs)" by (metis append_take_drop_id)
    then show False using Cons.prems unfolding sublist_def by (metis append_Nil)
  qed
  moreover have "\<not> str_contains cs ''Message:''" using Cons.prems by (meson str_contains_Cons)
  ultimately show ?case using Cons.IH by simp
qed simp

lemma last_message_found:
  "last_message t = None \<Longrightarrow> last_message (s @ ''Message:'' @ t) = Some (''Message:'' @ t)"
  by (induction s) (simp_all add: eval_nat_numeral)

section \<open>A concrete network, for the witnesses\<close>

definition ten_net :: IPNet where
  "ten_net = \<lparr>ipn_IP = [10, 0, 0, 0], ipn_Mask = [255, 0, 0, 0]\<rparr>"

definition ten_one_net :: IPNet where
  "ten_one_net = \<lparr>ipn_IP = [10, 1, 0, 0], ipn_Mask = [255, 255, 0, 0]\<rparr>"

definition ten_node :: Node where
  "ten_node = empty_node\<lparr>nd_Name := ''n1'', nd_PodCIDR := ''10.0.0.0/8'', nd_ProviderID := ''i-1''\<rparr>"

lemma ten_net_string: "IPNet_String ten_net = ''10.0.0.0/8''"
proof -
  have "simpleMaskLength [255, 0, 0, 0] = Some 8" by code_simp
  then show ?thesis
    by (simp add: ten_net_def IPNet_String_def networkNumberAndMask_def To4_def IP_String_def dotted_def
        dec_eval del: simpleMaskLength.simps)
qed

lemma parse_ten:
  "ParseCIDR ''10.0.0.0/8'' = Ok (IPv4 10 0 0 0, ten_net)"
  "ParseCIDR ''10.1.0.0/16'' = Ok (IPv4 10 1 0 0, ten_one_net)"
proof -
  have "mask_bytes 4 8 = [255, 0, 0, 0]" "mask_bytes 4 16 = [255, 255, 0, 0]" by code_simp+
  then show "ParseCIDR ''10.0.0.0/8'' = Ok (IPv4 10 0 0 0, ten_net)"
    "ParseCIDR ''10.1.0.0/16'' = Ok (IPv4 10 1 0 0, ten_one_net)"
    using ParseCIDR_dotted [of 8 10 0 0 0] ParseCIDR_dotted [of 16 10 1 0 0]
    by (simp_all add: dotted_def dec_eval ten_net_def ten_one_net_def)
qed

lemma ten_mask [simp]: "length (ipn_Mask ten_net) = 4"
  by (simp add: ten_net_def)

lemma ten_node_net: "getIPv4RouteForNode ten_node = Ok (Some ten_net, ''10.0.0.0/8'')"
  by (simp add: getIPv4RouteForNode_def ten_node_def empty_node_def parse_ten ten_net_string)

lemma ten_contains_ten_one: "containsRoute (Some ten_net) ''10.1.0.0/16'' = Ok (True, True)"
proof -
  have "IPNet_Contains ten_net (ipn_IP ten_one_net)" "IPNet_Contains ten_net (last_ip ten_one_net)"
    by code_simp+
  then show ?thesis by (simp add: containsRoute_def ten_net_string parse_ten)
qed

lemma parse_v6:
  "ParseCIDR ''::/0'' = Ok (replicate 16 0, \<lparr>ipn_IP = replicate 16 0, ipn_Mask = replicate 16 0\<rparr>)"
proof -
  have "parseIPv4 ''::'' = None" "CIDRMask 0 128 = replicate 16 0"
    "IP_Mask (replicate 16 0) (replicate 16 0) = replicate 16 0"
    by code_simp+
  moreover have "parseIPv6 ''::'' = Some (replicate 16 0)" by (simp add: parseIPv6_def)
  moreover have "dtoi ''0'' = Some (0, 1)" using dtoi_dec [of 0 "[]"] by (simp add: dec_eval big_def)
  ultimately show ?thesis by (simp add: ParseCIDR_def Let_def)
qed

section \<open>Properties\<close>

text \<open>
  C12 A route that \<open>containsRoute\<close> reports as really contained lies inside the node's pod network: every
  address of the route's CIDR is an address of the network, although the code only compares the first
  and the last one.
\<close>

theorem contained_route_covers:
  assumes "getIPv4RouteForNode node = Ok (Some outs, t)"
    and "containsRoute (Some outs) r = Ok (True, True)"
    and "ParseCIDR r = Ok (ip, n)" "IPNet_Contains n x"
  shows "IPNet_Contains outs x"
proof -
  from assms(2,3) have ends: "IPNet_Contains outs (ipn_IP n)" "IPNet_Contains outs (last_ip n)"
    by (auto elim: containsRoute_real)
  obtain p ip' where outs: "ParseCIDR p = Ok (ip', outs)"
    using assms(1) by (rule getIPv4RouteForNode_parsed)
  have len: "length (norm_ip (ipn_IP n)) = length (fst (networkNumberAndMask outs))"
    "length (norm_ip (last_ip n)) = length (fst (networkNumberAndMask outs))"
    "length (norm_ip x) = length (fst (networkNumberAndMask n))"
    using ends assms(4) by (simp_all add: contains_length)
  note c = ParseCIDR_contiguous [OF outs] ParseCIDR_contiguous [OF assms(3)]
  show ?thesis
    using ends ParseCIDR_ends [OF assms(3) ends] assms(4) len ParseCIDR_nn [OF assms(3)] c
    by (intro net.mem_all_of_ends [of outs "ipn_IP n" "last_ip n" n x]) (simp_all add: net_fits_def)
qed

theorem contained_route_covers_witness: "IPNet_Contains ten_net [10, 1, 2, 3]"
proof (rule contained_route_covers [OF ten_node_net ten_contains_ten_one parse_ten(2)])
  show "IPNet_Contains ten_one_net [10, 1, 2, 3]" by code_simp
qed

text \<open>
  C13 When \<open>getIPv4RouteForNode\<close> answers with an IPv4 network, its string is the canonical text of that
  network: it is not empty, parses back to the same network, and \<open>containsRoute\<close> recognises it as the
  node's own route (equal, not contained).
\<close>

theorem getIPv4RouteForNode_canonical:
  assumes "getIPv4RouteForNode node = Ok (Some n, s)" "length (ipn_Mask n) = 4"
  shows "s = IPNet_String n \<and> canonical_v4 n \<and> (\<exists>ip. ParseCIDR s = Ok (ip, n)) \<and>
         s \<noteq> '''' \<and> containsRoute (Some n) s = Ok (True, False)"
proof -
  have "canonical_v4 n" using assms by (elim getIPv4RouteForNode_parsed) (rule ParseCIDR_canonical_v4)
  then show ?thesis using own_string [OF assms] by simp
qed

theorem getIPv4RouteForNode_canonical_witness:
  "containsRoute (Some ten_net) ''10.0.0.0/8'' = Ok (True, False)"
  by (rule getIPv4RouteForNode_canonical [OF ten_node_net ten_mask, THEN conjunct2, THEN conjunct2,
        THEN conjunct2, THEN conjunct2])

text \<open>
  \<open>getIPv4RouteForNode\<close> picks the first IPv4 entry of the node's pod CIDRs, skipping empty strings
  and IPv6 CIDRs before it; what follows that entry does not matter, not even when it is malformed.
\<close>

lemma getIPv4RouteForNode_first_v4:
  assumes "nd_PodCIDRs node @ [nd_PodCIDR node] = before @ c # rest"
    and "ParseCIDR c = Ok (ip, n)" "length (ipn_Mask n) = 4"
    and "list_all (\<lambda>d. d = '''' \<or> (\<exists>ip m. ParseCIDR d = Ok (ip, m) \<and> length (ipn_Mask m) \<noteq> 4)) before"
  shows "getIPv4RouteForNode node = Ok (Some n, IPNet_String n)"
  using assms ipv4_route_loop_v4 by (simp add: getIPv4RouteForNode_def)

text \<open>
  A node without an IPv4 CIDR is not left without a route: the function named for IPv4 answers with
  the last CIDR of the node, an IPv6 one.
\<close>

lemma getIPv4RouteForNode_only_v6:
  assumes "nd_PodCIDRs node @ [nd_PodCIDR node] = before @ [c]"
    and "ParseCIDR c = Ok (ip, n)" "length (ipn_Mask n) = 16"
    and "list_all (\<lambda>d. d = '''' \<or> (\<exists>ip m. ParseCIDR d = Ok (ip, m) \<and> length (ipn_Mask m) \<noteq> 4)) before"
  shows "getIPv4RouteForNode node = Ok (Some n, IPNet_String n)"
  using assms ipv4_route_loop_last by (simp add: getIPv4RouteForNode_def)

text \<open>
  The text of an event for a failed API call is the message of the answer: for an HTTP status error,
  \<open>GetLogMessage\<close> cuts the text before \<open>Message:\<close>, whatever the status code.
\<close>

lemma GetLogMessage_KopError:
  assumes "CHR 0x0A \<notin> set msg" "\<not> str_contains msg ''Message:''"
  shows "GetLogMessage (Some (KopError code msg)) = ''Message: '' @ msg"
proof -
  have nl: "CHR 0x0A \<notin> set (error_text (KopError code msg))"
    using assms(1) by (auto simp: dec_int_def dec_no_char is_digit_def)
  have "last_message (error_text (KopError code msg)) = Some (''Message: '' @ msg)"
    using last_message_found [of "'' '' @ msg" "''Kop Error: Status Code: '' @ dec_int code @ '' ''"]
      last_message_none [OF assms(2)] by simp
  then show ?thesis
    using split_lines_none [OF nl] by (simp add: GetLogMessage_def List.map_filter_def del: error_text.simps)
qed

end
