(* ===== verification/Node_Status.thy ===== *)
theory Node_Status
  imports Route_Manager
begin

text \<open>
  Patching a node's status: \<open>PatchM\<close> of \<open>pkg/controller/helper/node_utils.go\<close> and
  \<open>updateNetworkingCondition\<close> of \<open>pkg/controller/route/route_controller.go\<close>. \<open>PatchM\<close> reads the object into
  its target, so the node the caller holds is part of the state.
\<close>

definition PatchAll :: string where "PatchAll = ''all''"
definition PatchSpec :: string where "PatchSpec = ''spec''"
definition PatchStatus :: string where "PatchStatus = ''status''"

text \<open>\<open>fmt.Errorf(pre + "%s", err.Error())\<close>: the type of the error is lost.\<close>

definition wrap_err :: "string \<Rightarrow> gerror \<Rightarrow> gerror" where
  "wrap_err pre e = ErrorString (pre @ error_text e)"

definition pure_res :: "string \<Rightarrow> 'a res \<Rightarrow> ('s, 'a) eff" where
  "pure_res pre r s = (case r of Err e \<Rightarrow> (Err (wrap_err pre e), s) | r \<Rightarrow> (r, s))"

text \<open>The \<open>getter\<close> of the program reads the clock and cannot fail: an effect on the world.\<close>

definition PatchM ::
  "'w env \<Rightarrow> (Node \<Rightarrow> ('w, Node) eff) \<Rightarrow> string \<Rightarrow> ('w \<times> Node, unit) eff" where
  "PatchM E getter resource =
     on_res (\<lambda>s. lift_w (k_get E (nd_Name (snd s))) s)
       (\<lambda>target s.
          let s = (fst s, target) in
          on_res (lift_w (getter target))
            (\<lambda>ntarget. on_res (pure_res ''ensure marshal: '' (k_marshal E target))
              (\<lambda>oldData. on_res (pure_res ''ensure marshal: '' (k_marshal E ntarget))
                (\<lambda>newData. on_res (pure_res ''create merge patch: '' (k_merge_patch E oldData newData))
                  (\<lambda>patchBytes s.
                     if patchBytes = ''{}'' then (Ok (), s)
                     else
                       on_res (\<lambda>s. if resource = PatchSpec \<or> resource = PatchAll
                                   then lift_w (k_patch E ntarget patchBytes) s else (Ok (), s))
                         (\<lambda>_ s. if resource = PatchStatus \<or> resource = PatchAll
                                then lift_w (k_status_patch E ntarget patchBytes) s else (Ok (), s))
                         (\<lambda>err s. (Err (wrap_err ''patch spec: '' err), s)) s)
                  (\<lambda>err s. (Err err, s)))
                (\<lambda>err s. (Err err, s)))
              (\<lambda>err s. (Err err, s)))
            (\<lambda>err s. (Err (wrap_err ''get object diff patch: '' err), s)) s)
       (\<lambda>err s. (Err (wrap_err ''get origin object: '' err), s))"

section \<open>The networking condition\<close>

text \<open>
  What \<open>diff\<close> writes: through the pointer of \<open>FindCondition\<close> when the node has the condition, else into a
  new condition that is appended. \<open>t1\<close> and \<open>t2\<close> are the two readings of the clock.
\<close>

definition set_condition :: "bool \<Rightarrow> int \<Rightarrow> int \<Rightarrow> NodeCondition \<Rightarrow> NodeCondition" where
  "set_condition routeCreated t1 t2 condition =
     (let condition = condition\<lparr>c_Type := NodeNetworkUnavailable, c_LastTransitionTime := t1,
                                c_LastHeartbeatTime := t2\<rparr> in
      if routeCreated then
        condition\<lparr>c_Status := ConditionFalse, c_Reason := ''RouteCreated'',
                  c_Message := ''RouteController created a route''\<rparr>
      else
        condition\<lparr>c_Status := ConditionTrue, c_Reason := ''NoRouteCreated'',
                  c_Message := ''RouteController failed to create a route''\<rparr>)"

definition diff_conditions :: "bool \<Rightarrow> int \<Rightarrow> int \<Rightarrow> NodeCondition list \<Rightarrow> NodeCondition list" where
  "diff_conditions routeCreated t1 t2 conds =
     (case FindCondition_at conds NodeNetworkUnavailable of
        Some (i, condition) \<Rightarrow> conds[i := set_condition routeCreated t1 t2 condition]
      | None \<Rightarrow> conds @ [set_condition routeCreated t1 t2 zero_condition])"

definition network_diff :: "'w env \<Rightarrow> bool \<Rightarrow> Node \<Rightarrow> ('w, Node) eff" where
  "network_diff E routeCreated nins w =
     (let (t1, w1) = now E w; (t2, w2) = now E w1
      in (Ok (nins\<lparr>nd_Conditions := diff_conditions routeCreated t1 t2 (nd_Conditions nins)\<rparr>), w2))"

definition updateNodeStatusMaxRetries :: nat where "updateNodeStatusMaxRetries = 3"

text \<open>The loop, \<open>err\<close> the error of the last iteration; it is nil when there was none.\<close>

fun patch_loop :: "'w env \<Rightarrow> bool \<Rightarrow> nat \<Rightarrow> unit res \<Rightarrow> ('w \<times> Node, unit) eff" where
  "patch_loop E routeCreated 0 err s = (err, s)"
| "patch_loop E routeCreated (Suc n) err s =
     on_res (PatchM E (network_diff E routeCreated) PatchStatus)
       (\<lambda>_ s. (Ok (), s))
       (\<lambda>e s. if \<not> is_conflict E e then (Err e, s) else patch_loop E routeCreated n (Err e) s) s"

definition already_set :: "Node \<Rightarrow> bool \<Rightarrow> bool" where
  "already_set node routeCreated =
     (let (networkCondition, ok) = FindCondition (nd_Conditions node) NodeNetworkUnavailable in
      if routeCreated \<and> ok \<and> c_Status networkCondition = ConditionFalse then True
      else if \<not> routeCreated \<and> ok \<and> c_Status networkCondition = ConditionTrue then True
      else False)"

definition updateNetworkingCondition :: "'w env \<Rightarrow> bool \<Rightarrow> ('w \<times> Node, unit) eff" where
  "updateNetworkingCondition E routeCreated s =
     (if already_set (snd s) routeCreated then (Ok (), s)
      else patch_loop E routeCreated updateNodeStatusMaxRetries (Ok ()) s)"

section \<open>Facts\<close>

lemma set_condition_fields [simp]:
  "c_Type (set_condition b t1 t2 c) = NodeNetworkUnavailable"
  "c_LastHeartbeatTime (set_condition b t1 t2 c) = t2"
  "c_Status (set_condition b t1 t2 c) = (if b then ConditionFalse else ConditionTrue)"
  by (simp_all add: set_condition_def Let_def)

lemma latest_of_update:
  assumes "latest_of conds t (Some (i, c))" "c_Type d = t" "c_LastHeartbeatTime c \<le> c_LastHeartbeatTime d"
  shows "latest_of (conds[i := d]) t (Some (i, d))"
  using assms unfolding latest_of_def
  by (auto simp: nth_list_update)

lemma latest_of_append:
  assumes "latest_of conds t None" "c_Type d = t"
  shows "latest_of (conds @ [d]) t (Some (length conds, d))"
  using assms by (auto simp: latest_of_def nth_append less_Suc_eq list_all_length)

text \<open>After the diff the condition that is read is the one that was written.\<close>

lemma diff_conditions_read:
  assumes "\<forall>c \<in> set conds. c_Type c = NodeNetworkUnavailable \<longrightarrow> c_LastHeartbeatTime c \<le> t2"
  shows "\<exists>c. FindCondition (diff_conditions created t1 t2 conds) NodeNetworkUnavailable = (c, True) \<and>
    c_Status c = (if created then ConditionFalse else ConditionTrue)"
proof (cases "FindCondition_at conds NodeNetworkUnavailable")
  case None
  let ?d = "set_condition created t1 t2 zero_condition"
  have "latest_of conds NodeNetworkUnavailable None"
    using FindCondition_at_latest [of conds NodeNetworkUnavailable] None by simp
  then have "FindCondition_at (conds @ [?d]) NodeNetworkUnavailable = Some (length conds, ?d)"
    by (intro latest_of_found latest_of_append) simp_all
  then show ?thesis by (simp add: FindCondition_def diff_conditions_def None)
next
  case (Some p)
  obtain i c where p: "p = (i, c)" by force
  let ?d = "set_condition created t1 t2 c"
  have l: "latest_of conds NodeNetworkUnavailable (Some (i, c))"
    using FindCondition_at_latest [of conds NodeNetworkUnavailable] Some p by simp
  then have "c \<in> set conds" "c_Type c = NodeNetworkUnavailable"
    by (auto simp: latest_of_def)
  then have "c_LastHeartbeatTime c \<le> t2" using assms by blast
  then have "FindCondition_at (conds[i := ?d]) NodeNetworkUnavailable = Some (i, ?d)"
    using l by (intro latest_of_found latest_of_update) simp_all
  then show ?thesis by (simp add: FindCondition_def diff_conditions_def Some p)
qed

section \<open>The patch loop as a bounded loop\<close>

definition patch_step :: "'w env \<Rightarrow> bool \<Rightarrow> 'w \<times> Node \<Rightarrow> (bool \<times> unit res) \<times> ('w \<times> Node)" where
  "patch_step E created s =
     (case PatchM E (network_diff E created) PatchStatus s of
        (Err e, s') \<Rightarrow> ((\<not> is_conflict E e, Err e), s')
      | (r, s') \<Rightarrow> ((True, r), s'))"

interpretation patch: retry_loop "\<lambda>n. patch_loop E created n (Ok ())" "patch_step E created" id
  for E and created
proof unfold_locales
  have any: "patch_loop E created (Suc n) r s = patch_loop E created (Suc n) (Ok ()) s" for n r s
    by simp
  fix s r s' n
  show "patch_step E created s = ((True, r), s') \<Longrightarrow> patch_loop E created (Suc n) (Ok ()) s = (r, s')"
    "patch_step E created s = ((False, r), s') \<Longrightarrow> patch_loop E created (Suc 0) (Ok ()) s = (r, s')"
    by (auto simp: patch_step_def on_res_def split: prod.splits res.splits)
  show "patch_loop E created (Suc (Suc n)) (Ok ()) s = patch_loop E created (Suc n) (Ok ()) (id s')"
    if "patch_step E created s = ((False, r), s')"
  proof -
    have "\<exists>e. PatchM E (network_diff E created) PatchStatus s = (Err e, s') \<and> is_conflict E e"
    proof -
      obtain q s1 where q: "PatchM E (network_diff E created) PatchStatus s = (q, s1)" by (metis surj_pair)
      then show "\<exists>e. PatchM E (network_diff E created) PatchStatus s = (Err e, s') \<and> is_conflict E e"
        using that by (cases q) (auto simp: patch_step_def)
    qed
    then obtain e where "PatchM E (network_diff E created) PatchStatus s = (Err e, s')" "is_conflict E e"
      by blast
    then have "patch_loop E created (Suc (Suc n)) (Ok ()) s = patch_loop E created (Suc n) (Err e) s'"
      by (simp only: patch_loop.simps(2) [of _ _ "Suc n"] on_res_Err if_False not_not) simp
    then show ?thesis using any [of n "Err e" s'] by (simp only: id_apply)
  qed
qed

lemma update_condition_outcome:
  assumes "\<not> already_set (snd s) created"
  shows "\<exists>k t. k \<le> 2 \<and> attempts (patch_step E created) id k s t \<and>
     (case PatchM E (network_diff E created) PatchStatus t of
        (Err e, s') \<Rightarrow> (k = 2 \<or> \<not> is_conflict E e) \<and> updateNetworkingCondition E created s = (Err e, s')
      | (r, s') \<Rightarrow> updateNetworkingCondition E created s = (r, s'))"
proof -
  have u: "updateNetworkingCondition E created s = patch_loop E created (Suc 2) (Ok ()) s"
    using assms by (simp add: updateNetworkingCondition_def updateNodeStatusMaxRetries_def eval_nat_numeral)
  show ?thesis
  proof (rule patch.loop_outcome [of 2 E created s])
    fix k t r s'
    assume *: "k \<le> 2" "attempts (patch_step E created) id k s t" "patch_step E created t = ((True, r), s')"
      "patch_loop E created (Suc 2) (Ok ()) s = (r, s')"
    obtain q s1 where q: "PatchM E (network_diff E created) PatchStatus t = (q, s1)" by (metis surj_pair)
    then show ?thesis using * by (intro exI [of _ k] exI [of _ t]) (cases q; auto simp: patch_step_def u)
  next
    fix t r s'
    assume *: "attempts (patch_step E created) id 2 s t" "patch_step E created t = ((False, r), s')"
      "patch_loop E created (Suc 2) (Ok ()) s = (r, s')"
    obtain q s1 where q: "PatchM E (network_diff E created) PatchStatus t = (q, s1)" by (metis surj_pair)
    then show ?thesis using * by (intro exI [of _ 2] exI [of _ t]) (cases q; auto simp: patch_step_def u)
  qed
qed

end
