(* ===== verification/Route_Controller.thy ===== *)
theory Route_Controller
  imports Node_Status
begin

text \<open>
  The controller: \<open>pkg/controller/route/route_controller.go\<close> and the periodic synchronisation of
  \<open>manager.go\<close>. \<open>Reconcile\<close> handles one node event, \<open>reconcileForCluster\<close> is the body of the periodic task.
  Metrics and log output are left out.
\<close>

definition EventTypeWarning :: string where "EventTypeWarning = ''Warning''"
definition EventTypeNormal :: string where "EventTypeNormal = ''Normal''"
definition FailedCreateRoute :: string where "FailedCreateRoute = ''CreateRouteFailed''"
definition FailedSyncRoute :: string where "FailedSyncRoute = ''SyncRouteFailed''"
definition SucceedCreateRoute :: string where "SucceedCreateRoute = ''CreatedRoute''"

definition node_event :: "Node \<Rightarrow> string \<Rightarrow> string \<Rightarrow> string \<Rightarrow> string \<Rightarrow> Event" where
  "node_event node uid typ reason msg = \<lparr>ev_Object = nd_Name node, ev_UID = uid, ev_Type = typ,
     ev_Reason = reason, ev_Message = msg\<rparr>"

section \<open>Adding the route of a node\<close>

text \<open>The end of \<open>addRouteForNode\<close>: a route at hand is cached, then \<open>err\<close> is returned.\<close>

definition cache_and_return :: "'w env \<Rightarrow> string \<Rightarrow> Route option \<Rightarrow> unit res \<Rightarrow> ('w, unit) eff" where
  "cache_and_return E name route err w =
     (err, case route of None \<Rightarrow> w | Some r \<Rightarrow> cache_set_if_absent E name r w)"

definition addRouteForNode ::
  "'w env \<Rightarrow> Globals \<Rightarrow> string \<Rightarrow> Node \<Rightarrow> Route list \<Rightarrow> ('w, unit) eff" where
  "addRouteForNode E G ipv4Cidr node cachedRouteEntry w =
     (let instanceId = getNodeInstanceId node in
      if length instanceId = 0 then (Err (ErrorString ''cannot find instance uuid.''), w)
      else
        on_res (findRoute E G ipv4Cidr cachedRouteEntry)
          (\<lambda>route.
             if (case route of None \<Rightarrow> True | Some r \<Rightarrow> rt_DestinationCIDR r \<noteq> ipv4Cidr) then
               on_res (createRouteForInstance E G instanceId ipv4Cidr)
                 (\<lambda>route w. cache_and_return E (nd_Name node) route (Ok ())
                    (record_event E (node_event node instanceId EventTypeNormal SucceedCreateRoute
                       (''Created route for '' @ nd_Name node @ '' -> '' @ ipv4Cidr @ '' successfully'')) w))
                 (\<lambda>err w. cache_and_return E (nd_Name node) None (Err err)
                    (record_event E (node_event node instanceId EventTypeWarning FailedCreateRoute
                       (''Error creating route entry : '' @ GetLogMessage (Some err))) w))
             else cache_and_return E (nd_Name node) route (Ok ()))
          (\<lambda>findErr w.
             (Ok (), record_event E (node_event node instanceId EventTypeWarning ''DescriberRouteFailed''
                (''Describe Route Failed for '' @ ipv4Cidr @ '' reason: '' @ GetLogMessage (Some findErr))) w))
          w)"

section \<open>One node\<close>

text \<open>
  The condition is updated on the node object \<open>syncCloudRoute\<close> was given; an error of the first
  update is only logged.
\<close>

definition update_condition :: "'w env \<Rightarrow> Node \<Rightarrow> bool \<Rightarrow> ('w, unit) eff" where
  "update_condition E node created = on_client (updateNetworkingCondition E created) node"

definition syncCloudRoute :: "'w env \<Rightarrow> Globals \<Rightarrow> Node \<Rightarrow> ('w, unit) eff" where
  "syncCloudRoute E G node w =
     (if \<not> needSyncRoute node then (Ok (), w)
      else
        (let bad = (\<lambda>ret. on_res (update_condition E node False) (\<lambda>_ w. (ret, w)) (\<lambda>_ w. (ret, w)) w) in
         case getIPv4RouteForNode node of
           Err err \<Rightarrow> bad (Err err)
         | Panic p \<Rightarrow> (Panic p, w)
         | Ok (_, ipv4RouteCidr) \<Rightarrow>
             if ipv4RouteCidr = '''' then bad (Ok ())
             else
               (case addRouteForNode E G ipv4RouteCidr node [] w of
                  (Panic p, w1) \<Rightarrow> (Panic p, w1)
                | (r, w1) \<Rightarrow>
                    (let errs = (case r of Err e \<Rightarrow> [e] | _ \<Rightarrow> []) in
                     case new_aggregate E errs of
                       Some agg \<Rightarrow> on_res (update_condition E node False)
                          (\<lambda>_ w. (Err agg, w)) (\<lambda>_ w. (Err agg, w)) w1
                     | None \<Rightarrow> update_condition E node True w1))))"

section \<open>One node event\<close>

text \<open>
  \<open>configRoutes\<close> is a field of the reconciler, true in the one the program makes. The result is
  \<open>Err\<close> exactly when the request is put back into the queue.
\<close>

definition Reconcile :: "'w env \<Rightarrow> Globals \<Rightarrow> bool \<Rightarrow> string \<Rightarrow> ('w, unit) eff" where
  "Reconcile E G configRoutes name w =
     (if \<not> configRoutes then (Ok (), w)
      else
        on_res (k_get E name)
          (\<lambda>node. on_res (syncCloudRoute E G node)
             (\<lambda>_ w. (Ok (), w))
             (\<lambda>err w. (Ok (), record_event E (node_event node (nd_Name node) EventTypeWarning
                FailedSyncRoute ''sync cloud route failed'') w)))
          (\<lambda>err w.
             if is_not_found E err then
               (case cache_get E name w of
                  None \<Rightarrow> (Ok (), w)
                | Some route \<Rightarrow>
                    (case deleteRouteForInstance E G (rt_DestinationCIDR route) w of
                       (Panic p, w1) \<Rightarrow> (Panic p, w1)
                     | (r, w1) \<Rightarrow>
                         (let errList = (case r of Err e \<Rightarrow> [e] | _ \<Rightarrow> []) in
                          case new_aggregate E errList of
                            None \<Rightarrow> (Ok (), cache_remove E name w1)
                          | Some aggrErr \<Rightarrow> (Err aggrErr, w1))))
             else (Err err, w))
          w)"

section \<open>The periodic synchronisation\<close>

definition NodeList :: "'w env \<Rightarrow> ('w, Node list) eff" where
  "NodeList E =
     on_res (k_list E) (\<lambda>nodes w. (Ok (filter (\<lambda>node. \<not> HasExcludeLabel node) nodes), w)) (\<lambda>err w. (Err err, w))"

fun delete_conflicts :: "'w env \<Rightarrow> Globals \<Rightarrow> Node list \<Rightarrow> Route list \<Rightarrow> ('w, unit) eff" where
  "delete_conflicts E G nodes [] w = (Ok (), w)"
| "delete_conflicts E G nodes (route # routes) w =
     (if conflictWithNodes route nodes then
        on_res (deleteRouteForInstance E G (rt_DestinationCIDR route))
          (\<lambda>_. delete_conflicts E G nodes routes)
          (\<lambda>_. delete_conflicts E G nodes routes) w
      else delete_conflicts E G nodes routes w)"

fun add_routes :: "'w env \<Rightarrow> Globals \<Rightarrow> Route list \<Rightarrow> Node list \<Rightarrow> ('w, unit) eff" where
  "add_routes E G routes [] w = (Ok (), w)"
| "add_routes E G routes (node # nodes) w =
     (if \<not> needSyncRoute node then add_routes E G routes nodes w
      else
        (case getIPv4RouteForNode node of
           Ok (_, ipv4RouteCidr) \<Rightarrow>
             (if ipv4RouteCidr = '''' then add_routes E G routes nodes w
              else
                on_res (addRouteForNode E G ipv4RouteCidr node routes)
                  (\<lambda>_. on_res (update_condition E node True)
                     (\<lambda>_. add_routes E G routes nodes)
                     (\<lambda>_. add_routes E G routes nodes))
                  (\<lambda>_. add_routes E G routes nodes) w)
         | Err _ \<Rightarrow> add_routes E G routes nodes w
         | Panic p \<Rightarrow> (Panic p, w)))"

definition syncRoutes :: "'w env \<Rightarrow> Globals \<Rightarrow> Node list \<Rightarrow> ('w, unit) eff" where
  "syncRoutes E G nodes =
     on_res (ListRoutes E G)
       (\<lambda>routes. on_res (delete_conflicts E G nodes routes)
          (\<lambda>_. add_routes E G routes nodes)
          (\<lambda>err w. (Err err, w)))
       (\<lambda>err w. (Err (ErrorString (''error listing routes: '' @ error_text err)), w))"

definition reconcileForCluster :: "'w env \<Rightarrow> Globals \<Rightarrow> ('w, unit) eff" where
  "reconcileForCluster E G =
     on_res (NodeList E)
       (\<lambda>nodes. on_res (syncRoutes E G nodes) (\<lambda>_ w. (Ok (), w)) (\<lambda>_ w. (Ok (), w)))
       (\<lambda>_ w. (Ok (), w))"

end
