(* ===== verification/Vpc_Api.thy ===== *)
theory Vpc_Api
  imports Route_Controller
begin

text \<open>
  The interface between the controller (\<open>pkg/controller/route\<close>) and the cloud (\<open>pkg/ksyun\<close>), as a contract on
  a route table: \<open>FindRoute\<close> reads it, \<open>CreateRoute\<close> adds a route whose CIDR is new and otherwise fails with
  the text the controller looks for, \<open>DeleteRoute\<close> clears a CIDR. What the controller makes of the table is
  proved here, inside the locales; \<open>Reference_Run\<close> provides the contract.
\<close>

section \<open>What an operation keeps\<close>


lemma keeps_lift_w [intro]: "keeps Q m \<Longrightarrow> keeps (\<lambda>s. Q (fst s)) (lift_w m)"
  by (auto simp: keeps_def lift_w_def split: prod.splits) 

lemma keeps_on_client [intro]: "keeps (\<lambda>s. Q (fst s)) m \<Longrightarrow> keeps Q (on_client m c)"
  by (auto simp: keeps_def on_client_def split: prod.splits) (metis fst_conv snd_conv)

lemma keeps_pure_res [intro]: "keeps Q (pure_res pre r)"
  by (auto simp: keeps_def pure_res_def split: res.splits) 

lemma keeps_network_diff [intro]: "keeps Q (now E) \<Longrightarrow> keeps Q (network_diff E b n)"
  by (auto simp: network_diff_def keeps_def Let_def split: prod.splits) (metis snd_conv)

lemma keeps_retarget: "keeps (\<lambda>s. Q (fst s)) m \<Longrightarrow> keeps (\<lambda>s. Q (fst s)) (\<lambda>s. m (fst s, t))"
  by (auto simp: keeps_def)

lemma keeps_if: "keeps Q m \<Longrightarrow> keeps Q m' \<Longrightarrow> keeps Q (\<lambda>s. if c then m s else m' s)"
  by (auto simp: keeps_def)

lemma keeps_PatchM:
  assumes "\<And>n. keeps Q (k_get E n)" "\<And>n. keeps Q (getter n)"
    and "\<And>n p. keeps Q (k_patch E n p)" "\<And>n p. keeps Q (k_status_patch E n p)"
  shows "keeps (\<lambda>s. Q (fst s)) (PatchM E getter resource)"
proof -
  have get: "keeps (\<lambda>s. Q (fst s)) (\<lambda>s. lift_w (k_get E (nd_Name (snd s))) s)"
    using assms(1) by (auto simp: keeps_def lift_w_def split: prod.splits) (metis snd_conv)
  show ?thesis
    unfolding PatchM_def Let_def
    by (rule keeps_on_res [OF get] keeps_retarget keeps_return keeps_on_res keeps_lift_w assms keeps_pure_res keeps_if)+
qed

lemma keeps_patch_loop:
  assumes "keeps (\<lambda>s. Q (fst s)) (PatchM E (network_diff E b) PatchStatus)"
  shows "keeps (\<lambda>s. Q (fst s)) (patch_loop E b n r)"
proof (induction n arbitrary: r)
  case 0
  show ?case by (simp add: keeps_def)
next
  case (Suc n)
  have "patch_loop E b (Suc n) r = on_res (PatchM E (network_diff E b) PatchStatus)
       (\<lambda>_ s. (Ok (), s))
       (\<lambda>e s. if \<not> is_conflict E e then (Err e, s) else patch_loop E b n (Err e) s)"
    by (rule ext) simp
  then show ?case using assms Suc.IH by (auto intro!: keeps_on_res keeps_if)
qed

lemma keeps_update_condition:
  assumes "\<And>n. keeps Q (k_get E n)" "keeps Q (now E)"
    and "\<And>n p. keeps Q (k_patch E n p)" "\<And>n p. keeps Q (k_status_patch E n p)"
  shows "keeps Q (update_condition E node created)"
proof -
  have "keeps (\<lambda>s. Q (fst s)) (patch_loop E created n r)" for n r
    using assms by (intro keeps_patch_loop keeps_PatchM keeps_network_diff)
  then have "keeps (\<lambda>s. Q (fst s)) (updateNetworkingCondition E created)"
    by (auto simp: keeps_def updateNetworkingCondition_def)
  then show ?thesis unfolding update_condition_def by (rule keeps_on_client)
qed
lemma is_panic_iff: "is_panic r \<longleftrightarrow> (\<exists>p. r = Panic p)"
  by (cases r) auto

lemma calm_lift_w [intro]: "calm m \<Longrightarrow> calm (lift_w m)"
  by (auto simp: calm_def lift_w_def split: prod.splits) (metis fst_conv)

lemma calm_on_client [intro]: "calm m \<Longrightarrow> calm (on_client m c)"
  by (auto simp: calm_def on_client_def split: prod.splits) (metis fst_conv)

lemma calm_pure_res [intro]: "\<not> is_panic r \<Longrightarrow> calm (pure_res pre r)"
  by (auto simp: calm_def pure_res_def split: res.splits) 

lemma calm_network_diff [intro]: "calm (network_diff E b n)"
  by (auto simp: network_diff_def calm_def Let_def split: prod.splits)

lemma calm_retarget: "calm m \<Longrightarrow> calm (\<lambda>s. m (fst s, t))"
  by (auto simp: calm_def)

lemma calm_if: "calm m \<Longrightarrow> calm m' \<Longrightarrow> calm (\<lambda>s. if c then m s else m' s)"
  by (auto simp: calm_def)

lemma calm_PatchM:
  assumes "\<And>n. calm (k_get E n)" "\<And>n. calm (getter n)"
    and "\<And>n p. calm (k_patch E n p)" "\<And>n p. calm (k_status_patch E n p)"
    and "\<And>n. \<not> is_panic (k_marshal E n)" "\<And>a b. \<not> is_panic (k_merge_patch E a b)"
  shows "calm (PatchM E getter resource)"
proof -
  have get: "calm (\<lambda>s. lift_w (k_get E (nd_Name (snd s))) s)"
    using assms(1) by (auto simp: calm_def lift_w_def split: prod.splits) (metis fst_conv)
  show ?thesis
    unfolding PatchM_def Let_def
    by (rule calm_on_res [OF get] calm_retarget calm_on_res calm_lift_w assms calm_pure_res calm_if
          calm_return | simp)+
qed

lemma calm_update_condition:
  assumes "\<And>n. calm (k_get E n)"
    and "\<And>n p. calm (k_patch E n p)" "\<And>n p. calm (k_status_patch E n p)"
    and "\<And>n. \<not> is_panic (k_marshal E n)" "\<And>a b. \<not> is_panic (k_merge_patch E a b)"
  shows "calm (update_condition E node created)"
proof -
  have p: "calm (PatchM E (network_diff E created) PatchStatus)"
    using assms by (intro calm_PatchM calm_network_diff)
  have "\<not> is_panic r \<Longrightarrow> calm (patch_loop E created n r)" for n r
  proof (induction n arbitrary: r)
    case (Suc n)
    have "patch_loop E created (Suc n) r = on_res (PatchM E (network_diff E created) PatchStatus)
       (\<lambda>_ s. (Ok (), s))
       (\<lambda>e s. if \<not> is_conflict E e then (Err e, s) else patch_loop E created n (Err e) s)"
      by (rule ext) simp
    then show ?case using p Suc.IH by (auto intro!: calm_on_res calm_if)
  qed (simp add: calm_def)
  then have "calm (updateNetworkingCondition E created)"
    by (auto simp: calm_def updateNetworkingCondition_def)
  then show ?thesis unfolding update_condition_def by (rule calm_on_client)
qed

lemma ParseCIDR_calm: "ParseCIDR s \<noteq> Panic p"
  by (simp add: ParseCIDR_def Let_def split: prod.split option.split)

lemma getIPv4RouteForNode_calm: "getIPv4RouteForNode node \<noteq> Panic p"
proof -
  have "ipv4_route_loop ps net s \<noteq> Panic p" for ps net s
    by (induction ps net s rule: ipv4_route_loop.induct) (auto simp: ParseCIDR_calm split: res.splits prod.splits)
  then show ?thesis by (simp add: getIPv4RouteForNode_def)
qed

section \<open>The route table\<close>

type_synonym table = "string \<Rightarrow> Route option"

text \<open>
  The table \<open>T'\<close> has a route for \<open>cidr\<close>, for the instance \<open>i\<close> if the route is new; nothing else differs
  from \<open>T\<close>.
\<close>

definition route_ensured :: "table \<Rightarrow> string \<Rightarrow> string \<Rightarrow> table \<Rightarrow> bool" where
  "route_ensured T cidr i T' \<longleftrightarrow>
     (\<forall>c. c \<noteq> cidr \<longrightarrow> T' c = T c) \<and>
     (case T cidr of
        Some r \<Rightarrow> T' cidr = Some r
      | None \<Rightarrow> (\<exists>r. T' cidr = Some r \<and> rt_InstanceId r = i \<and> rt_DestinationCIDR r = cidr))"

lemma route_ensured_mono: "route_ensured T cidr i T' \<Longrightarrow> T c = Some r \<Longrightarrow> T' c = Some r"
  by (cases "c = cidr") (auto simp: route_ensured_def split: option.splits)

lemma route_ensured_Some: "route_ensured T cidr i T' \<Longrightarrow> T' cidr \<noteq> None"
  by (auto simp: route_ensured_def split: option.splits)

locale vpc_api =
  fixes E :: "'w env" and G :: Globals and up :: "'w \<Rightarrow> bool" and tbl :: "'w \<Rightarrow> table"
  assumes tbl_cidr: "up w \<Longrightarrow> tbl w cidr = Some r \<Longrightarrow> rt_DestinationCIDR r = cidr"
    and find_ok: "up w \<Longrightarrow> \<exists>w'. FindRoute E G cidr w = (Ok (tbl w cidr), w') \<and> up w' \<and> tbl w' = tbl w"
    and list_ok: "up w \<Longrightarrow> \<exists>rs w'. ListRoutes E G w = (Ok rs, w') \<and> up w' \<and> tbl w' = tbl w \<and>
      (\<forall>r. r \<in> set rs \<longleftrightarrow> rt_DestinationCIDR r \<noteq> ''0.0.0.0/0'' \<and> tbl w (rt_DestinationCIDR r) = Some r)"
    and create_new: "up w \<Longrightarrow> tbl w cidr = None \<Longrightarrow> \<exists>r w'. CreateRoute E G i cidr w = (Ok (), w') \<and> up w' \<and>
      tbl w' = (tbl w)(cidr := Some r) \<and> rt_InstanceId r = i"
    and create_duplicate: "up w \<Longrightarrow> tbl w cidr = Some r \<Longrightarrow> \<exists>e w'. CreateRoute E G i cidr w = (Err e, w') \<and>
      str_contains (error_text e) same_with_a_route \<and> up w' \<and> tbl w' = tbl w"
    and delete_ok: "up w \<Longrightarrow> \<exists>w'. DeleteRoute E G cidr w = (Ok (), w') \<and> up w' \<and>
      tbl w' = (tbl w)(cidr := None)"
    and backoff: "backoff_documented E"
begin

lemma three_checks:
  obtains slp where "\<And>cond w v. exp_backoff E createBackoff cond (w, v)
      = backoff_checks 3 (map_prod slp id) cond (w, v)"
proof -
  have "nat (bo_Steps createBackoff) = 3" by (simp add: createBackoff_def)
  then show thesis using that backoff unfolding backoff_documented_def by metis
qed

lemma create_ensures:
  assumes "up w"
  shows "\<exists>r w'. createRouteForInstance E G i cidr w = (Ok (Some r), w') \<and> up w' \<and>
    route_ensured (tbl w) cidr i (tbl w') \<and> tbl w' cidr = Some r"
proof -
  obtain slp where b: "\<And>cond w v. exp_backoff E createBackoff cond (w, v)
      = backoff_checks 3 (map_prod slp id) cond (w, v)"
    by (rule three_checks) blast
  show ?thesis
  proof (cases "tbl w cidr")
    case None
    from create_new [OF assms None] obtain r w1 where c: "CreateRoute E G i cidr w = (Ok (), w1)" "up w1"
      "tbl w1 = (tbl w)(cidr := Some r)" "rt_InstanceId r = i" by blast
    then have "rt_DestinationCIDR r = cidr" using tbl_cidr by simp
    moreover obtain w2 where f: "FindRoute E G cidr w1 = (Ok (Some r), w2)" "up w2" "tbl w2 = tbl w1"
      using find_ok [OF c(2), of cidr] c(3) by auto
    ultimately show ?thesis
      using c None by (intro exI [of _ r] exI [of _ w2]) (simp add: createRouteForInstance_def b eval_nat_numeral
          create_condition_def on_res_def lift_w_def route_ensured_def)
  next
    case (Some r)
    from create_duplicate [OF assms Some] obtain e w1 where c: "CreateRoute E G i cidr w = (Err e, w1)"
      "str_contains (error_text e) same_with_a_route" "up w1" "tbl w1 = tbl w" by blast
    obtain w2 where f: "FindRoute E G cidr w1 = (Ok (Some r), w2)" "up w2" "tbl w2 = tbl w1"
      using find_ok [OF c(3), of cidr] c(4) Some by auto
    then show ?thesis
      using c Some by (intro exI [of _ r] exI [of _ w2]) (simp add: createRouteForInstance_def b eval_nat_numeral
          create_condition_def on_res_def lift_w_def route_ensured_def)
  qed
qed

lemma delete_clears:
  "up w \<Longrightarrow> \<exists>w'. deleteRouteForInstance E G cidr w = (Ok (), w') \<and> up w' \<and> tbl w' = (tbl w)(cidr := None)"
  using delete_ok by (simp add: deleteRouteForInstance_def)

text \<open>The routes deleted in one pass are exactly the conflicting ones.\<close>

lemma delete_conflicts_clears:
  "up w \<Longrightarrow> \<exists>w'. delete_conflicts E G nodes rs w = (Ok (), w') \<and> up w' \<and>
     tbl w' = (\<lambda>c. if \<exists>r \<in> set rs. conflictWithNodes r nodes \<and> rt_DestinationCIDR r = c then None else tbl w c)"
proof (induction rs arbitrary: w)
  case (Cons r rs)
  show ?case
  proof (cases "conflictWithNodes r nodes")
    case True
    obtain w1 where w1: "deleteRouteForInstance E G (rt_DestinationCIDR r) w = (Ok (), w1)" "up w1"
      "tbl w1 = (tbl w)(rt_DestinationCIDR r := None)" using delete_clears [OF Cons.prems] by blast
    from Cons.IH [OF w1(2)] show ?thesis
      using True w1 by (fastforce simp: on_res_def fun_eq_iff)
  next
    case False
    with Cons show ?thesis by (fastforce simp: fun_eq_iff)
  qed
qed auto

end

section \<open>The rest of the world\<close>

text \<open>Nothing else the controller does touches the routes.\<close>

locale controller_world = vpc_api E G up tbl
  for E :: "'w env" and G :: Globals and up :: "'w \<Rightarrow> bool" and tbl :: "'w \<Rightarrow> table" +
  assumes event_keeps: "up w \<Longrightarrow> up (record_event E ev w) \<and> tbl (record_event E ev w) = tbl w"
    and set_keeps: "up w \<Longrightarrow> up (cache_set_if_absent E k r w) \<and> tbl (cache_set_if_absent E k r w) = tbl w"
    and remove_keeps: "up w \<Longrightarrow> up (cache_remove E k w) \<and> tbl (cache_remove E k w) = tbl w"
    and get_keeps: "keeps (\<lambda>w. up w \<and> tbl w = t) (k_get E n)"
    and condition_keeps: "keeps (\<lambda>w. up w \<and> tbl w = t) (update_condition E node created)"
    and cache: "cache_documented E"
    and aggregate: "aggregate_documented E"
begin

lemma conditionD:
  "up w \<Longrightarrow> up (snd (update_condition E node created w)) \<and> tbl (snd (update_condition E node created w)) = tbl w"
  using condition_keeps [of "tbl w" node created] unfolding keeps_def by blast

text \<open>
  A node whose route is not among the cached ones gets it: the call succeeds and the table has a route
  for the CIDR. The list of cached routes may be empty (then the cloud is asked) or not.
\<close>

lemma add_ensures:
  assumes "up w" "getNodeInstanceId node \<noteq> ''''" "cidr \<noteq> ''''"
    and "\<forall>r \<in> set rs. rt_DestinationCIDR r \<noteq> cidr"
  shows "\<exists>w'. addRouteForNode E G cidr node rs w = (Ok (), w') \<and> up w' \<and>
    route_ensured (tbl w) cidr (getNodeInstanceId node) (tbl w')"
proof -
  let ?i = "getNodeInstanceId node"
  have "\<exists>f w1. findRoute E G cidr rs w = (Ok f, w1) \<and> up w1 \<and> tbl w1 = tbl w \<and> (f = None \<or> f = tbl w cidr)"
  proof (cases "rs = []")
    case True
    then show ?thesis using find_ok [OF assms(1), of cidr] assms(3) by (auto simp: findRoute_def)
  next
    case False
    then have "find (\<lambda>r. rt_DestinationCIDR r = cidr) rs = None"
      using assms(4) by (auto simp: find_None_iff)
    then show ?thesis using False assms(1,3) by (auto simp: findRoute_def)
  qed
  then obtain f w1 where f: "findRoute E G cidr rs w = (Ok f, w1)" "up w1" "tbl w1 = tbl w"
    "f = None \<or> f = tbl w cidr" by blast
  show ?thesis
  proof (cases f)
    case None
    obtain r w2 where c: "createRouteForInstance E G ?i cidr w1 = (Ok (Some r), w2)" "up w2"
      "route_ensured (tbl w1) cidr ?i (tbl w2)" using create_ensures [OF f(2)] by blast
    then show ?thesis
      using f None assms(2) event_keeps set_keeps
      by (simp add: addRouteForNode_def on_res_def Let_def cache_and_return_def)
  next
    case (Some r)
    then have "tbl w cidr = Some r" "rt_DestinationCIDR r = cidr" using f tbl_cidr assms(1) by auto
    then show ?thesis
      using f Some assms(2) set_keeps
      by (simp add: addRouteForNode_def on_res_def Let_def cache_and_return_def route_ensured_def)
  qed
qed

lemma aggregate_nil: "new_aggregate E [] = None"
  using aggregate by (simp add: aggregate_documented_def)

lemma sync_ensures:
  assumes "up w" "needSyncRoute node" "getIPv4RouteForNode node = Ok (n, cidr)" "cidr \<noteq> ''''"
    and "getNodeInstanceId node \<noteq> ''''"
  shows "up (snd (syncCloudRoute E G node w)) \<and>
    route_ensured (tbl w) cidr (getNodeInstanceId node) (tbl (snd (syncCloudRoute E G node w)))"
proof -
  obtain w1 where "addRouteForNode E G cidr node [] w = (Ok (), w1)" "up w1"
    "route_ensured (tbl w) cidr (getNodeInstanceId node) (tbl w1)"
    using add_ensures [OF assms(1,5,4), of "[]"] by auto
  then show ?thesis
    using assms(2-4) conditionD [of w1 node True] by (simp add: syncCloudRoute_def aggregate_nil Let_def)
qed

lemma reconcile_live:
  assumes "up w" "k_get E name w = (Ok node, w1)" "needSyncRoute node"
    and "getIPv4RouteForNode node = Ok (n, cidr)" "cidr \<noteq> ''''" "getNodeInstanceId node \<noteq> ''''"
  shows "up (snd (Reconcile E G True name w)) \<and>
    route_ensured (tbl w) cidr (getNodeInstanceId node) (tbl (snd (Reconcile E G True name w)))"
proof -
  have w1: "up w1" "tbl w1 = tbl w" using keepsD [OF get_keeps _ assms(2), of "tbl w"] assms(1) by auto
  obtain r w2 where s: "syncCloudRoute E G node w1 = (r, w2)" by force
  then have "up w2" "route_ensured (tbl w1) cidr (getNodeInstanceId node) (tbl w2)"
    using sync_ensures [OF w1(1) assms(3-6)] by auto
  then show ?thesis
    using assms(2) w1 s event_keeps by (cases r) (simp_all add: Reconcile_def on_res_def)
qed

lemma reconcile_deleted:
  assumes "up w" "k_get E name w = (Err e, w1)" "is_not_found E e" "cache_get E name w1 = Some r"
  shows "\<exists>w'. Reconcile E G True name w = (Ok (), w') \<and> up w' \<and>
    tbl w' = (tbl w)(rt_DestinationCIDR r := None) \<and> cache_get E name w' = None"
proof -
  have w1: "up w1" "tbl w1 = tbl w" using keepsD [OF get_keeps _ assms(2), of "tbl w"] assms(1) by auto
  obtain w2 where d: "deleteRouteForInstance E G (rt_DestinationCIDR r) w1 = (Ok (), w2)" "up w2"
    "tbl w2 = (tbl w1)(rt_DestinationCIDR r := None)" using delete_clears [OF w1(1)] by blast
  have "cache_get E name (cache_remove E name w2) = None"
    using cache by (simp add: cache_documented_def)
  then show ?thesis
    using assms d w1 remove_keeps by (simp add: Reconcile_def on_res_def aggregate_nil)
qed

end

section \<open>A world without panics\<close>

locale calm_world = controller_world E G up tbl
  for E :: "'w env" and G :: Globals and up :: "'w \<Rightarrow> bool" and tbl :: "'w \<Rightarrow> table" +
  assumes get_calm: "calm (k_get E n)"
    and patch_calm: "calm (k_patch E m p)"
    and status_calm: "calm (k_status_patch E m p)"
    and marshal_calm: "\<not> is_panic (k_marshal E m)"
    and merge_calm: "\<not> is_panic (k_merge_patch E a b)"
begin

lemma condition_calm: "update_condition E node created w \<noteq> (Panic p, w')"
  by (rule calmD) (intro calm_update_condition get_calm patch_calm status_calm marshal_calm merge_calm)

text \<open>Whatever the cached routes are, adding a node's route changes nothing or ensures that route.\<close>

lemma add_changes:
  assumes "up w" "cidr \<noteq> ''''"
  shows "\<exists>r w'. addRouteForNode E G cidr node rs w = (r, w') \<and> \<not> is_panic r \<and> up w' \<and>
    (tbl w' = tbl w \<or> route_ensured (tbl w) cidr (getNodeInstanceId node) (tbl w'))"
proof (cases "getNodeInstanceId node = ''''")
  case True
  then show ?thesis using assms by (simp add: addRouteForNode_def)
next
  case inst: False
  show ?thesis
  proof (cases "\<forall>r \<in> set rs. rt_DestinationCIDR r \<noteq> cidr")
    case True
    then show ?thesis
      using add_ensures [OF assms(1) inst assms(2)] by fastforce
  next
    case False
    then have "find (\<lambda>r. rt_DestinationCIDR r = cidr) rs \<noteq> None" "rs \<noteq> []"
      by (auto simp: find_None_iff)
    then obtain r where "find (\<lambda>r. rt_DestinationCIDR r = cidr) rs = Some r" "rs \<noteq> []" by blast
    moreover from this(1) have "rt_DestinationCIDR r = cidr" by (auto simp: find_Some_iff)
    ultimately have "findRoute E G cidr rs w = (Ok (Some r), w)" "rt_DestinationCIDR r = cidr"
      using assms(2) by (auto simp: findRoute_def)
    then show ?thesis
      using inst assms(1) set_keeps by (simp add: addRouteForNode_def on_res_def Let_def cache_and_return_def)
  qed
qed

lemma add_any:
  assumes "up w" "cidr \<noteq> ''''"
  shows "\<exists>r w'. addRouteForNode E G cidr node rs w = (r, w') \<and> \<not> is_panic r \<and> up w' \<and>
    (\<forall>c r. tbl w c = Some r \<longrightarrow> tbl w' c = Some r)"
proof -
  obtain r w' where a: "addRouteForNode E G cidr node rs w = (r, w')" "\<not> is_panic r" "up w'"
    "tbl w' = tbl w \<or> route_ensured (tbl w) cidr (getNodeInstanceId node) (tbl w')"
    using add_changes [OF assms] by blast
  then show ?thesis by (intro exI [of _ r] exI [of _ w']) (auto intro: route_ensured_mono)
qed

text \<open>One round of the second half of a pass.\<close>

lemma add_routes_step:
  assumes "up w"
  obtains (skip) "add_routes E G rs (m # nodes) w = add_routes E G rs nodes w"
      "\<not> (needSyncRoute m \<and> (\<exists>n cidr. getIPv4RouteForNode m = Ok (n, cidr) \<and> cidr \<noteq> ''''))"
  | (add) n cidr w1 where "add_routes E G rs (m # nodes) w = add_routes E G rs nodes w1" "up w1"
      "tbl w1 = tbl (snd (addRouteForNode E G cidr m rs w))"
      "needSyncRoute m" "getIPv4RouteForNode m = Ok (n, cidr)" "cidr \<noteq> ''''"
proof (cases "needSyncRoute m \<and> (\<exists>n cidr. getIPv4RouteForNode m = Ok (n, cidr) \<and> cidr \<noteq> '''')")
  case False
  then have "add_routes E G rs (m # nodes) w = add_routes E G rs nodes w"
    using getIPv4RouteForNode_calm [of m] by (auto split: res.splits)
  then show ?thesis using False skip by blast
next
  case True
  then obtain n cidr where m: "needSyncRoute m" "getIPv4RouteForNode m = Ok (n, cidr)" "cidr \<noteq> ''''"
    by blast
  obtain r w1 where a: "addRouteForNode E G cidr m rs w = (r, w1)" "\<not> is_panic r" "up w1"
    using add_any [OF assms m(3)] by blast
  obtain q w2 where u: "update_condition E m True w1 = (q, w2)" by force
  then have w2: "up w2" "tbl w2 = tbl w1" using conditionD [OF a(3), of m True] by simp_all
  have "add_routes E G rs (m # nodes) w = add_routes E G rs nodes (if is_ok r then w2 else w1)"
    using m a u condition_calm [of m True w1] by (cases r; cases q) (simp_all add: on_res_def)
  moreover have "up (if is_ok r then w2 else w1)" using a(3) w2(1) by simp
  moreover have "tbl (if is_ok r then w2 else w1) = tbl (snd (addRouteForNode E G cidr m rs w))"
    using a(1) w2(2) by simp
  ultimately show ?thesis using m by (rule add)
qed

text \<open>The second half of a pass: every node of the list that needs a route it does not have among the
  cached ones gets it.\<close>

lemma add_routes_ensures:
  "up w \<Longrightarrow>
   (let w' = snd (add_routes E G rs nodes w) in
      add_routes E G rs nodes w = (Ok (), w') \<and> up w' \<and>
      (\<forall>c r. tbl w c = Some r \<longrightarrow> tbl w' c = Some r) \<and>
      (\<forall>node n cidr. node \<in> set nodes \<and> needSyncRoute node \<and> getIPv4RouteForNode node = Ok (n, cidr) \<and>
         cidr \<noteq> '''' \<and> getNodeInstanceId node \<noteq> '''' \<and> (\<forall>r \<in> set rs. rt_DestinationCIDR r \<noteq> cidr)
         \<longrightarrow> tbl w' cidr \<noteq> None))"
proof (induction nodes arbitrary: w)
  case Nil
  then show ?case by simp
next
  case (Cons m nodes)
  from Cons.prems show ?case
  proof (cases rule: add_routes_step [of w rs m nodes])
    case skip
    then show ?thesis using Cons.IH [OF Cons.prems] by (fastforce simp: Let_def)
  next
    case (add n cidr w1)
    have mono: "\<forall>c r. tbl w c = Some r \<longrightarrow> tbl w1 c = Some r"
      using add_any [OF Cons.prems add(6), of m rs] add(3) by fastforce
    have own: "tbl w1 cidr \<noteq> None" if "getNodeInstanceId m \<noteq> ''''" "\<forall>r \<in> set rs. rt_DestinationCIDR r \<noteq> cidr"
      using add_ensures [OF Cons.prems that(1) add(6) that(2)] add(3) route_ensured_Some by fastforce
    note IH = Cons.IH [OF add(2), unfolded Let_def]
    have "tbl (snd (add_routes E G rs nodes w1)) c \<noteq> None"
      if "node \<in> set (m # nodes)" "needSyncRoute node" "getIPv4RouteForNode node = Ok (k, c)" "c \<noteq> ''''"
        "getNodeInstanceId node \<noteq> ''''" "\<forall>r \<in> set rs. rt_DestinationCIDR r \<noteq> c" for node k c
    proof (cases "node = m")
      case True
      then show ?thesis using own that add(5) IH by auto
    next
      case False
      then show ?thesis using IH that by auto
    qed
    then show ?thesis
      unfolding add(1) Let_def using IH mono by (intro conjI) blast+
  qed
qed

text \<open>
  A CIDR whose route, if it has one, points to the instance of every node with that CIDR keeps this property.
\<close>

lemma add_routes_right:
  assumes "up w" "\<And>m n. m \<in> set nodes \<Longrightarrow> getIPv4RouteForNode m = Ok (n, cidr) \<Longrightarrow> getNodeInstanceId m = i"
    and "\<And>r. tbl w cidr = Some r \<Longrightarrow> rt_InstanceId r = i"
    and "tbl (snd (add_routes E G rs nodes w)) cidr = Some r"
  shows "rt_InstanceId r = i"
  using assms
proof (induction nodes arbitrary: w)
  case (Cons m nodes)
  have sub: "getNodeInstanceId x = i" if "x \<in> set nodes" "getIPv4RouteForNode x = Ok (n, cidr)" for x n
    using Cons.prems(2) that by simp
  from Cons.prems(1) show ?case
  proof (cases rule: add_routes_step [of w rs m nodes])
    case skip
    show ?thesis
      by (rule Cons.IH [OF Cons.prems(1) sub Cons.prems(3) Cons.prems(4) [unfolded skip(1)]])
  next
    case (add n c w1)
    have "tbl w1 = tbl w \<or> route_ensured (tbl w) c (getNodeInstanceId m) (tbl w1)"
      using add_changes [OF Cons.prems(1) add(6), of m rs] add(3) by fastforce
    then have w1: "rt_InstanceId x = i" if "tbl w1 cidr = Some x" for x
      using that Cons.prems(3) Cons.prems(2) [of m n] add(5)
      by (cases "c = cidr") (auto simp: route_ensured_def split: option.splits)
    show ?thesis by (rule Cons.IH [OF add(2) sub w1 Cons.prems(4) [unfolded add(1)]])
  qed
qed simp

lemma sync_routes_ok:
  assumes "up w"
  obtains rs w0 w1 w' where "ListRoutes E G w = (Ok rs, w0)" "delete_conflicts E G nodes rs w0 = (Ok (), w1)"
    "add_routes E G rs nodes w1 = (Ok (), w')" "syncRoutes E G nodes w = (Ok (), w')" "up w1" "up w'"
    "\<forall>r. r \<in> set rs \<longleftrightarrow> rt_DestinationCIDR r \<noteq> ''0.0.0.0/0'' \<and> tbl w (rt_DestinationCIDR r) = Some r"
    "tbl w1 = (\<lambda>c. if \<exists>r \<in> set rs. conflictWithNodes r nodes \<and> rt_DestinationCIDR r = c then None else tbl w c)"
proof -
  obtain rs w0 where l: "ListRoutes E G w = (Ok rs, w0)" "up w0" "tbl w0 = tbl w"
    "\<forall>r. r \<in> set rs \<longleftrightarrow> rt_DestinationCIDR r \<noteq> ''0.0.0.0/0'' \<and> tbl w (rt_DestinationCIDR r) = Some r"
    using list_ok [OF assms] by blast
  obtain w1 where d: "delete_conflicts E G nodes rs w0 = (Ok (), w1)" "up w1"
    "tbl w1 = (\<lambda>c. if \<exists>r \<in> set rs. conflictWithNodes r nodes \<and> rt_DestinationCIDR r = c then None else tbl w c)"
    using delete_conflicts_clears [OF l(2), of nodes rs, unfolded l(3)] by blast
  obtain w' where a: "add_routes E G rs nodes w1 = (Ok (), w')" "up w'"
    using add_routes_ensures [OF d(2), of rs nodes] unfolding Let_def by metis
  have "syncRoutes E G nodes w = (Ok (), w')"
    using l(1) d(1) a(1) by (simp add: syncRoutes_def on_res_def)
  then show thesis by (rule that [OF l(1) d(1) a(1) _ d(2) a(2) l(4) d(3)])
qed

lemma sync_routes_ensures:
  assumes "up w" "node \<in> set nodes" "needSyncRoute node" "getIPv4RouteForNode node = Ok (n, cidr)"
    and "cidr \<noteq> ''''" "getNodeInstanceId node \<noteq> ''''" "tbl w cidr = None"
  shows "tbl (snd (syncRoutes E G nodes w)) cidr \<noteq> None"
proof -
  obtain rs w0 w1 w' where s: "ListRoutes E G w = (Ok rs, w0)" "delete_conflicts E G nodes rs w0 = (Ok (), w1)"
    "add_routes E G rs nodes w1 = (Ok (), w')" "syncRoutes E G nodes w = (Ok (), w')" "up w1" "up w'"
    "\<forall>r. r \<in> set rs \<longleftrightarrow> rt_DestinationCIDR r \<noteq> ''0.0.0.0/0'' \<and> tbl w (rt_DestinationCIDR r) = Some r"
    "tbl w1 = (\<lambda>c. if \<exists>r \<in> set rs. conflictWithNodes r nodes \<and> rt_DestinationCIDR r = c then None else tbl w c)"
    using assms(1) by (rule sync_routes_ok)
  then have "\<forall>r \<in> set rs. rt_DestinationCIDR r \<noteq> cidr" using assms(7) s(7) by auto
  then show ?thesis
    using add_routes_ensures [OF s(5), of rs nodes] assms(2-6) s(3,4) unfolding Let_def by auto
qed

text \<open>A route that conflicts with no node survives the pass, unchanged.\<close>

lemma sync_routes_keeps:
  assumes "up w" "tbl w cidr = Some r" "\<not> conflictWithNodes r nodes"
  shows "tbl (snd (syncRoutes E G nodes w)) cidr = Some r"
proof -
  obtain rs w0 w1 w' where s: "ListRoutes E G w = (Ok rs, w0)" "delete_conflicts E G nodes rs w0 = (Ok (), w1)"
    "add_routes E G rs nodes w1 = (Ok (), w')" "syncRoutes E G nodes w = (Ok (), w')" "up w1" "up w'"
    "\<forall>r. r \<in> set rs \<longleftrightarrow> rt_DestinationCIDR r \<noteq> ''0.0.0.0/0'' \<and> tbl w (rt_DestinationCIDR r) = Some r"
    "tbl w1 = (\<lambda>c. if \<exists>r \<in> set rs. conflictWithNodes r nodes \<and> rt_DestinationCIDR r = c then None else tbl w c)"
    using assms(1) by (rule sync_routes_ok)
  have "tbl w1 cidr = Some r"
    using s(7,8) assms(2,3) tbl_cidr [OF assms(1,2)] by auto
  then show ?thesis
    using add_routes_ensures [OF s(5), of rs nodes] s(3,4) unfolding Let_def by auto
qed

text \<open>A CIDR that is among the cached routes is not created again, whether its route still exists or not.\<close>

lemma add_listed:
  assumes "up w" "cidr \<noteq> ''''" "\<exists>r \<in> set rs. rt_DestinationCIDR r = c"
  shows "tbl (snd (addRouteForNode E G cidr node rs w)) c = tbl w c"
proof (cases "getNodeInstanceId node = '''' \<or> (\<forall>r \<in> set rs. rt_DestinationCIDR r \<noteq> cidr)")
  case True
  then consider "getNodeInstanceId node = ''''" | "getNodeInstanceId node \<noteq> ''''" "\<forall>r \<in> set rs. rt_DestinationCIDR r \<noteq> cidr"
    by blast
  then show ?thesis
  proof cases
    case 1
    then show ?thesis by (simp add: addRouteForNode_def)
  next
    case 2
    then have "c \<noteq> cidr" using assms(3) by blast
    then show ?thesis using add_ensures [OF assms(1) 2(1) assms(2) 2(2)] by (auto simp: route_ensured_def)
  qed
next
  case False
  then have "find (\<lambda>r. rt_DestinationCIDR r = cidr) rs \<noteq> None" "rs \<noteq> []"
    by (auto simp: find_None_iff)
  then obtain r where "find (\<lambda>r. rt_DestinationCIDR r = cidr) rs = Some r" "rs \<noteq> []" by blast
  moreover from this(1) have "rt_DestinationCIDR r = cidr" by (auto simp: find_Some_iff)
  ultimately have "findRoute E G cidr rs w = (Ok (Some r), w)" "rt_DestinationCIDR r = cidr"
    using assms(2) by (auto simp: findRoute_def)
  then show ?thesis
    using False assms(1) set_keeps by (simp add: addRouteForNode_def on_res_def Let_def cache_and_return_def)
qed

lemma add_routes_listed:
  "up w \<Longrightarrow> \<exists>r \<in> set rs. rt_DestinationCIDR r = c \<Longrightarrow> tbl (snd (add_routes E G rs nodes w)) c = tbl w c"
proof (induction nodes arbitrary: w)
  case (Cons m nodes)
  from Cons.prems(1) show ?case
  proof (cases rule: add_routes_step [of w rs m nodes])
    case skip
    then show ?thesis using Cons by simp
  next
    case (add n cidr w1)
    then show ?thesis
      using Cons.IH [OF add(2) Cons.prems(2)] add_listed [OF Cons.prems(1) add(6) Cons.prems(2), of m] by simp
  qed
qed simp

text \<open>A route that conflicts with some node is gone after the pass, and its CIDR has no route at all.\<close>

lemma sync_routes_deletes:
  assumes "up w" "tbl w cidr = Some r" "cidr \<noteq> ''0.0.0.0/0''" "conflictWithNodes r nodes"
  shows "tbl (snd (syncRoutes E G nodes w)) cidr = None"
proof -
  obtain rs w0 w1 w' where s: "ListRoutes E G w = (Ok rs, w0)" "delete_conflicts E G nodes rs w0 = (Ok (), w1)"
    "add_routes E G rs nodes w1 = (Ok (), w')" "syncRoutes E G nodes w = (Ok (), w')" "up w1" "up w'"
    "\<forall>r. r \<in> set rs \<longleftrightarrow> rt_DestinationCIDR r \<noteq> ''0.0.0.0/0'' \<and> tbl w (rt_DestinationCIDR r) = Some r"
    "tbl w1 = (\<lambda>c. if \<exists>r \<in> set rs. conflictWithNodes r nodes \<and> rt_DestinationCIDR r = c then None else tbl w c)"
    using assms(1) by (rule sync_routes_ok)
  have c: "rt_DestinationCIDR r = cidr" using tbl_cidr assms(1,2) by blast
  then have r: "r \<in> set rs" using s(7) assms(2,3) by simp
  then have "\<exists>x \<in> set rs. conflictWithNodes x nodes \<and> rt_DestinationCIDR x = cidr" using assms(4) c by blast
  then have "tbl w1 cidr = None" by (simp only: s(8) if_True)
  then show ?thesis using add_routes_listed [OF s(5), of rs cidr nodes] r c s(3,4) by auto
qed

text \<open>
  A pass leaves a CIDR with no route or the node's: a wrong route conflicts and is deleted, and only nodes with
  this CIDR can create one. The next pass, if it starts without a route, creates it.
\<close>

lemma sync_routes_settles:
  assumes "up w" "getIPv4RouteForNode node = Ok (Some n, cidr)" "length (ipn_Mask n) = 4"
    and "cidr \<noteq> ''0.0.0.0/0''" "node \<in> set nodes" "list_all (\<lambda>m. m = node \<or> apart n m) nodes"
    and "tbl (snd (syncRoutes E G nodes w)) cidr = Some r"
  shows "rt_InstanceId r = getNodeInstanceId node"
proof (cases "\<exists>x. tbl w cidr = Some x \<and> rt_InstanceId x \<noteq> getNodeInstanceId node")
  case True
  then obtain x where x: "tbl w cidr = Some x" "rt_InstanceId x \<noteq> getNodeInstanceId node" by blast
  have "conflictWithNodes x nodes"
    using own_wrong_conflicts [OF assms(2,3,5) tbl_cidr [OF assms(1) x(1)] x(2)] .
  then show ?thesis using sync_routes_deletes [OF assms(1) x(1) assms(4)] assms(7) by simp
next
  case False
  obtain rs w0 w1 w' where s: "ListRoutes E G w = (Ok rs, w0)" "delete_conflicts E G nodes rs w0 = (Ok (), w1)"
    "add_routes E G rs nodes w1 = (Ok (), w')" "syncRoutes E G nodes w = (Ok (), w')" "up w1" "up w'"
    "\<forall>r. r \<in> set rs \<longleftrightarrow> rt_DestinationCIDR r \<noteq> ''0.0.0.0/0'' \<and> tbl w (rt_DestinationCIDR r) = Some r"
    "tbl w1 = (\<lambda>c. if \<exists>r \<in> set rs. conflictWithNodes r nodes \<and> rt_DestinationCIDR r = c then None else tbl w c)"
    using assms(1) by (rule sync_routes_ok)
  have t: "tbl (snd (add_routes E G rs nodes w1)) cidr = Some r" using assms(7) s(3,4) by simp
  show ?thesis
  proof (rule add_routes_right [OF s(5) _ _ t])
    show "rt_InstanceId x = getNodeInstanceId node" if "tbl w1 cidr = Some x" for x
      using that False unfolding s(8) by (auto split: if_splits)
    show "getNodeInstanceId m = getNodeInstanceId node" if "m \<in> set nodes" "getIPv4RouteForNode m = Ok (k, cidr)" for m k
    proof (cases "m = node")
      case False
      then have "apart n m" using that(1) assms(6) by (auto simp: list_all_iff)
      then show ?thesis using apart_other_cidr [OF assms(2,3)] that(2) by blast
    qed simp
  qed
qed

end

end
