(* ===== verification/Reference_Run.thy ===== *)
theory Reference_Run
  imports Vpc_Api Reference_Cloud
begin

text \<open>
  The contract of \<open>Vpc_Api\<close> holds for the model's own cloud operations in the concrete world: from the HTTP
  requests that \<open>pkg/http/kophttp.go\<close> sends up to \<open>pkg/ksyun\<close>, run against the reference cloud. What the
  locales prove of the controller is thereby a statement about the whole program.
\<close>

definition ref_ok :: "Globals \<Rightarrow> Cloud \<Rightarrow> bool" where
  "ref_ok G w \<longleftrightarrow> ref_up G w \<and> \<not> cf_AlarmEnabled (g_Cfg G)"

lemma ref_table_with_created:
  assumes "ref_table w cidr = None"
  shows "ref_table (with_created G i cidr w) = (ref_table w)(cidr := Some (to_route (created G i cidr w)))"
proof
  fix c
  have "find P (xs @ [x]) = (case find P xs of None \<Rightarrow> if P x then Some x else None | Some y \<Rightarrow> Some y)"
    for P :: "RouteSetType \<Rightarrow> bool" and xs x by (induction xs) auto
  then show "ref_table (with_created G i cidr w) c
      = ((ref_table w)(cidr := Some (to_route (created G i cidr w)))) c"
    using assms by (auto simp: ref_table_def with_created_def created_def split: option.splits)
qed

lemma option_ext: "(\<And>x. a = Some x \<longleftrightarrow> b = Some x) \<Longrightarrow> a = b"
  by (cases a; cases b) auto

lemma ref_table_without_route:
  assumes "ref_up G w" "ref_table w cidr = Some rt"
  shows "ref_table (without_route (rt_RouteId rt) w) = (ref_table w)(cidr := None)"
proof
  fix c
  obtain r where r: "r \<in> set (cl_routes w)" "rst_DestinationCIDR r = cidr" "rt = to_route r"
    using assms ref_table_Some by auto
  have ids: "rst_RouteId x = rst_RouteId r \<longleftrightarrow> x = r" if "x \<in> set (cl_routes w)" for x
    using that r(1) assms(1) by (auto simp: ref_up_def distinct_map inj_on_def)
  have cidrs: "rst_DestinationCIDR x = cidr \<longleftrightarrow> x = r" if "x \<in> set (cl_routes w)" for x
    using that r(1,2) assms(1) by (auto simp: ref_up_def distinct_map inj_on_def)
  show "ref_table (without_route (rt_RouteId rt) w) c = ((ref_table w)(cidr := None)) c"
  proof (rule option_ext)
    fix x
    have "ref_table (without_route (rt_RouteId rt) w) c = Some x \<longleftrightarrow>
        (\<exists>y \<in> set (cl_routes w). y \<noteq> r \<and> rst_DestinationCIDR y = c \<and> x = to_route y)"
      using ref_table_Some [OF ref_up_without_route [OF assms(1)], of "rt_RouteId rt" c x] ids r(3)
      by (auto simp: without_route_def)
    also have "\<dots> \<longleftrightarrow> ((ref_table w)(cidr := None)) c = Some x"
      using ref_table_Some [OF assms(1), of c x] cidrs r(2) by auto
    finally show "ref_table (without_route (rt_RouteId rt) w) c = Some x \<longleftrightarrow>
      ((ref_table w)(cidr := None)) c = Some x" .
  qed
qed

lemma ref_collect:
  assumes "ref_up G w"
  shows "r \<in> set (collect_routes (cl_routes w)) \<longleftrightarrow>
    rt_DestinationCIDR r \<noteq> ''0.0.0.0/0'' \<and> ref_table w (rt_DestinationCIDR r) = Some r"
proof -
  have c: "rt_DestinationCIDR r = rst_DestinationCIDR y" if "r = to_route y" for y
    using that by (simp only: to_route_fields)
  show ?thesis
  proof
    assume "r \<in> set (collect_routes (cl_routes w))"
    then obtain y where y: "y \<in> set (cl_routes w)" "rst_DestinationCIDR y \<noteq> ''0.0.0.0/0''" "r = to_route y"
      by (auto simp: collect_routes_eq)
    moreover note c [OF y(3)]
    ultimately show "rt_DestinationCIDR r \<noteq> ''0.0.0.0/0'' \<and> ref_table w (rt_DestinationCIDR r) = Some r"
      unfolding ref_table_Some [OF assms] by metis
  next
    assume "rt_DestinationCIDR r \<noteq> ''0.0.0.0/0'' \<and> ref_table w (rt_DestinationCIDR r) = Some r"
    then obtain y where y: "y \<in> set (cl_routes w)" "rt_DestinationCIDR r \<noteq> ''0.0.0.0/0''" "r = to_route y"
      unfolding ref_table_Some [OF assms] by blast
    moreover note c [OF y(3)]
    ultimately have "y \<in> set (filter (\<lambda>r. rst_DestinationCIDR r \<noteq> ''0.0.0.0/0'') (cl_routes w))" by simp
    then show "r \<in> set (collect_routes (cl_routes w))"
      unfolding collect_routes_eq set_map y(3) by (rule imageI)
  qed
qed

text \<open>The controller's other calls change neither the routes nor the VPC.\<close>

lemma ref_table_frame [simp]:
  "ref_table (w\<lparr>cl_nodes := n\<rparr>) = ref_table w" "ref_table (w\<lparr>cl_cache := k\<rparr>) = ref_table w"
  "ref_table (w\<lparr>cl_events := e\<rparr>) = ref_table w" "ref_table (tick w) = ref_table w"
  by (rule ext, simp add: ref_table_def tick_def)+

lemma ref_ok_frame [simp]:
  "ref_ok G (w\<lparr>cl_nodes := n\<rparr>) = ref_ok G w" "ref_ok G (w\<lparr>cl_cache := k\<rparr>) = ref_ok G w"
  "ref_ok G (w\<lparr>cl_events := e\<rparr>) = ref_ok G w" "ref_ok G (tick w) = ref_ok G w"
  by (simp_all add: ref_ok_def ref_up_def tick_def)

text \<open>The routes at a moment: the calls of \<open>pkg/ksyun\<close> change neither the nodes nor the cache of the controller.\<close>

definition ref_at :: "Globals \<Rightarrow> Node list \<Rightarrow> (string \<times> Route) list \<Rightarrow> Cloud \<Rightarrow> bool" where
  "ref_at G N K w \<longleftrightarrow> ref_ok G w \<and> cl_nodes w = N \<and> cl_cache w = K"

interpretation api: vpc_api ref_env G "ref_at G N K" ref_table
  for G and N and K
proof (unfold_locales, goal_cases)
  case (1 w cidr r)
  then show ?case using ref_table_Some by (fastforce simp: ref_ok_def ref_at_def)
next
  case (2 w cidr)
  then show ?case using ref_FindRoute by (auto simp: ref_ok_def ref_at_def)
next
  case (3 w)
  then show ?case using ref_ListRoutes ref_collect by (auto simp: ref_ok_def ref_at_def)
next
  case (4 w cidr i)
  then show ?case
    using ref_CreateRoute_new [of G w cidr i] ref_up_with_created [of G w cidr i] ref_table_None
      ref_table_with_created [of w cidr G i]
    by (auto simp: ref_ok_def ref_at_def created_def with_created_def)
next
  case (5 w cidr r i)
  then show ?case using ref_CreateRoute_exists [of G w cidr r i]
    by (auto simp: ref_ok_def ref_at_def same_with_a_route_def)
next
  case (6 w cidr)
  then show ?case
    using ref_DeleteRoute [of G w cidr] ref_up_without_route ref_table_without_route [of G w cidr]
    by (auto simp: ref_ok_def ref_at_def without_route_def fun_upd_idem split: option.split)
qed (simp add: ref_documented)

lemma ref_at_now: "ref_ok G w \<Longrightarrow> ref_at G (cl_nodes w) (cl_cache w) w"
  by (simp add: ref_at_def)

lemmas api_laws = api.find_ok [OF ref_at_now] api.list_ok [OF ref_at_now] api.create_new [OF ref_at_now]
  api.create_duplicate [OF ref_at_now] api.delete_ok [OF ref_at_now]

interpretation ref: calm_world ref_env G "ref_ok G" ref_table
  for G
proof (unfold_locales, goal_cases)
  case (1 w cidr r)
  then show ?case by (rule api.tbl_cidr [OF ref_at_now])
next
  case (2 w cidr)
  then show ?case using api_laws(1) unfolding ref_at_def by blast
next
  case (3 w)
  then show ?case using api_laws(2) unfolding ref_at_def by blast
next
  case (4 w cidr i)
  then show ?case using api_laws(3) unfolding ref_at_def by blast
next
  case (5 w cidr r i)
  then show ?case using api_laws(4) unfolding ref_at_def by blast
next
  case (6 w cidr)
  then show ?case using api_laws(5) unfolding ref_at_def by blast
next
  case (12 t node created)
  show ?case by (intro keeps_update_condition) (simp_all add: keeps_def split: option.split)
qed (simp_all add: ref_documented keeps_def calm_def split: option.split)

section \<open>A concrete cloud, for the witnesses\<close>

definition demo_globals :: Globals where
  "demo_globals = \<lparr>g_Cfg = \<lparr>cf_NetworkEndpoint = '''', cf_ClusterUUID = ''c-1'', cf_VpcID = ''vpc-1'',
     cf_Region = ''cn-1'', cf_InstanceIdFrom = '''', cf_AlarmEnabled = False\<rparr>, g_AlarmKeys = ('''', '''')\<rparr>"

definition demo_route :: "string \<Rightarrow> string \<Rightarrow> RouteSetType" where
  "demo_route cidr i = \<lparr>rst_RouteId = ''rt-0'', rst_VpcId = ''vpc-1'', rst_RouteType = ''Host'',
     rst_DestinationCIDR = cidr, rst_NextHopset = [i]\<rparr>"

definition demo_cloud :: "RouteSetType list \<Rightarrow> Cloud" where
  "demo_cloud rs = \<lparr>cl_vpc = \<lparr>vpc_VpcId = ''vpc-1'', vpc_ProductTag = ''kce''\<rparr>, cl_routes = rs,
     cl_next = 1, cl_nodes = [ten_node], cl_cache = [], cl_events = [], cl_clock = 100\<rparr>"

lemma demo_ok: "ref_ok demo_globals (demo_cloud [])" "ref_ok demo_globals (demo_cloud [demo_route c i])"
  by (simp_all add: ref_ok_def ref_up_def demo_cloud_def demo_globals_def demo_route_def defaultRouteType_def dec_small digit_chars)

lemma demo_table: "ref_table (demo_cloud []) c = None"
  "ref_table (demo_cloud [demo_route d i]) c = (if c = d then Some (to_route (demo_route d i)) else None)"
  by (auto simp: ref_table_def demo_cloud_def demo_route_def)

lemma demo_route_fields [simp]:
  "rst_DestinationCIDR (demo_route c i) = c" "rst_NextHopset (demo_route c i) = [i]"
  by (simp_all add: demo_route_def)

lemma demo_route_there: "ref_table (demo_cloud [demo_route d i]) d = Some (to_route (demo_route d i))"
  by (simp add: demo_table)

lemma ten_node_facts: "needSyncRoute ten_node" "getNodeInstanceId ten_node = ''i-1''" "nd_Name ten_node = ''n1''"
  by (simp_all add: ten_node_def empty_node_def needSyncRoute_def HasExcludeLabel_def map_get_def
      FindCondition_def FindCondition_at_def getNodeInstanceId_def)

lemma demo_get: "k_get ref_env ''n1'' (demo_cloud rs) = (Ok ten_node, demo_cloud rs)"
  by (simp add: demo_cloud_def ten_node_facts)

section \<open>Properties\<close>

text \<open>
  C7 One event for a live node, run against the reference cloud down to the HTTP requests: afterwards the
  VPC has a route for the node's CIDR; a new route points to the node's instance, an existing one is not
  touched, and neither is the route of any other CIDR.
\<close>

theorem reconcile_creates_route:
  assumes "ref_ok G w" "k_get ref_env name w = (Ok node, w1)" "needSyncRoute node"
    and "getIPv4RouteForNode node = Ok (n, cidr)" "cidr \<noteq> ''''" "getNodeInstanceId node \<noteq> ''''"
  shows "route_ensured (ref_table w) cidr (getNodeInstanceId node)
           (ref_table (snd (Reconcile ref_env G True name w)))"
  using ref.reconcile_live [OF assms] by simp

theorem reconcile_creates_route_witness:
  "\<exists>r. ref_table (snd (Reconcile ref_env demo_globals True ''n1'' (demo_cloud []))) ''10.0.0.0/8'' = Some r \<and>
     rt_InstanceId r = ''i-1''"
  using reconcile_creates_route [OF demo_ok(1) demo_get ten_node_facts(1) ten_node_net]
  by (auto simp: route_ensured_def demo_table ten_node_facts)

text \<open>
  C8 The event of a node that no longer exists and whose route is cached: the request succeeds, the
  VPC has no route for the cached CIDR, all other routes are as before, and the cache entry is gone.
\<close>

theorem reconcile_removes_route:
  assumes "ref_ok G w" "k_get ref_env name w = (Err e, w1)" "is_not_found ref_env e"
    and "cache_get ref_env name w1 = Some r"
  shows "\<exists>w'. Reconcile ref_env G True name w = (Ok (), w') \<and>
    ref_table w' = (ref_table w)(rt_DestinationCIDR r := None) \<and> cache_get ref_env name w' = None"
  using ref.reconcile_deleted [OF assms] by blast

theorem reconcile_removes_route_witness:
  "ref_table (snd (Reconcile ref_env demo_globals True ''gone'' (demo_cloud [demo_route ''10.0.0.0/8'' ''i-1'']
       \<lparr>cl_cache := [(''gone'', to_route (demo_route ''10.0.0.0/8'' ''i-1''))]\<rparr>))) ''10.0.0.0/8'' = None"
proof -
  let ?r = "to_route (demo_route ''10.0.0.0/8'' ''i-1'')"
  let ?w = "demo_cloud [demo_route ''10.0.0.0/8'' ''i-1'']\<lparr>cl_cache := [(''gone'', ?r)]\<rparr>"
  have "k_get ref_env ''gone'' ?w = (Err (ApiErr ''NotFound'' ''node not found''), ?w)"
    by (simp add: demo_cloud_def ten_node_facts)
  then obtain w' where "Reconcile ref_env demo_globals True ''gone'' ?w = (Ok (), w')"
    "ref_table w' = (ref_table ?w)(rt_DestinationCIDR ?r := None)"
    using reconcile_removes_route [of demo_globals ?w "''gone''" _ ?w ?r] demo_ok(2)
    by (auto simp: has_reason_def)
  then show ?thesis by simp
qed

text \<open>
  One pass of the periodic synchronisation gives every listed node its route: a node that needs one,
  has a pod CIDR and an instance id, and whose CIDR had no route before the pass, has one after it.
\<close>

lemma sync_creates_missing:
  assumes "ref_ok G w" "node \<in> set nodes" "needSyncRoute node" "getIPv4RouteForNode node = Ok (n, cidr)"
    and "cidr \<noteq> ''''" "getNodeInstanceId node \<noteq> ''''" "ref_table w cidr = None"
  shows "ref_table (snd (syncRoutes ref_env G nodes w)) cidr \<noteq> None"
  by (rule ref.sync_routes_ensures [OF assms])

text \<open>
  C10 The pass removes every route that conflicts with a listed node, other than the default route: its
  CIDR has no route afterwards.
\<close>

theorem sync_deletes_conflicts:
  assumes "ref_ok G w" "ref_table w cidr = Some r" "cidr \<noteq> ''0.0.0.0/0''" "conflictWithNodes r nodes"
  shows "ref_table (snd (syncRoutes ref_env G nodes w)) cidr = None"
  by (rule ref.sync_routes_deletes [OF assms])

theorem sync_deletes_conflicts_witness:
  "ref_table (snd (syncRoutes ref_env demo_globals [ten_node] (demo_cloud [demo_route ''10.1.0.0/16'' ''i-9''])))
     ''10.1.0.0/16'' = None"
  by (rule sync_deletes_conflicts [OF demo_ok(2) demo_route_there])
     (simp_all add: ten_node_net ten_contains_ten_one)



end
