(* ===== verification/Client_Properties.thy ===== *)
theory Client_Properties
  imports Failing_Cloud Reference_Run
begin

text \<open>
  Properties of the HTTP client and of the route client: which errors are retried and how often, the
  identifier of a request, the keys of a retried call, how long the wait for a route can take.
\<close>

section \<open>Waiting as a bounded loop\<close>

definition wait_step :: "'w env \<Rightarrow> string \<Rightarrow> 'w \<times> RouteClient \<Rightarrow> (bool \<times> unit res) \<times> ('w \<times> RouteClient)" where
  "wait_step E rid s =
     (case rc_GetRoute E rid s of
        (Panic p, s') \<Rightarrow> ((True, Panic p), s')
      | (Err e, s') \<Rightarrow> ((False, Err (GetClientErrorFromString ''Timeout'' '''')), s')
      | (Ok route, s') \<Rightarrow>
          (if rst_RouteId route \<noteq> '''' then ((True, Ok ()), s')
           else ((False, Err (GetClientErrorFromString ''Timeout'' '''')), s')))"

lemma wait_loop_step:
  "wait_loop E rid timeout s =
     (case wait_step E rid s of
        ((True, r), s') \<Rightarrow> (r, s')
      | ((False, r), s') \<Rightarrow>
          if timeout \<le> DefaultWaitForInterval then (r, s')
          else wait_loop E rid (timeout - DefaultWaitForInterval) (pause_interval E s'))"
  by (subst wait_loop.simps) (auto simp: wait_step_def Let_def split: prod.splits res.splits)

interpretation wait: retry_loop "\<lambda>n. wait_loop E rid (DefaultWaitForInterval * int n)" "wait_step E rid" "pause_interval E"
  for E and rid
proof unfold_locales
  fix s r s' n
  show "wait_step E rid s = ((True, r), s') \<Longrightarrow> wait_loop E rid (DefaultWaitForInterval * int (Suc n)) s = (r, s')"
    "wait_step E rid s = ((False, r), s') \<Longrightarrow> wait_loop E rid (DefaultWaitForInterval * int (Suc 0)) s = (r, s')"
    by (simp_all add: wait_loop_step)
  show "wait_loop E rid (DefaultWaitForInterval * int (Suc (Suc n))) s
      = wait_loop E rid (DefaultWaitForInterval * int (Suc n)) (pause_interval E s')"
    if "wait_step E rid s = ((False, r), s')"
    using that by (subst wait_loop_step) (simp add: DefaultWaitForInterval_def algebra_simps)
qed

text \<open>A timeout that is no multiple of the interval counts as the next one.\<close>

lemma wait_loop_rounds:
  assumes "(timeout - 1) div DefaultWaitForInterval = int n"
  shows "wait_loop E rid timeout s = wait_loop E rid (DefaultWaitForInterval * int (Suc n)) s"
  using assms
proof (induction n arbitrary: timeout s)
  case 0
  then have "timeout \<le> 5" by (simp add: DefaultWaitForInterval_def)
  then show ?case by (subst (1 2) wait_loop_step) (simp add: DefaultWaitForInterval_def split: prod.splits)
next
  case (Suc n)
  then have t: "\<not> timeout \<le> DefaultWaitForInterval" "(timeout - DefaultWaitForInterval - 1) div DefaultWaitForInterval = int n"
    unfolding DefaultWaitForInterval_def by linarith+
  have i: "DefaultWaitForInterval * int (Suc (Suc n)) - DefaultWaitForInterval = DefaultWaitForInterval * int (Suc n)"
    by (simp add: algebra_simps)
  have "\<not> DefaultWaitForInterval * int (Suc (Suc n)) \<le> DefaultWaitForInterval"
    by (simp add: DefaultWaitForInterval_def)
  with t(1) Suc.IH [OF t(2)] show ?case
    by (subst (1 2) wait_loop_step, unfold i) (simp only: if_False)
qed

text \<open>How \<open>WaitForAllRouteEntriesAvailable\<close> ends: after at most \<open>wait_rounds\<close> further polls.\<close>

definition wait_rounds :: "int \<Rightarrow> nat" where
  "wait_rounds timeout = (if timeout \<le> 0 then 11 else nat ((timeout - 1) div 5))"

lemma wait_outcome:
  "\<exists>k t. k \<le> wait_rounds timeout \<and> attempts (wait_step E rid) (pause_interval E) k s t \<and>
     (case wait_step E rid t of ((stop, r), s') \<Rightarrow>
        WaitForAllRouteEntriesAvailable E rid timeout s = (r, s') \<and> (stop \<or> k = wait_rounds timeout))"
proof -
  let ?n = "wait_rounds timeout"
  have w: "WaitForAllRouteEntriesAvailable E rid timeout s = wait_loop E rid (DefaultWaitForInterval * int (Suc ?n)) s"
    unfolding WaitForAllRouteEntriesAvailable_def Let_def
    by (rule wait_loop_rounds) (simp add: wait_rounds_def DefaultTimeout_def DefaultWaitForInterval_def)
  show ?thesis
    unfolding w by (rule wait.loop_outcome [where n = ?n and E = E and rid = rid and s = s]) fastforce+
qed

lemma ref_GetRoute_missing:
  assumes "ref_up G w" "client_of G c" "rid \<notin> rst_RouteId ` set (cl_routes w)"
  obtains c' where "rc_GetRoute ref_env rid (w, c) = (Panic index_out_of_range, (w, c'))"
proof -
  let ?a = "[(''Action'', [''DescribeRoutes'']), (''Version'', [defaultVersion]), (''RouteId.1'', [rid])]"
  have none: "filter (described (\<lambda>k. map_option Values_Get (map_of ?a k))) (cl_routes w) = []"
    using assms(3) by (auto simp: filter_empty_conv described_def matching_def Values_Get_def)
  have ans: "answer (\<lambda>k. map_option Values_Get (map_of ?a k)) w
      = (\<lparr>rs_StatusCode = 200, rs_Body = netstrings (map enc_route [])\<rparr>, w)"
    using none by (simp add: answer_def param_def Values_Get_def)
  obtain c' where "call_api ref_env defaultServerName (''get route '' @ rid) ?a GET id ref_keys (w, c)
       = (Ok (netstrings (map enc_route [])), (w, c'))"
    by (rule ref_call_ok [OF ans assms(1,2) plain_bodies(1)]) simp_all
  moreover have "decode_all dec_route (netstrings (map enc_route [])) = Ok []" by (rule decode_all_routes)
  ultimately show thesis
    by (intro that) (simp_all add: rc_GetRoute_def on_res_def decode_wrapped_def Let_def del: list.map)
qed

section \<open>The keys of a retried call\<close>

lemma prepare_headers:
  fixes c :: "'c ApiClient_scheme"
  assumes "plain_body body method"
  shows "kop_headers (ac_client (prepare E server action method body aksk c))
     = kop_headers (SetHeader (ac_headers (set_token aksk c)) (ac_client c))"
  using assms
  by (auto simp: prepare_def Let_def resign_def SetSigner_def SetMethod_def SetUrlQuery_def plain_body_def
      SetBody_def SetHeader_def SetEndpoint_def set_token_def)

lemma prepare_token:
  fixes c :: "'c ApiClient_scheme"
  assumes "plain_body body method" "distinct (map fst (ac_headers c))" "ak_SecurityToken aksk \<noteq> ''''"
  shows "map_of (kop_headers (ac_client (prepare E server action method body aksk c))) token_header
     = Some (ak_SecurityToken aksk)"
  using assms(3) distinct_hset [OF assms(2)]
  by (simp add: prepare_headers [OF assms(1)] map_of_SetHeader set_token_def)

lemma call_api_reload:
  fixes c :: "'c ApiClient_scheme"
  assumes "Go E (ac_client (prepare E server action method body aksk c)) w = (Err err, w1)"
    and "str_contains (error_text err) SecurityTokenExpired" "aksk_reload E w1 = (Ok aksk2, w2)"
  defines "k \<equiv> SetSigner server (cf_Region (ac_conf c)) (ak_AK aksk2) (ak_SK aksk2)
      (ac_client (prepare E server action method body aksk c))"
  shows "\<exists>c'. call_api E server what action method body aksk (w, c) =
    (case Go E k w2 of
       (Ok data, w3) \<Rightarrow> (Ok data, (w3, c'))
     | (Err e, w3) \<Rightarrow> (Err (ErrorString (''retry kop '' @ what @ '' after reloading aksk err: '' @ error_text e)), (w3, c'))
     | (Panic p, w3) \<Rightarrow> (Panic p, (w3, c')))"
proof -
  let ?c = "prepare E server action method body aksk c"
  have conf: "ac_conf ?c = ac_conf c"
    by (simp add: prepare_def Let_def resign_def set_token_def)
  have k: "ac_client (resign server aksk2 (set_token aksk2 ?c)) = k"
    by (simp add: k_def resign_def set_token_def conf)
  show ?thesis
    using assms(1-3)
    by (intro exI [of _ "resign server aksk2 (set_token aksk2 ?c)"])
       (simp add: call_api_def client_go_def lift_w_def on_res_def k split: prod.splits res.splits)
qed

lemma SetSigner_fields [simp]:
  "kop_headers (SetSigner a b c d k) = kop_headers k" "sendable (SetSigner a b c d k) = sendable k"
  by (simp_all add: SetSigner_def sendable_def)

section \<open>Properties\<close>

text \<open>
  C24 Exactly the transport failures are retried: an end of file and every DNS, socket or URL error, whatever
  the method of the request, a POST included; never the status of an answer.
\<close>

theorem shouldRetry_iff:
  "shouldRetry err \<longleftrightarrow> err = Some EOF \<or> err = Some UnexpectedEOF \<or> (\<exists>m. err = Some (DNSError m)) \<or>
     (\<exists>op e. err = Some (OpError op e)) \<or> (\<exists>op url e. err = Some (UrlError op url e))"
  by (auto simp: shouldRetry_def shouldRetry_err.simps split: option.splits gerror.splits)

text \<open>
  C28 The identifier of a request is the prefix, a hyphen and 32 letters or digits, whatever the random source returns.
\<close>

theorem genRequestId_shape:
  "\<exists>r w'. genRequestId E kop w = (kop_requestIdPrefix kop @ ''-'' @ r, w') \<and> length r = 32 \<and> set r \<subseteq> set Alphanumeric"
proof -
  obtain b w' where b: "random_loop E 32 Alphanumeric w = (b, w')" by (metis surj_pair)
  have "Alphanumeric \<noteq> []" by (simp add: Alphanumeric_def Numeric_def)
  with b have "set b \<subseteq> set Alphanumeric" by (intro random_loop_chars)
  with random_loop_length [OF b] b show ?thesis
    by (simp add: genRequestId_def random_String_def)
qed



text \<open>
  C25 When the keys of a call have expired, the call is sent once more with the reloaded access keys, but with
  the security token of the expired ones: the new token never reaches the headers of the retried request.
\<close>

theorem retried_call_stale_token:
  fixes c :: "'c ApiClient_scheme"
  assumes "plain_body body method" "distinct (map fst (ac_headers c))" "ak_SecurityToken aksk \<noteq> ''''"
    and "Go E (ac_client (prepare E server action method body aksk c)) w = (Err err, w1)"
    and "str_contains (error_text err) SecurityTokenExpired" "aksk_reload E w1 = (Ok aksk2, w2)"
  shows "let k = SetSigner server (cf_Region (ac_conf c)) (ak_AK aksk2) (ak_SK aksk2)
           (ac_client (prepare E server action method body aksk c))
     in map_of (kop_headers k) token_header = Some (ak_SecurityToken aksk) \<and>
       (\<exists>c'. call_api E server what action method body aksk (w, c) =
         (case Go E k w2 of
            (Ok data, w3) \<Rightarrow> (Ok data, (w3, c'))
          | (Err e, w3) \<Rightarrow> (Err (ErrorString (''retry kop '' @ what @ '' after reloading aksk err: ''
              @ error_text e)), (w3, c'))
          | (Panic p, w3) \<Rightarrow> (Panic p, (w3, c'))))"
  unfolding Let_def using prepare_token [OF assms(1-3)] call_api_reload [OF assms(4-6)] by simp

theorem retried_call_stale_token_witness:
  "\<exists>s. call_api (failing_env 400 ''SecurityTokenExpired'' \<lparr>ak_AK = ''ak2'', ak_SK = ''sk2'', ak_SecurityToken = ''token2''\<rparr>)
       ''vpc'' ''list'' [] GET id ref_keys (demo_cloud [], NewAlarmClient (g_Cfg demo_globals))
     = (Err (ErrorString (''retry kop list after reloading aksk err: ''
          @ error_text (KopError 400 ''SecurityTokenExpired''))), s)"
proof -
  let ?E = "failing_env 400 ''SecurityTokenExpired'' \<lparr>ak_AK = ''ak2'', ak_SK = ''sk2'', ak_SecurityToken = ''token2''\<rparr>"
  let ?c = "NewAlarmClient (g_Cfg demo_globals)"
  let ?p = "ac_client (prepare ?E ''vpc'' [] GET id ref_keys ?c)"
  have ok: "plain_body id GET" "distinct (map fst (ac_headers ?c))" "ak_SecurityToken ref_keys \<noteq> ''''"
    "CHR ''?'' \<notin> set (cf_NetworkEndpoint (ac_conf ?c))"
    by (simp_all add: plain_bodies NewAlarmClient_def ref_keys_def with_endpoint_def DefaultNetworkEndpoint_def
        demo_globals_def)
  have s: "sendable ?p" by (rule prepare_client(1)) (simp_all add: ok)
  have expired: "str_contains (error_text (KopError 400 ''SecurityTokenExpired'')) SecurityTokenExpired"
    by code_simp
  have go: "Go ?E ?p (demo_cloud []) = (Err (KopError 400 ''SecurityTokenExpired''), demo_cloud [])"
    by (rule failing_Go [OF s]) simp
  have again: "Go ?E (SetSigner a b i j ?p) (demo_cloud []) = (Err (KopError 400 ''SecurityTokenExpired''), demo_cloud [])"
    for a b i j
    by (rule failing_Go) (simp_all add: s)
  show ?thesis
    using retried_call_stale_token [OF ok(1-3) go expired failing_env_simps(2) [THEN fun_cong],
        where what = "''list''", unfolded Let_def again prod.case res.case, THEN conjunct2]
    by (elim exE) (rule exI, simp only: append.simps)
qed

text \<open>
  C26 \<open>WaitForAllRouteEntriesAvailable\<close> always ends, after at most one poll for each five seconds of its
  timeout and twelve for the default one: with nil at the first poll that finds the route, with the
  \<open>Timeout\<close> error when the polls are used up, and not before.
\<close>

theorem wait_bounded:
  "\<exists>k t. k \<le> wait_rounds timeout \<and> attempts (wait_step E rid) (pause_interval E) k s t \<and>
     (case rc_GetRoute E rid t of
        (Panic p, s') \<Rightarrow> WaitForAllRouteEntriesAvailable E rid timeout s = (Panic p, s')
      | (r, s') \<Rightarrow>
          if (\<exists>route. r = Ok route \<and> rst_RouteId route \<noteq> '''')
          then WaitForAllRouteEntriesAvailable E rid timeout s = (Ok (), s')
          else WaitForAllRouteEntriesAvailable E rid timeout s
                 = (Err (GetClientErrorFromString ''Timeout'' ''''), s') \<and> k = wait_rounds timeout)"
proof -
  obtain k t where *: "k \<le> wait_rounds timeout" "attempts (wait_step E rid) (pause_interval E) k s t"
    "case wait_step E rid t of ((stop, r), s') \<Rightarrow>
        WaitForAllRouteEntriesAvailable E rid timeout s = (r, s') \<and> (stop \<or> k = wait_rounds timeout)"
    using wait_outcome [of timeout E rid s] by (elim exE conjE)
  then show ?thesis
    by (intro exI [of _ k] exI [of _ t])
       (auto simp: wait_step_def split: prod.splits res.splits if_splits)
qed

text \<open>
  C27 Polling for a route the cloud does not list does not wait: the lookup indexes the first route of an
  empty answer, so \<open>WaitForAllRouteEntriesAvailable\<close> panics at the first poll instead of timing out.
\<close>

theorem wait_missing_route_panics:
  assumes "ref_up G w" "client_of G c" "rid \<notin> rst_RouteId ` set (cl_routes w)"
  shows "\<exists>s. WaitForAllRouteEntriesAvailable ref_env rid timeout (w, c) = (Panic index_out_of_range, s)"
proof -
  obtain c' where "rc_GetRoute ref_env rid (w, c) = (Panic index_out_of_range, (w, c'))"
    using assms by (rule ref_GetRoute_missing)
  then have "wait_step ref_env rid (w, c) = ((True, Panic index_out_of_range), (w, c'))"
    by (simp add: wait_step_def)
  then show ?thesis by (simp add: WaitForAllRouteEntriesAvailable_def wait_loop_step)
qed

theorem wait_missing_route_panics_witness:
  "\<exists>c s. NewRouteClient ref_env (g_Cfg demo_globals) (demo_cloud []) = (Ok c, demo_cloud []) \<and>
     WaitForAllRouteEntriesAvailable ref_env ''rt-9'' 60 (demo_cloud [], c) = (Panic index_out_of_range, s)"
proof -
  have up: "ref_up demo_globals (demo_cloud [])" using demo_ok(1) by (simp add: ref_ok_def)
  then obtain c where c: "client_of demo_globals c"
    "NewRouteClient ref_env (g_Cfg demo_globals) (demo_cloud []) = (Ok c, demo_cloud [])"
    by (rule ref_NewRouteClient)
  have "''rt-9'' \<notin> rst_RouteId ` set (cl_routes (demo_cloud []))" by (simp add: demo_cloud_def)
  from wait_missing_route_panics [OF up c(1) this, of 60] c(2) show ?thesis by blast
qed

end
