(* ===== verification/Controller_Properties.thy ===== *)
theory Controller_Properties
  imports Client_Properties
begin

text \<open>
  Properties of the controller in any environment: how often it tries, what it reports when the cloud
  fails, which requests go back into the queue, and what it writes to a node.
\<close>

section \<open>Helper facts\<close>

lemma PatchM_status_no_spec:
  "PatchM (E\<lparr>k_patch := f\<rparr>) getter PatchStatus = PatchM E getter PatchStatus"
proof -
  have "PatchStatus \<noteq> PatchSpec" "PatchStatus \<noteq> PatchAll"
    by (simp_all add: PatchStatus_def PatchSpec_def PatchAll_def)
  then show ?thesis by (simp add: PatchM_def cong: if_cong)
qed

lemma network_diff_no_spec: "network_diff (E\<lparr>k_patch := f\<rparr>) = network_diff E"
  by (simp add: network_diff_def fun_eq_iff)

lemma patch_loop_no_spec: "patch_loop (E\<lparr>k_patch := f\<rparr>) up n r s = patch_loop E up n r s"
  by (induction n arbitrary: r s)
     (simp_all add: PatchM_status_no_spec network_diff_no_spec cong: if_cong)

section \<open>Properties\<close>

text \<open>
  C21 Updating the network condition patches the status of the node at most three times: only a conflict is
  retried, and its error is returned only when it comes from the third patch; any other outcome of a
  patch is the outcome of the update.
\<close>

theorem update_condition_bounded:
  assumes "\<not> already_set (snd s) up"
  shows "\<exists>k t. k \<le> 2 \<and> attempts (patch_step E up) id k s t \<and>
     (case PatchM E (network_diff E up) PatchStatus t of
        (Err e, s') \<Rightarrow> (k = 2 \<or> \<not> is_conflict E e) \<and> updateNetworkingCondition E up s = (Err e, s')
      | (r, s') \<Rightarrow> updateNetworkingCondition E up s = (r, s'))"
  by (rule update_condition_outcome [OF assms])

theorem update_condition_bounded_witness:
  "\<exists>k t. k \<le> 2 \<and> attempts (patch_step ref_env True) id k (demo_cloud [], ten_node) t"
proof -
  have "\<not> already_set (snd (demo_cloud [], ten_node)) True"
    by (simp add: already_set_def ten_node_def empty_node_def FindCondition_def FindCondition_at_def)
  from update_condition_bounded [OF this] show ?thesis by blast
qed

text \<open>
  What is written is what is read back: after the diff, \<open>updateNetworkingCondition\<close> finds the condition
  set to the reported state and to no other, provided no condition of the node has a heartbeat in the future.
\<close>

lemma condition_written_is_read:
  assumes "network_diff E up n w = (Ok n', w')"
    and "list_all (\<lambda>c. c_LastHeartbeatTime c \<le> fst (now E (snd (now E w)))) (nd_Conditions n)"
  shows "already_set n' up \<and> \<not> already_set n' (\<not> up)"
proof -
  obtain t1 w1 t2 w2 where t: "now E w = (t1, w1)" "now E w1 = (t2, w2)" by (metis surj_pair)
  then have n': "nd_Conditions n' = diff_conditions up t1 t2 (nd_Conditions n)"
    using assms(1) by (auto simp: network_diff_def)
  have "\<forall>c \<in> set (nd_Conditions n). c_Type c = NodeNetworkUnavailable \<longrightarrow> c_LastHeartbeatTime c \<le> t2"
    using assms(2) t by (auto simp: list_all_iff)
  from diff_conditions_read [OF this, of up t1] show ?thesis
    by (cases up) (auto simp: already_set_def n' ConditionFalse_def ConditionTrue_def)
qed

text \<open>
  The update never touches the spec of a node: replacing the client's patch of objects by any function
  changes nothing, only the patch of the status is used.
\<close>

lemma update_condition_only_status:
  "updateNetworkingCondition (E\<lparr>k_patch := f\<rparr>) up s = updateNetworkingCondition E up s"
  by (simp add: updateNetworkingCondition_def patch_loop_no_spec)

text \<open>
  C22 When the lookup of the node's route fails, \<open>syncCloudRoute\<close> only records an event and then reports the
  network of the node as available, as if the route were there.
\<close>

theorem lookup_failure_reports_available:
  assumes "needSyncRoute node" "getIPv4RouteForNode node = Ok (n, cidr)" "cidr \<noteq> ''''"
    and "getNodeInstanceId node \<noteq> ''''" "FindRoute E G cidr w = (Err e, w1)" "aggregate_documented E"
  shows "\<exists>ev. ev_Type ev = EventTypeWarning \<and> ev_Object ev = nd_Name node \<and>
     syncCloudRoute E G node w = update_condition E node True (record_event E ev w1)"
proof -
  let ?ev = "node_event node (getNodeInstanceId node) EventTypeWarning ''DescriberRouteFailed''
                (''Describe Route Failed for '' @ cidr @ '' reason: '' @ GetLogMessage (Some e))"
  have "addRouteForNode E G cidr node [] w = (Ok (), record_event E ?ev w1)"
    using assms(3-5) by (simp add: addRouteForNode_def Let_def findRoute_def on_res_def)
  moreover have "new_aggregate E [] = None" using assms(6) by (simp add: aggregate_documented_def)
  ultimately show ?thesis using assms(1-3)
    by (intro exI [of _ ?ev]) (simp add: syncCloudRoute_def Let_def node_event_def)
qed

theorem lookup_failure_reports_available_witness:
  "\<exists>ev w1. syncCloudRoute (failing_env 500 ''down'' ref_keys) demo_globals ten_node (demo_cloud [])
     = update_condition (failing_env 500 ''down'' ref_keys) ten_node True (record_event ref_env ev w1)"
proof -
  let ?E = "failing_env 500 ''down'' ref_keys"
  have no: "\<not> str_contains (error_text (KopError 500 ''down'')) SecurityTokenExpired" by code_simp
  obtain e where "FindRoute ?E demo_globals ''10.0.0.0/8'' (demo_cloud []) = (Err e, demo_cloud [])"
    using failing_FindRoute [OF _ no, of demo_globals ref_keys "''10.0.0.0/8''" "demo_cloud []"]
    by (auto simp: demo_globals_def)
  from lookup_failure_reports_available [OF ten_node_facts(1) ten_node_net _ _ this]
  show ?thesis using ref_documented(4) by (auto simp: ten_node_facts aggregate_documented_def)
qed





end
