(* ===== verification/Work_Queue.thy ===== *)
theory Work_Queue
  imports Prelude
begin

text \<open>
  The task queue of \<open>pkg/controller/helper/queue.go\<close>: tasks are enqueued, a number of workers take them from
  the rate-limited work queue of client-go and call \<open>sync\<close>, failed tasks come back after a delay, and
  \<open>Shutdown\<close> waits for the channel \<open>workerDone\<close>. The library's queue is a parameter, the record
  \<open>workqueue_ops\<close>; what its documentation promises is the locale \<open>workqueue\<close>. Workers run concurrently:
  they are processes of a step relation, one step per call of the queue.
\<close>

section \<open>The queue of the library\<close>

text \<open>\<open>Get\<close> blocks when there is nothing to do, and answers \<open>quit\<close> when the queue is shut down and drained.\<close>

datatype 'e got = Blocked | Quit | Item 'e

record ('q, 'e) workqueue_ops =
  wq_Add :: "'e \<Rightarrow> 'q \<Rightarrow> 'q"
  wq_AddRateLimited :: "'e \<Rightarrow> 'q \<Rightarrow> 'q"
  wq_Get :: "'q \<Rightarrow> 'e got \<times> 'q"
  wq_Forget :: "'e \<Rightarrow> 'q \<Rightarrow> 'q"
  wq_Done :: "'e \<Rightarrow> 'q \<Rightarrow> 'q"
  wq_ShutDown :: "'q \<Rightarrow> 'q"
  wq_ShuttingDown :: "'q \<Rightarrow> bool"
  wq_Fire :: "'e \<Rightarrow> 'q \<Rightarrow> 'q"

text \<open>
  What the documentation speaks of: the items ready to be taken, those being processed, those added again
  while they are processed, those waiting for their delay (\<open>wq_Fire\<close> ends one), and the shut-down flag.
\<close>

record 'e queue_view =
  v_ready :: "'e set"
  v_again :: "'e set"
  v_processing :: "'e set"
  v_delayed :: "'e set"
  v_shut :: bool

definition view_add :: "'e \<Rightarrow> 'e queue_view \<Rightarrow> 'e queue_view" where
  "view_add e v =
     (if v_shut v then v
      else if e \<in> v_processing v then v\<lparr>v_again := insert e (v_again v)\<rparr>
      else v\<lparr>v_ready := insert e (v_ready v)\<rparr>)"

definition view_done :: "'e \<Rightarrow> 'e queue_view \<Rightarrow> 'e queue_view" where
  "view_done e v =
     (if e \<in> v_again v
      then v\<lparr>v_processing := v_processing v - {e}, v_again := v_again v - {e}, v_ready := insert e (v_ready v)\<rparr>
      else v\<lparr>v_processing := v_processing v - {e}\<rparr>)"

locale workqueue =
  fixes WQ :: "('q, 'e) workqueue_ops" and view :: "'q \<Rightarrow> 'e queue_view"
  assumes Add: "view (wq_Add WQ e q) = view_add e (view q)"
    and AddRateLimited: "view (wq_AddRateLimited WQ e q) =
      (if v_shut (view q) then view q else (view q)\<lparr>v_delayed := insert e (v_delayed (view q))\<rparr>)"
    and Get_Blocked: "wq_Get WQ q = (Blocked, q') \<Longrightarrow> view q' = view q \<and> v_ready (view q) = {} \<and> \<not> v_shut (view q)"
    and Get_Quit: "wq_Get WQ q = (Quit, q') \<Longrightarrow> view q' = view q \<and> v_ready (view q) = {} \<and> v_shut (view q)"
    and Get_Item: "wq_Get WQ q = (Item e, q') \<Longrightarrow> e \<in> v_ready (view q) \<and>
      view q' = (view q)\<lparr>v_ready := v_ready (view q) - {e}, v_processing := insert e (v_processing (view q))\<rparr>"
    and Forget: "view (wq_Forget WQ e q) = view q"
    and Done: "view (wq_Done WQ e q) = view_done e (view q)"
    and ShutDown: "view (wq_ShutDown WQ q) = (view q)\<lparr>v_shut := True\<rparr>"
    and ShuttingDown: "wq_ShuttingDown WQ q = v_shut (view q)"
    and Fire: "e \<in> v_delayed (view q) \<Longrightarrow>
      view (wq_Fire WQ e q) = view_add e ((view q)\<lparr>v_delayed := v_delayed (view q) - {e}\<rparr>)"

section \<open>The task queue\<close>

record 'o Task_Event =
  qe_Type :: string
  qe_Obj :: 'o

record ('k, 'o) Element =
  el_Key :: 'k
  el_Event :: "'o Task_Event"
  el_IsSkippable :: bool

text \<open>The task queue, over the state \<open>'q\<close> of the library's queue and the world \<open>'w\<close> that \<open>sync\<close> acts on.\<close>

record ('q, 'k, 'o, 'w) Queue =
  qu_queue :: 'q
  qu_sync :: "('k, 'o) Element \<Rightarrow> ('w, unit) eff"
  qu_workerDone :: bool
  qu_fn :: "'o \<Rightarrow> 'k res"
  qu_lastSync :: int

text \<open>\<open>keyFunc\<close> and the printing of an object are the library's.\<close>

definition defaultKeyFunc :: "('o \<Rightarrow> string res) \<Rightarrow> ('o \<Rightarrow> string) \<Rightarrow> 'o \<Rightarrow> string res" where
  "defaultKeyFunc keyFunc fmt obj =
     (case keyFunc obj of
        Err err \<Rightarrow> Err (ErrorString (''could not get key for object '' @ fmt obj @ '': '' @ error_text err))
      | r \<Rightarrow> r)"

definition NewCustomTaskQueue ::
  "'q \<Rightarrow> (('k, 'o) Element \<Rightarrow> ('w, unit) eff) \<Rightarrow> ('o \<Rightarrow> 'k res) \<Rightarrow> ('o \<Rightarrow> 'k res) option \<Rightarrow> ('q, 'k, 'o, 'w) Queue" where
  "NewCustomTaskQueue q0 syncFn keyDefault fn =
     \<lparr>qu_queue = q0, qu_sync = syncFn, qu_workerDone = False,
      qu_fn = (case fn of None \<Rightarrow> keyDefault | Some f \<Rightarrow> f), qu_lastSync = 0\<rparr>"

definition NewTaskQueue ::
  "'q \<Rightarrow> (('k, 'o) Element \<Rightarrow> ('w, unit) eff) \<Rightarrow> ('o \<Rightarrow> 'k res) \<Rightarrow> ('q, 'k, 'o, 'w) Queue" where
  "NewTaskQueue q0 syncFn keyDefault = NewCustomTaskQueue q0 syncFn keyDefault None"

definition IsShuttingDown :: "('q, ('k, 'o) Element) workqueue_ops \<Rightarrow> ('q, 'k, 'o, 'w) Queue \<Rightarrow> bool" where
  "IsShuttingDown WQ t = wq_ShuttingDown WQ (qu_queue t)"

text \<open>The parameter \<open>skippable\<close> is not used: every element has \<open>IsSkippable\<close> false.\<close>

definition enqueue ::
  "('q, ('k, 'o) Element) workqueue_ops \<Rightarrow> 'o Task_Event \<Rightarrow> bool \<Rightarrow> (('q, 'k, 'o, 'w) Queue, unit) eff" where
  "enqueue WQ obj skippable t =
     (if IsShuttingDown WQ t then (Ok (), t)
      else
        (case qu_fn t (qe_Obj obj) of
           Err err \<Rightarrow> (Ok (), t)
         | Panic p \<Rightarrow> (Panic p, t)
         | Ok key \<Rightarrow> (Ok (), t\<lparr>qu_queue :=
             wq_Add WQ \<lparr>el_Key = key, el_Event = obj, el_IsSkippable = False\<rparr> (qu_queue t)\<rparr>)))"

definition EnqueueTask where "EnqueueTask WQ obj = enqueue WQ obj False"
definition EnqueueSkippableTask where "EnqueueSkippableTask WQ obj = enqueue WQ obj True"

section \<open>The workers\<close>

text \<open>
  Where a worker is: before \<open>Get\<close>, in \<open>sync\<close> (with the time it began), before \<open>Done\<close>, after \<open>Get\<close> answered
  \<open>quit\<close>, after \<open>isClosed\<close> answered false, returned to \<open>wait.Until\<close>, or in a panic.
\<close>

datatype 'e phase = Looping | Syncing 'e int | Finishing 'e | Quitting | Closing | Returned | Panicked

type_synonym ('q, 'k, 'o, 'w) local = "('k, 'o) Element phase \<times> ('q, 'k, 'o, 'w) Queue \<times> 'w"

definition isClosed :: "bool \<Rightarrow> bool" where "isClosed ch = ch"

inductive worker :: "('q, ('k, 'o) Element) workqueue_ops \<Rightarrow> ('q, 'k, 'o, 'w) local \<Rightarrow> ('q, 'k, 'o, 'w) local \<Rightarrow> bool"
  for WQ where
  get: "wq_Get WQ (qu_queue t) = (Item key, q) \<Longrightarrow>
    worker WQ (Looping, t, w) (Syncing key ts, t\<lparr>qu_queue := q\<rparr>, w)"
| quit: "wq_Get WQ (qu_queue t) = (Quit, q) \<Longrightarrow>
    worker WQ (Looping, t, w) (Quitting, t\<lparr>qu_queue := q\<rparr>, w)"
| closed: "isClosed (qu_workerDone t) \<Longrightarrow> worker WQ (Quitting, t, w) (Returned, t, w)"
| not_closed: "\<not> isClosed (qu_workerDone t) \<Longrightarrow> worker WQ (Quitting, t, w) (Closing, t, w)"
| close: "\<not> qu_workerDone t \<Longrightarrow> worker WQ (Closing, t, w) (Returned, t\<lparr>qu_workerDone := True\<rparr>, w)"
| close_closed: "qu_workerDone t \<Longrightarrow> worker WQ (Closing, t, w) (Panicked, t, w)"
| synced: "qu_sync t key w = (Ok u, w') \<Longrightarrow>
    worker WQ (Syncing key ts, t, w)
      (Finishing key, t\<lparr>qu_queue := wq_Forget WQ key (qu_queue t), qu_lastSync := ts\<rparr>, w')"
| failed: "qu_sync t key w = (Err e, w') \<Longrightarrow>
    worker WQ (Syncing key ts, t, w)
      (Finishing key, t\<lparr>qu_queue := wq_AddRateLimited WQ
         \<lparr>el_Key = el_Key key, el_Event = el_Event key, el_IsSkippable = False\<rparr> (qu_queue t)\<rparr>, w')"
| sync_panics: "qu_sync t key w = (Panic p, w') \<Longrightarrow> worker WQ (Syncing key ts, t, w) (Panicked, t, w')"
| finish: "worker WQ (Finishing key, t, w) (Looping, t\<lparr>qu_queue := wq_Done WQ key (qu_queue t)\<rparr>, w)"

text \<open>
  The program around the workers: \<open>wait.Until\<close> calls a worker again until the stop channel is closed, tasks
  are enqueued, delays end, \<open>Shutdown\<close> shuts the library's queue down (and then waits for \<open>workerDone\<close>).
\<close>

record ('q, 'k, 'o, 'w) System =
  sy_workers :: "('k, 'o) Element phase list"
  sy_queue :: "('q, 'k, 'o, 'w) Queue"
  sy_world :: 'w
  sy_stop :: bool

definition Run :: "nat \<Rightarrow> ('q, 'k, 'o, 'w) Queue \<Rightarrow> 'w \<Rightarrow> ('q, 'k, 'o, 'w) System" where
  "Run maxConcurrentReconciles t w = \<lparr>sy_workers = replicate maxConcurrentReconciles Looping,
     sy_queue = t, sy_world = w, sy_stop = False\<rparr>"

definition Shutdown_begin :: "('q, 'e) workqueue_ops \<Rightarrow> ('q, 'k, 'o, 'w) Queue \<Rightarrow> ('q, 'k, 'o, 'w) Queue" where
  "Shutdown_begin WQ t = t\<lparr>qu_queue := wq_ShutDown WQ (qu_queue t)\<rparr>"

definition Shutdown_returns :: "('q, 'k, 'o, 'w) Queue \<Rightarrow> bool" where
  "Shutdown_returns t = isClosed (qu_workerDone t)"

inductive system :: "('q, ('k, 'o) Element) workqueue_ops \<Rightarrow> ('q \<Rightarrow> ('k, 'o) Element queue_view) \<Rightarrow>
    ('q, 'k, 'o, 'w) System \<Rightarrow> ('q, 'k, 'o, 'w) System \<Rightarrow> bool"
  for WQ view where
  work: "i < length (sy_workers s) \<Longrightarrow>
    worker WQ (sy_workers s ! i, sy_queue s, sy_world s) (p, t, w) \<Longrightarrow>
    system WQ view s (s\<lparr>sy_workers := (sy_workers s)[i := p], sy_queue := t, sy_world := w\<rparr>)"
| restart: "i < length (sy_workers s) \<Longrightarrow> sy_workers s ! i = Returned \<Longrightarrow> \<not> sy_stop s \<Longrightarrow>
    system WQ view s (s\<lparr>sy_workers := (sy_workers s)[i := Looping]\<rparr>)"
| stop: "system WQ view s (s\<lparr>sy_stop := True\<rparr>)"
| enqueued: "enqueue WQ obj skippable (sy_queue s) = (Ok (), t) \<Longrightarrow> system WQ view s (s\<lparr>sy_queue := t\<rparr>)"
| fired: "e \<in> v_delayed (view (qu_queue (sy_queue s))) \<Longrightarrow>
    system WQ view s (s\<lparr>sy_queue := (sy_queue s)\<lparr>qu_queue := wq_Fire WQ e (qu_queue (sy_queue s))\<rparr>\<rparr>)"
| shut: "system WQ view s (s\<lparr>sy_queue := Shutdown_begin WQ (sy_queue s)\<rparr>)"

inductive_cases workerE [elim!]: "worker WQ (p, t, w) l"

text \<open>Reachable from the start with \<open>n\<close> workers and an empty queue.\<close>

inductive reachable for WQ view n where
  start: "view (qu_queue t) = \<lparr>v_ready = {}, v_again = {}, v_processing = {}, v_delayed = {}, v_shut = False\<rparr> \<Longrightarrow>
    \<not> qu_workerDone t \<Longrightarrow> reachable WQ view n (Run n t w)"
| step: "reachable WQ view n s \<Longrightarrow> system WQ view s s' \<Longrightarrow> reachable WQ view n s'"

section \<open>Invariants\<close>

definition held :: "'e phase \<Rightarrow> 'e list" where
  "held p = (case p of Syncing e _ \<Rightarrow> [e] | Finishing e \<Rightarrow> [e] | _ \<Rightarrow> [])"

lemma held_simps [simp]:
  "held Looping = []" "held (Syncing e ts) = [e]" "held (Finishing e) = [e]" "held Quitting = []"
  "held Closing = []" "held Returned = []" "held Panicked = []"
  by (simp_all add: held_def)

definition busy :: "'e phase list \<Rightarrow> 'e list" where
  "busy ws = concat (map held ws)"

lemma busy_simps [simp]:
  "busy [] = []" "busy (p # ws) = held p @ busy ws" "busy (ws @ vs) = busy ws @ busy vs"
  by (simp_all add: busy_def)

lemma busy_replicate [simp]: "busy (replicate n Looping) = []"
  by (induction n) simp_all

definition ok_view :: "('k, 'o) Element queue_view \<Rightarrow> bool" where
  "ok_view v \<longleftrightarrow> v_ready v \<inter> v_processing v = {} \<and> v_again v \<subseteq> v_processing v \<and>
     finite (v_ready v) \<and> finite (v_again v) \<and>
     (\<forall>e \<in> v_ready v \<union> v_again v \<union> v_processing v \<union> v_delayed v. \<not> el_IsSkippable e)"

lemma view_add_fields [simp]:
  "v_processing (view_add e v) = v_processing v" "v_delayed (view_add e v) = v_delayed v"
  "v_shut (view_add e v) = v_shut v"
  by (simp_all add: view_add_def)

lemma view_add_waiting:
  "v_ready (view_add e v) \<union> v_again (view_add e v) =
     (if v_shut v then v_ready v \<union> v_again v else insert e (v_ready v \<union> v_again v))"
  by (auto simp: view_add_def)

lemma ok_view_add: "ok_view v \<Longrightarrow> \<not> el_IsSkippable e \<Longrightarrow> ok_view (view_add e v)"
  by (auto simp: ok_view_def view_add_def)

lemma ok_view_done: "ok_view v \<Longrightarrow> ok_view (view_done e v)"
  by (auto simp: ok_view_def view_done_def)

lemma ok_view_get: "ok_view v \<Longrightarrow> e \<in> v_ready v \<Longrightarrow>
  ok_view (v\<lparr>v_ready := v_ready v - {e}, v_processing := insert e (v_processing v)\<rparr>)"
  by (auto simp: ok_view_def)

lemma nth_split_update:
  assumes "i < length ws"
  obtains l r where "ws = l @ ws ! i # r" "\<And>p. ws[i := p] = l @ p # r"
  using assms by (metis id_take_nth_drop upd_conv_take_nth_drop)

abbreviation the_view where "the_view view s \<equiv> view (qu_queue (sy_queue s))"

definition good :: "('q \<Rightarrow> ('k, 'o) Element queue_view) \<Rightarrow> ('q, 'k, 'o, 'w) System \<Rightarrow> bool" where
  "good view s \<longleftrightarrow> ok_view (the_view view s) \<and> distinct (busy (sy_workers s)) \<and>
     set (busy (sy_workers s)) \<subseteq> v_processing (the_view view s)"

text \<open>A task is pending: it waits, for a worker, a delay or the end of its processing, or it is in \<open>sync\<close>.\<close>

definition pending :: "('q \<Rightarrow> ('k, 'o) Element queue_view) \<Rightarrow> ('k, 'o) Element \<Rightarrow> ('q, 'k, 'o, 'w) System \<Rightarrow> bool" where
  "pending view e s \<longleftrightarrow>
     e \<in> v_ready (the_view view s) \<union> v_again (the_view view s) \<union> v_delayed (the_view view s) \<or>
     (\<exists>ts. Syncing e ts \<in> set (sy_workers s))"

lemma enqueue_cases:
  assumes "enqueue WQ obj skippable t = (r, t')"
  obtains "t' = t"
  | e where "\<not> el_IsSkippable e" "t' = t\<lparr>qu_queue := wq_Add WQ e (qu_queue t)\<rparr>"
proof (cases "\<not> IsShuttingDown WQ t \<and> (\<exists>key. qu_fn t (qe_Obj obj) = Ok key)")
  case True
  then obtain key where "qu_fn t (qe_Obj obj) = Ok key" "\<not> IsShuttingDown WQ t" by blast
  then show thesis
    using assms by (intro that(2) [of "\<lparr>el_Key = key, el_Event = obj, el_IsSkippable = False\<rparr>"])
      (auto simp: enqueue_def)
next
  case False
  then show thesis using assms by (intro that(1)) (auto simp: enqueue_def split: if_splits res.splits)
qed

text \<open>The interface at the type of the elements the task queue puts into it.\<close>

locale task_workqueue = workqueue WQ view
  for WQ :: "('q, ('k, 'o) Element) workqueue_ops" and view :: "'q \<Rightarrow> ('k, 'o) Element queue_view"
begin

lemma worker_good:
  assumes "worker WQ (x, t, w) (p, t', w')"
    and "ok_view (view (qu_queue t))" "distinct (l @ held x @ r)"
    and "set (l @ held x @ r) \<subseteq> v_processing (view (qu_queue t))"
  shows "ok_view (view (qu_queue t')) \<and> distinct (l @ held p @ r) \<and>
    set (l @ held p @ r) \<subseteq> v_processing (view (qu_queue t'))"
  using assms
proof cases
  case (get key q ts)
  then show ?thesis using assms(2-4) Get_Item [OF get(5)]
    by (auto simp: ok_view_get) (auto simp: ok_view_def)
next
  case (quit q)
  then show ?thesis using assms(2-4) Get_Quit [OF quit(5)] by auto
next
  case (synced key u ts)
  then show ?thesis using assms(2-4) by (auto simp: Forget)
next
  case (failed key e ts)
  then show ?thesis using assms(2-4) by (auto simp: AddRateLimited ok_view_def)
next
  case (finish key)
  have "v_processing (view_done key v) = v_processing v - {key}" for v :: "('k, 'o) Element queue_view"
    by (simp add: view_done_def)
  then show ?thesis using finish assms(2-4) ok_view_done [OF assms(2)] by (auto simp: Done)
qed auto

lemma system_good:
  assumes "system WQ view s s'" "good view s"
  shows "good view s'"
  using assms
proof cases
  case (work i p t w)
  obtain l r where lr: "sy_workers s = l @ sy_workers s ! i # r" "(sy_workers s)[i := p] = l @ p # r"
    using nth_split_update [OF work(2)] by metis
  have "busy (sy_workers s) = busy l @ held (sy_workers s ! i) @ busy r"
    by (subst lr(1)) simp
  then show ?thesis
    using assms(2) worker_good [OF work(3), of "busy l" "busy r"] work(1) lr(2) by (simp add: good_def)
next
  case (restart i)
  obtain l r where lr: "sy_workers s = l @ sy_workers s ! i # r" "(sy_workers s)[i := Looping] = l @ Looping # r"
    using nth_split_update [OF restart(2)] by metis
  have "busy (sy_workers s) = busy l @ busy r"
    by (subst lr(1)) (simp add: restart(3))
  then show ?thesis using assms(2) restart(1) lr(2) by (simp add: good_def)
next
  case (enqueued obj skippable t)
  from enqueued(2) show ?thesis
    by (rule enqueue_cases) (use assms(2) enqueued(1) in \<open>simp_all add: good_def Add ok_view_add\<close>)
next
  case (fired e)
  let ?v = "(the_view view s)\<lparr>v_delayed := v_delayed (the_view view s) - {e}\<rparr>"
  have "ok_view ?v" "\<not> el_IsSkippable e"
    using assms(2) fired(2) by (auto simp: good_def ok_view_def)
  then show ?thesis using assms(2) fired by (simp add: good_def Fire ok_view_add)
next
  case shut
  then show ?thesis using assms(2) by (simp add: good_def Shutdown_begin_def ShutDown ok_view_def)
qed (simp add: good_def)

lemma reachable_good: "reachable WQ view n s \<Longrightarrow> good view s"
proof (induction rule: reachable.induct)
  case (start t w)
  then show ?case by (simp add: good_def Run_def ok_view_def)
next
  case (step s s')
  then show ?case using system_good by blast
qed

end

section \<open>No task is lost\<close>

lemma el_requeued: "\<not> el_IsSkippable e \<Longrightarrow> \<lparr>el_Key = el_Key e, el_Event = el_Event e, el_IsSkippable = False\<rparr> = e"
  by (cases e) simp

context task_workqueue
begin

lemma worker_keeps_pending:
  assumes "worker WQ (x, t, w) (p, t', w')" "\<not> v_shut (view (qu_queue t))" "\<forall>e \<in> set (held x). \<not> el_IsSkippable e"
    and "e \<in> v_ready (view (qu_queue t)) \<union> v_again (view (qu_queue t)) \<union> v_delayed (view (qu_queue t)) \<or> (\<exists>ts. x = Syncing e ts)"
  shows "e \<in> v_ready (view (qu_queue t')) \<union> v_again (view (qu_queue t')) \<union> v_delayed (view (qu_queue t')) \<or>
    (\<exists>ts. p = Syncing e ts) \<or> p = Panicked \<or> (\<exists>ts u v. x = Syncing e ts \<and> qu_sync t e w = (Ok u, v))"
  using assms
proof cases
  case (get key q ts)
  then show ?thesis using assms(4) Get_Item [OF get(5)] by auto
next
  case (quit q)
  then show ?thesis using assms(4) Get_Quit [OF quit(5)] by auto
next
  case (synced key u ts)
  then show ?thesis using assms(4) by (auto simp: Forget)
next
  case (failed key err ts)
  then show ?thesis using assms(2-4) by (auto simp: AddRateLimited el_requeued)
next
  case (finish key)
  then show ?thesis using assms(4) by (auto simp: Done view_done_def)
qed auto

lemma system_keeps_pending:
  assumes "system WQ view s s'" "good view s" "\<not> v_shut (the_view view s)" "pending view e s"
  shows "pending view e s' \<or> Panicked \<in> set (sy_workers s') \<or>
    (\<exists>ts u v. Syncing e ts \<in> set (sy_workers s) \<and> qu_sync (sy_queue s) e (sy_world s) = (Ok u, v))"
  using assms(1)
proof cases
  case (work i p t w)
  obtain l r where lr: "sy_workers s = l @ sy_workers s ! i # r" "(sy_workers s)[i := p] = l @ p # r"
    using nth_split_update [OF work(2)] by metis
  have mem: "P \<in> set (sy_workers s) \<longleftrightarrow> P \<in> set l \<or> sy_workers s ! i = P \<or> P \<in> set r" for P
    by (subst lr(1)) auto
  have "set (held (sy_workers s ! i)) \<subseteq> set (busy (sy_workers s))" by (subst (2) lr(1)) auto
  then have "\<forall>e \<in> set (held (sy_workers s ! i)). \<not> el_IsSkippable e"
    using assms(2) by (auto simp: good_def ok_view_def)
  note step = worker_keeps_pending [OF work(3) assms(3) this, of e]
  show ?thesis
  proof (cases "\<exists>ts. Syncing e ts \<in> set l \<union> set r")
    case True
    then show ?thesis using work(1) lr(2) by (auto simp: pending_def)
  next
    case False
    then show ?thesis using step assms(4) work(1) lr(2) by (auto simp: pending_def mem)
  qed
next
  case (restart i)
  obtain l r where lr: "sy_workers s = l @ sy_workers s ! i # r" "(sy_workers s)[i := Looping] = l @ Looping # r"
    using nth_split_update [OF restart(2)] by metis
  have "Syncing e ts \<in> set (sy_workers s) \<longleftrightarrow> Syncing e ts \<in> set l \<union> set r" for ts
    by (subst lr(1)) (simp add: restart(3))
  then show ?thesis using assms(4) restart(1) lr(2) by (auto simp: pending_def)
next
  case stop
  then show ?thesis using assms(4) by (simp add: pending_def)
next
  case (enqueued obj skippable t)
  from enqueued(2) show ?thesis
  proof (rule enqueue_cases)
    fix d assume "t = (sy_queue s)\<lparr>qu_queue := wq_Add WQ d (qu_queue (sy_queue s))\<rparr>"
    then show ?thesis using assms(3,4) enqueued(1) by (auto simp: pending_def Add view_add_def)
  qed (use assms(4) enqueued(1) in \<open>simp add: pending_def\<close>)
next
  case (fired d)
  then show ?thesis using assms(3,4) by (auto simp: pending_def Fire view_add_def)
next
  case shut
  then show ?thesis using assms(4) by (simp add: pending_def Shutdown_begin_def ShutDown)
qed

lemma EnqueueTask_pending:
  assumes "\<not> v_shut (the_view view s)" "qu_fn (sy_queue s) (qe_Obj obj) = Ok key"
  shows "\<exists>t. EnqueueTask WQ obj (sy_queue s) = (Ok (), t) \<and>
    pending view \<lparr>el_Key = key, el_Event = obj, el_IsSkippable = False\<rparr> (s\<lparr>sy_queue := t\<rparr>)"
  using assms by (auto simp: EnqueueTask_def enqueue_def IsShuttingDown_def ShuttingDown pending_def Add view_add_def)

end

section \<open>Closing the channel\<close>

definition single_ok :: "('q, 'k, 'o, 'w) System \<Rightarrow> bool" where
  "single_ok s \<longleftrightarrow> (\<exists>p. sy_workers s = [p] \<and> p \<noteq> Panicked \<and>
     (p = Closing \<longrightarrow> \<not> qu_workerDone (sy_queue s)) \<and> (p = Returned \<longrightarrow> qu_workerDone (sy_queue s)))"

lemma enqueue_fields:
  "enqueue WQ obj b t = (r, t') \<Longrightarrow> qu_workerDone t' = qu_workerDone t \<and> qu_sync t' = qu_sync t"
  by (erule enqueue_cases) simp_all

lemma worker_sync: "worker WQ l l' \<Longrightarrow> qu_sync (fst (snd l')) = qu_sync (fst (snd l))"
  by (induction rule: worker.induct) simp_all

lemma system_sync: "system WQ view s s' \<Longrightarrow> qu_sync (sy_queue s') = qu_sync (sy_queue s)"
  by (induction rule: system.induct) (auto dest: worker_sync enqueue_fields simp: Shutdown_begin_def)

lemma worker_single:
  assumes "worker WQ (x, t, w) (p, t', w')" "\<And>e w. \<not> is_panic (fst (qu_sync t e w))" "x \<noteq> Panicked"
    and "x = Closing \<longrightarrow> \<not> qu_workerDone t" "x = Returned \<longrightarrow> qu_workerDone t"
  shows "p \<noteq> Panicked \<and> (p = Closing \<longrightarrow> \<not> qu_workerDone t') \<and> (p = Returned \<longrightarrow> qu_workerDone t')"
  using assms
proof cases
  case (sync_panics key pp ts)
  then show ?thesis using assms(2) [of key w] by simp
qed (auto simp: isClosed_def)

lemma system_single:
  assumes "system WQ view s s'" "single_ok s" "\<And>e w. \<not> is_panic (fst (qu_sync (sy_queue s) e w))"
  shows "single_ok s'"
  using assms
proof cases
  case (work i p t w)
  obtain x where x: "sy_workers s = [x]" "x \<noteq> Panicked" "x = Closing \<longrightarrow> \<not> qu_workerDone (sy_queue s)"
    "x = Returned \<longrightarrow> qu_workerDone (sy_queue s)"
    using assms(2) by (auto simp: single_ok_def)
  then have "i = 0" using work(2) by simp
  then show ?thesis using worker_single [OF _ assms(3) x(2-4)] work x(1) by (auto simp: single_ok_def)
next
  case (enqueued obj b t)
  then show ?thesis using assms(2) enqueue_fields [OF enqueued(2)] by (auto simp: single_ok_def)
qed (auto simp: single_ok_def Shutdown_begin_def)

lemma reachable_single:
  assumes "reachable WQ view 1 s" "\<And>e w. \<not> is_panic (fst (qu_sync (sy_queue s) e w))"
  shows "single_ok s"
  using assms
proof (induction rule: reachable.induct)
  case (start t w)
  then show ?case by (simp add: single_ok_def Run_def)
next
  case (step s s')
  then show ?case using system_single system_sync by metis
qed

section \<open>The end of Shutdown\<close>

text \<open>What a single worker has left to do once the queue is shut down: an upper bound of its steps.\<close>

fun place :: "'e phase \<Rightarrow> nat" where
  "place (Syncing e ts) = 5"
| "place (Finishing e) = 4"
| "place Looping = 3"
| "place Quitting = 2"
| "place Closing = 1"
| "place Returned = 0"
| "place Panicked = 0"

definition work_left :: "('k, 'o) Element queue_view \<Rightarrow> ('k, 'o) Element phase \<Rightarrow> nat" where
  "work_left v p = 3 * (card (v_ready v) + card (v_again v)) + place p"

lemma view_done_shut [simp]: "v_shut (view_done e v) = v_shut v"
  by (simp add: view_done_def)

lemma card_view_done:
  assumes "ok_view v"
  shows "card (v_ready (view_done e v)) + card (v_again (view_done e v)) = card (v_ready v) + card (v_again v)"
proof (cases "e \<in> v_again v")
  case True
  then have "e \<notin> v_ready v" "0 < card (v_again v)"
    using assms by (auto simp: ok_view_def card_gt_0_iff)
  then show ?thesis using True assms by (simp add: view_done_def ok_view_def)
qed (simp add: view_done_def)

context task_workqueue
begin

lemma worker_progress:
  assumes "ok_view (view (qu_queue t))" "v_shut (view (qu_queue t))" "\<And>e. \<not> is_panic (fst (qu_sync t e w))"
    and "x \<noteq> Returned" "x \<noteq> Panicked" "x = Closing \<longrightarrow> \<not> qu_workerDone t"
  shows "\<exists>p t' w'. worker WQ (x, t, w) (p, t', w') \<and> v_shut (view (qu_queue t')) \<and>
     work_left (view (qu_queue t')) p < work_left (view (qu_queue t)) x"
proof (cases x)
  case Looping
  obtain g q where g: "wq_Get WQ (qu_queue t) = (g, q)" by (metis surj_pair)
  show ?thesis
  proof (cases g)
    case Blocked
    then show ?thesis using g Get_Blocked assms(2) by blast
  next
    case Quit
    then show ?thesis using g Get_Quit [of "qu_queue t" q] assms(2) Looping
      by (intro exI [of _ Quitting] exI [of _ "t\<lparr>qu_queue := q\<rparr>"] exI [of _ w])
         (simp add: worker.quit work_left_def)
  next
    case (Item d)
    note item = Get_Item [OF g [unfolded Item]]
    then have "0 < card (v_ready (view (qu_queue t)))" using assms(1) by (auto simp: ok_view_def card_gt_0_iff)
    then show ?thesis using g item assms(1,2) Looping Item
      by (intro exI [of _ "Syncing d 0"] exI [of _ "t\<lparr>qu_queue := q\<rparr>"] exI [of _ w])
         (simp add: worker.get work_left_def ok_view_def card_Diff_singleton)
  qed
next
  case x: (Syncing e ts)
  obtain r v where sync: "qu_sync t e w = (r, v)" by (metis surj_pair)
  show ?thesis
  proof (cases r)
    case (Ok u)
    show ?thesis unfolding x
      by (intro exI conjI, rule worker.synced [OF sync [unfolded Ok]])
         (use assms(2) in \<open>simp_all add: Forget work_left_def\<close>)
  next
    case (Err err)
    show ?thesis unfolding x
      by (intro exI conjI, rule worker.failed [OF sync [unfolded Err]])
         (use assms(2) in \<open>simp_all add: AddRateLimited work_left_def\<close>)
  next
    case (Panic p)
    then show ?thesis using sync assms(3) [of e] by simp
  qed
next
  case (Finishing d)
  show ?thesis unfolding Finishing
    by (intro exI conjI, rule worker.finish)
       (use assms(2) card_view_done [OF assms(1), of d] in \<open>simp_all add: Done work_left_def\<close>)
next
  case Quitting
  show ?thesis
  proof (cases "qu_workerDone t")
    case True
    then have "worker WQ (Quitting, t, w) (Returned, t, w)" by (intro worker.closed) (simp add: isClosed_def)
    then show ?thesis using assms(2) unfolding Quitting
      by (intro exI conjI) (assumption, simp_all add: work_left_def)
  next
    case False
    then have "worker WQ (Quitting, t, w) (Closing, t, w)" by (intro worker.not_closed) (simp add: isClosed_def)
    then show ?thesis using assms(2) unfolding Quitting
      by (intro exI conjI) (assumption, simp_all add: work_left_def)
  qed
next
  case Closing
  then have "worker WQ (Closing, t, w) (Returned, t\<lparr>qu_workerDone := True\<rparr>, w)"
    using assms(6) by (intro worker.close) simp
  then show ?thesis using assms(2) unfolding Closing
    by (intro exI conjI) (assumption, simp_all add: work_left_def)
qed (use assms(4,5) in simp_all)

lemma shutdown_run:
  assumes "good view s" "single_ok s" "v_shut (the_view view s)" "\<And>e w. \<not> is_panic (fst (qu_sync (sy_queue s) e w))"
  shows "\<exists>k s'. k \<le> work_left (the_view view s) (hd (sy_workers s)) \<and> (system WQ view ^^ k) s s' \<and>
    Shutdown_returns (sy_queue s')"
  using assms
proof (induction "work_left (the_view view s) (hd (sy_workers s))" arbitrary: s rule: less_induct)
  case less
  obtain x where x: "sy_workers s = [x]" "x \<noteq> Panicked" "x = Closing \<longrightarrow> \<not> qu_workerDone (sy_queue s)"
    "x = Returned \<longrightarrow> qu_workerDone (sy_queue s)"
    using less(3) by (auto simp: single_ok_def)
  show ?case
  proof (cases "qu_workerDone (sy_queue s)")
    case True
    then show ?thesis by (intro exI [of _ 0] exI [of _ s]) (simp add: Shutdown_returns_def isClosed_def)
  next
    case False
    have ok: "ok_view (the_view view s)" using less(2) by (simp add: good_def)
    have nr: "x \<noteq> Returned" using False x(4) by blast
    obtain p t w where p: "worker WQ (x, sy_queue s, sy_world s) (p, t, w)" "v_shut (view (qu_queue t))"
      "work_left (view (qu_queue t)) p < work_left (the_view view s) x"
      using worker_progress [OF ok less(4) less(5) nr x(2,3), of "sy_world s"] by (elim exE conjE)
    let ?s = "s\<lparr>sy_workers := [p], sy_queue := t, sy_world := w\<rparr>"
    have sys: "system WQ view s ?s"
      using system.work [of 0 s WQ p t w view] p(1) x(1) by simp
    have "good view ?s" "single_ok ?s"
      using system_good [OF sys less(2)] system_single [OF sys less(3,5)] by simp_all
    moreover have "\<not> is_panic (fst (qu_sync (sy_queue ?s) e w))" for e w
      using system_sync [OF sys] less(5) by simp
    ultimately obtain k s' where "k \<le> work_left (view (qu_queue t)) p" "(system WQ view ^^ k) ?s s'"
      "Shutdown_returns (sy_queue s')"
      using less(1) [of ?s] p(2,3) x(1) by auto
    moreover from this(2) have "(system WQ view ^^ Suc k) s s'"
      using sys by (rule relpowp_Suc_I2 [rotated])
    ultimately show ?thesis
      using p(3) x(1) by (intro exI [of _ "Suc k"] exI [of _ s']) simp
  qed
qed

text \<open>Two workers that find the channel open both close it.\<close>

lemma Get_shut_empty:
  assumes "v_ready (view q) = {}" "v_shut (view q)"
  obtains q' where "wq_Get WQ q = (Quit, q')" "view q' = view q"
proof -
  obtain g q' where g: "wq_Get WQ q = (g, q')" by (metis surj_pair)
  then have "g = Quit" using Get_Blocked Get_Item assms by (cases g) blast+
  then show thesis using g Get_Quit that by blast
qed

lemma both_close:
  assumes "v_ready (view (qu_queue t)) = {}" "\<not> qu_workerDone t"
  shows "\<exists>s'. (system WQ view)\<^sup>*\<^sup>* (Run (Suc (Suc n)) t w) s' \<and> Panicked \<in> set (sy_workers s')"
proof -
  let ?S = "\<lambda>ws t. \<lparr>sy_workers = ws @ replicate n Looping, sy_queue = t, sy_world = w, sy_stop = False\<rparr>"
  define t1 where "t1 = Shutdown_begin WQ t"
  have v1: "v_ready (view (qu_queue t1)) = {}" "v_shut (view (qu_queue t1))" "\<not> qu_workerDone t1"
    using assms by (simp_all add: t1_def Shutdown_begin_def ShutDown)
  obtain q2 where q2: "wq_Get WQ (qu_queue t1) = (Quit, q2)" "view q2 = view (qu_queue t1)"
    using Get_shut_empty [OF v1(1,2)] by blast
  obtain q3 where q3: "wq_Get WQ q2 = (Quit, q3)" "view q3 = view q2"
    using Get_shut_empty [of q2] v1 q2(2) by auto
  have first: "system WQ view (?S [a, b] u) (?S [p, b] u')" if "worker WQ (a, u, w) (p, u', w)" for a b p u u'
    using system.work [of 0 "?S [a, b] u" WQ p u' w view] that by simp
  have second: "system WQ view (?S [a, b] u) (?S [a, p] u')" if "worker WQ (b, u, w) (p, u', w)" for a b p u u'
    using system.work [of 1 "?S [a, b] u" WQ p u' w view] that by simp
  let ?t2 = "t1\<lparr>qu_queue := q2\<rparr>" and ?t3 = "t1\<lparr>qu_queue := q3\<rparr>"
  let ?t4 = "t1\<lparr>qu_queue := q3, qu_workerDone := True\<rparr>"
  have steps:
    "system WQ view (Run (Suc (Suc n)) t w) (?S [Looping, Looping] t1)"
    "system WQ view (?S [Looping, Looping] t1) (?S [Quitting, Looping] ?t2)"
    "system WQ view (?S [Quitting, Looping] ?t2) (?S [Quitting, Quitting] ?t3)"
    "system WQ view (?S [Quitting, Quitting] ?t3) (?S [Closing, Quitting] ?t3)"
    "system WQ view (?S [Closing, Quitting] ?t3) (?S [Closing, Closing] ?t3)"
    "system WQ view (?S [Closing, Closing] ?t3) (?S [Returned, Closing] ?t4)"
    "system WQ view (?S [Returned, Closing] ?t4) (?S [Returned, Panicked] ?t4)"
  proof -
    show "system WQ view (Run (Suc (Suc n)) t w) (?S [Looping, Looping] t1)"
      using system.shut [of WQ view "Run (Suc (Suc n)) t w"] by (simp add: Run_def t1_def)
    show "system WQ view (?S [Looping, Looping] t1) (?S [Quitting, Looping] ?t2)"
      by (rule first, rule worker.quit [OF q2(1)])
    show "system WQ view (?S [Quitting, Looping] ?t2) (?S [Quitting, Quitting] ?t3)"
      using worker.quit [of WQ ?t2 q3 w] q3(1) by (intro second) simp
    show "system WQ view (?S [Quitting, Quitting] ?t3) (?S [Closing, Quitting] ?t3)"
      using v1(3) by (intro first) (simp add: worker.not_closed isClosed_def)
    show "system WQ view (?S [Closing, Quitting] ?t3) (?S [Closing, Closing] ?t3)"
      using v1(3) by (intro second) (simp add: worker.not_closed isClosed_def)
    show "system WQ view (?S [Closing, Closing] ?t3) (?S [Returned, Closing] ?t4)"
      using worker.close [of ?t3 WQ w] v1(3) by (intro first) simp
    show "system WQ view (?S [Returned, Closing] ?t4) (?S [Returned, Panicked] ?t4)"
      using worker.close_closed [of ?t4 WQ w] by (intro second) simp
  qed
  show ?thesis
    by (rule exI [of _ "?S [Returned, Panicked] ?t4"])
       (use steps in \<open>auto intro: converse_rtranclp_into_rtranclp\<close>)
qed

end

section \<open>A queue that does what the documentation says\<close>

record 'e fifo =
  f_queue :: "'e list"
  f_again :: "'e list"
  f_processing :: "'e list"
  f_delayed :: "'e list"
  f_shut :: bool

definition fifo_add :: "'e \<Rightarrow> 'e fifo \<Rightarrow> 'e fifo" where
  "fifo_add e q =
     (if f_shut q then q
      else if e \<in> set (f_processing q) then q\<lparr>f_again := e # f_again q\<rparr>
      else if e \<in> set (f_queue q) then q
      else q\<lparr>f_queue := f_queue q @ [e]\<rparr>)"

definition fifo_get :: "'e fifo \<Rightarrow> 'e got \<times> 'e fifo" where
  "fifo_get q =
     (case f_queue q of
        [] \<Rightarrow> (if f_shut q then Quit else Blocked, q)
      | e # es \<Rightarrow> (Item e, q\<lparr>f_queue := removeAll e es, f_processing := e # f_processing q\<rparr>))"

definition fifo_done :: "'e \<Rightarrow> 'e fifo \<Rightarrow> 'e fifo" where
  "fifo_done e q =
     (let q' = q\<lparr>f_processing := removeAll e (f_processing q)\<rparr> in
      if e \<in> set (f_again q)
      then q'\<lparr>f_again := removeAll e (f_again q), f_queue := f_queue q @ [e]\<rparr> else q')"

definition fifo_ops :: "('e fifo, 'e) workqueue_ops" where
  "fifo_ops = \<lparr>wq_Add = fifo_add,
     wq_AddRateLimited = (\<lambda>e q. if f_shut q then q else q\<lparr>f_delayed := e # f_delayed q\<rparr>),
     wq_Get = fifo_get, wq_Forget = (\<lambda>e q. q), wq_Done = fifo_done,
     wq_ShutDown = (\<lambda>q. q\<lparr>f_shut := True\<rparr>), wq_ShuttingDown = f_shut,
     wq_Fire = (\<lambda>e q. fifo_add e (q\<lparr>f_delayed := removeAll e (f_delayed q)\<rparr>))\<rparr>"

definition fifo_view :: "'e fifo \<Rightarrow> 'e queue_view" where
  "fifo_view q = \<lparr>v_ready = set (f_queue q), v_again = set (f_again q), v_processing = set (f_processing q),
     v_delayed = set (f_delayed q), v_shut = f_shut q\<rparr>"

lemma fifo_view_add: "fifo_view (fifo_add e q) = view_add e (fifo_view q)"
  by (auto simp: fifo_view_def fifo_add_def view_add_def)

interpretation fifo: workqueue fifo_ops fifo_view
proof
  fix e :: 'e and q q' :: "'e fifo"
  show "fifo_view (wq_Add fifo_ops e q) = view_add e (fifo_view q)"
    by (simp add: fifo_ops_def fifo_view_add)
  show "fifo_view (wq_Done fifo_ops e q) = view_done e (fifo_view q)"
    by (auto simp: fifo_ops_def fifo_view_def fifo_done_def view_done_def)
  show "fifo_view (wq_Fire fifo_ops e q)
      = view_add e ((fifo_view q)\<lparr>v_delayed := v_delayed (fifo_view q) - {e}\<rparr>)"
    by (simp add: fifo_ops_def fifo_view_add) (simp add: fifo_view_def)
qed (auto simp: fifo_ops_def fifo_get_def fifo_view_def split: list.splits if_splits)

interpretation fifo_tasks: task_workqueue fifo_ops fifo_view
  by unfold_locales

definition fifo_empty :: "'e fifo" where
  "fifo_empty = \<lparr>f_queue = [], f_again = [], f_processing = [], f_delayed = [], f_shut = False\<rparr>"

section \<open>A run for the witnesses\<close>

text \<open>One task, a \<open>sync\<close> that fails; the task is enqueued, then taken by the worker.\<close>

definition demo_queue :: "(('a, 'a) Element fifo, 'a, 'a, 'w) Queue" where
  "demo_queue = NewTaskQueue fifo_empty (\<lambda>e w. (Err (ErrorString ''busy''), w)) Ok"

definition demo_element :: "'a \<Rightarrow> ('a, 'a) Element" where
  "demo_element x = \<lparr>el_Key = x, el_Event = \<lparr>qe_Type = ''CREATE'', qe_Obj = x\<rparr>, el_IsSkippable = False\<rparr>"

definition demo_enqueued :: "nat \<Rightarrow> 'a \<Rightarrow> 'w \<Rightarrow> (('a, 'a) Element fifo, 'a, 'a, 'w) System" where
  "demo_enqueued n x w = (Run n demo_queue w)\<lparr>sy_queue :=
     demo_queue\<lparr>qu_queue := fifo_empty\<lparr>f_queue := [demo_element x]\<rparr>\<rparr>\<rparr>"

lemma demo_start: "reachable fifo_ops fifo_view n (Run n demo_queue w)"
  by (rule reachable.start)
     (simp_all add: demo_queue_def NewTaskQueue_def NewCustomTaskQueue_def fifo_empty_def fifo_view_def)

lemma demo_enqueued_reachable: "reachable fifo_ops fifo_view n (demo_enqueued n x w)"
proof (rule reachable.step [OF demo_start])
  have "enqueue fifo_ops \<lparr>qe_Type = ''CREATE'', qe_Obj = x\<rparr> False demo_queue
      = (Ok (), demo_queue\<lparr>qu_queue := fifo_empty\<lparr>f_queue := [demo_element x]\<rparr>\<rparr>)"
    by (simp add: enqueue_def IsShuttingDown_def demo_queue_def NewTaskQueue_def NewCustomTaskQueue_def
        fifo_ops_def fifo_add_def fifo_empty_def demo_element_def)
  then show "system fifo_ops fifo_view (Run n demo_queue w) (demo_enqueued n x w)"
    using system.enqueued [of fifo_ops _ False "Run n demo_queue w"]
    by (simp add: demo_enqueued_def Run_def)
qed

lemma demo_taken:
  "system fifo_ops fifo_view (demo_enqueued 1 x w) ((demo_enqueued 1 x w)\<lparr>sy_workers := [Syncing (demo_element x) 0],
     sy_queue := demo_queue\<lparr>qu_queue := fifo_empty\<lparr>f_processing := [demo_element x]\<rparr>\<rparr>\<rparr>)"
proof -
  have "worker fifo_ops (Looping, sy_queue (demo_enqueued 1 x w), w) (Syncing (demo_element x) 0,
      demo_queue\<lparr>qu_queue := fifo_empty\<lparr>f_processing := [demo_element x]\<rparr>\<rparr>, w)"
    using worker.get [of fifo_ops "sy_queue (demo_enqueued 1 x w)" "demo_element x" _ w 0]
    by (simp add: demo_enqueued_def fifo_ops_def fifo_get_def fifo_empty_def)
  then show ?thesis
    using system.work [of 0 "demo_enqueued 1 x w"] by (simp add: demo_enqueued_def Run_def)
qed

lemma demo_taken_view:
  "pending fifo_view e ((demo_enqueued 1 x w)\<lparr>sy_workers := [Syncing (demo_element x) 0], sy_queue := demo_queue\<lparr>qu_queue := fifo_empty\<lparr>f_processing := [demo_element x]\<rparr>\<rparr>\<rparr>) \<longleftrightarrow> e = demo_element x"
  by (auto simp: pending_def fifo_view_def fifo_empty_def)

lemma system_length: "system WQ view s s' \<Longrightarrow> length (sy_workers s') = length (sy_workers s)"
  by (induction rule: system.induct) simp_all

lemma reachable_run:
  assumes "(system WQ view)\<^sup>*\<^sup>* (Run n t w) s" "reachable WQ view n (Run n t w)"
  shows "reachable WQ view n s \<and> length (sy_workers s) = n \<and> qu_sync (sy_queue s) = qu_sync t"
  using assms
proof (induction rule: rtranclp_induct)
  case base
  then show ?case by (simp add: Run_def)
next
  case (step s u)
  then show ?case using reachable.step system_length system_sync by metis
qed

section \<open>Properties\<close>



text \<open>
  C30 No two workers have the same task at the same time: the elements between \<open>Get\<close> and \<open>Done\<close> are distinct,
  however many workers \<open>Run\<close> starts and however their steps interleave.
\<close>

theorem no_task_twice:
  fixes s :: "('q, 'k, 'o, 'w) System"
  assumes "workqueue WQ view" "reachable WQ view n s"
  shows "distinct (busy (sy_workers s))"
  using task_workqueue.reachable_good [OF task_workqueue.intro [OF assms(1)] assms(2)] by (simp add: good_def)

theorem no_task_twice_witness:
  "\<exists>s. reachable fifo_ops fifo_view 1 s \<and> sy_world s = () \<and> busy (sy_workers s) = [demo_element ''n1''] \<and>
     distinct (busy (sy_workers s))"
proof -
  note r = reachable.step [OF demo_enqueued_reachable demo_taken [of "''n1''" "()"]]
  show ?thesis by (intro exI conjI, rule r, simp_all only: no_task_twice [OF fifo.workqueue_axioms r]) simp_all
qed

text \<open>
  C31 The workers can panic exactly when \<open>Run\<close> started more than one: two that see the queue shut down may
  both find \<open>workerDone\<close> open, and the second \<open>close\<close> panics. A single worker never does.
\<close>

theorem panic_iff_two_workers:
  fixes t :: "('q, 'k, 'o, 'w) Queue"
  assumes "workqueue WQ view" "\<not> qu_workerDone t"
    and "view (qu_queue t) = \<lparr>v_ready = {}, v_again = {}, v_processing = {}, v_delayed = {}, v_shut = False\<rparr>"
    and "\<And>e w. \<not> is_panic (fst (qu_sync t e w))"
  shows "(\<exists>s. (system WQ view)\<^sup>*\<^sup>* (Run n t w) s \<and> Panicked \<in> set (sy_workers s)) \<longleftrightarrow> 2 \<le> n"
proof
  assume "2 \<le> n"
  then obtain m where "n = Suc (Suc m)" by (metis One_nat_def Suc_1 Suc_le_D Suc_le_mono)
  then show "\<exists>s. (system WQ view)\<^sup>*\<^sup>* (Run n t w) s \<and> Panicked \<in> set (sy_workers s)"
    using task_workqueue.both_close [OF task_workqueue.intro [OF assms(1)] _ assms(2), of m w] assms(3) by simp
next
  assume "\<exists>s. (system WQ view)\<^sup>*\<^sup>* (Run n t w) s \<and> Panicked \<in> set (sy_workers s)"
  then obtain s where s: "(system WQ view)\<^sup>*\<^sup>* (Run n t w) s" "Panicked \<in> set (sy_workers s)" by blast
  note r = reachable_run [OF s(1) reachable.start [where view = view and t = t, OF assms(3,2)]]
  show "2 \<le> n"
  proof (rule ccontr)
    assume "\<not> 2 \<le> n"
    then consider "n = 0" | "n = 1" by linarith
    then show False
    proof cases
      case 1
      then show False using r s(2) by simp
    next
      case 2
      then have "single_ok s" using r assms(4) by (intro reachable_single [of WQ view]) simp_all
      then show False using s(2) by (auto simp: single_ok_def)
    qed
  qed
qed

theorem panic_iff_two_workers_witness:
  "\<exists>s. (system fifo_ops fifo_view)\<^sup>*\<^sup>* (Run 2 (demo_queue :: ((string, string) Element fifo, string, string, unit) Queue) ()) s
     \<and> Panicked \<in> set (sy_workers s)"
  using panic_iff_two_workers [OF fifo.workqueue_axioms, of demo_queue 2 "()"]
  by (simp add: demo_queue_def NewTaskQueue_def NewCustomTaskQueue_def fifo_empty_def fifo_view_def)



end
