(* ===== verification/Node_Agent.thy ===== *)
theory Node_Agent
  imports Reference_Run
begin

text \<open>
  The agent of \<open>cmd/annotation\<close> and \<open>pkg/annotation\<close>: on every node it reads the instance id and the zone
  from the metadata service and writes them into the annotations of the node, from which the route
  controller takes the next hop.
\<close>

section \<open>The metadata service\<close>

definition metadataUrl :: string where "metadataUrl = ''http://11.255.255.100:8775/latest/meta-data/''"

definition getMetadata :: "'w env \<Rightarrow> string \<Rightarrow> ('w, string) eff" where
  "getMetadata E path =
     on_res (metadata_get E (metadataUrl @ path))
       (\<lambda>resp w.
          if rs_StatusCode resp \<noteq> 200
          then (Err (ErrorString (''Failed to obtain from metadata interface, accress path: '' @ metadataUrl @ path
                  @ '', return: '' @ rs_Body resp @ '' '')), w)
          else (Ok (rs_Body resp), w))
       (\<lambda>err w. (Err err, w))"

definition getMetadataInstanceId :: "'w env \<Rightarrow> ('w, string) eff" where
  "getMetadataInstanceId E = getMetadata E ''instance-id''"

definition getMetadataZone :: "'w env \<Rightarrow> ('w, string) eff" where
  "getMetadataZone E = getMetadata E ''placement/zone''"

section \<open>The annotations of a node\<close>

definition GetNode :: "'w env \<Rightarrow> string \<Rightarrow> ('w, Node) eff" where
  "GetNode E nodeName = k_get E nodeName"

definition UpdateNode :: "'w env \<Rightarrow> Node \<Rightarrow> ('w, Node) eff" where
  "UpdateNode E node = k_update E node"

text \<open>The two functions \<open>Ensure...\<close> have one shape: test, fetch, set and update.\<close>

definition ensure ::
  "'w env \<Rightarrow> (Node \<Rightarrow> bool) \<Rightarrow> ('w, string) eff \<Rightarrow> (Node \<Rightarrow> string \<Rightarrow> Node res) \<Rightarrow> string \<Rightarrow> ('w, unit) eff" where
  "ensure E existed fetch setter nodeName =
     on_res (GetNode E nodeName)
       (\<lambda>node.
          if existed node then (\<lambda>w. (Ok (), w))
          else
            on_res fetch
              (\<lambda>v w.
                 case setter node v of
                   Ok node \<Rightarrow> on_res (UpdateNode E node) (\<lambda>_ w. (Ok (), w)) (\<lambda>err w. (Err err, w)) w
                 | Err err \<Rightarrow> (Err err, w)
                 | Panic p \<Rightarrow> (Panic p, w))
              (\<lambda>err w. (Err err, w)))
       (\<lambda>err w. (Err err, w))"

definition EnsureNodeInstanceId :: "'w env \<Rightarrow> string \<Rightarrow> ('w, unit) eff" where
  "EnsureNodeInstanceId E = ensure E IsExistedInstanceUUIDKey (getMetadataInstanceId E) SetInstanceUUID"

definition EnsureNodeZone :: "'w env \<Rightarrow> string \<Rightarrow> ('w, unit) eff" where
  "EnsureNodeZone E = ensure E IsExistedZoneKey (getMetadataZone E) SetZone"

section \<open>The program\<close>

definition NodeName :: string where "NodeName = ''NODE_NAME''"

definition GetNodeName :: "(string \<Rightarrow> string) \<Rightarrow> string res" where
  "GetNodeName getenv =
     (let val = getenv NodeName in
      if val = '''' then Err (ErrorString (''unable to get the name of the node deployed by the pod,''
        @ '' check whether the downward api in the deployment file is used incorrectly, env '' @ NodeName @ '' lack''))
      else Ok val)"

text \<open>\<open>NewController\<close> reads the configuration of the cluster: its error is a parameter.\<close>

definition Agent_Run :: "'w env \<Rightarrow> (string \<Rightarrow> string) \<Rightarrow> gerror option \<Rightarrow> ('w, bool) eff" where
  "Agent_Run E getenv newControllerError w =
     (case GetNodeName getenv of
        Err err \<Rightarrow> (Err err, w)
      | Panic p \<Rightarrow> (Panic p, w)
      | Ok nodeName \<Rightarrow>
          (case newControllerError of
             Some err \<Rightarrow> (Err err, w)
           | None \<Rightarrow>
               on_res (EnsureNodeInstanceId E nodeName)
                 (\<lambda>_. on_res (EnsureNodeZone E nodeName) (\<lambda>_ w. (Ok True, w)) (\<lambda>err w. (Ok False, w)))
                 (\<lambda>err w. (Ok False, w)) w))"

text \<open>
  \<open>wait.PollImmediateInfinite\<close> calls \<open>Run\<close> at once and then every 20 seconds until it answers true or an
  error; the result is the exit code, and no result is a program that never ends.
\<close>

definition checkInterval :: nat where "checkInterval = 20"

partial_function (option) agent_main ::
  "'w env \<Rightarrow> (string \<Rightarrow> string) \<Rightarrow> gerror option \<Rightarrow> 'w \<Rightarrow> (int res \<times> 'w) option" where
  "agent_main E getenv newControllerError w =
     (case Agent_Run E getenv newControllerError w of
        (Ok done, w') \<Rightarrow>
          (if done then Some (Ok 0, w')
           else agent_main E getenv newControllerError (sleep_seconds E checkInterval w'))
      | (Err err, w') \<Rightarrow> Some (Ok 1, w')
      | (Panic p, w') \<Rightarrow> Some (Panic p, w'))"

section \<open>Facts\<close>

text \<open>
  Documented behaviour of the API server: a get that succeeds does not change what a get returns, and a get
  after a successful update returns a node of that name with the annotations written.
\<close>

definition api_documented :: "'w env \<Rightarrow> bool" where
  "api_documented E \<longleftrightarrow>
     (\<forall>name w n w'. k_get E name w = (Ok n, w') \<longrightarrow> nd_Name n = name \<and> k_get E name w' = (Ok n, w')) \<and>
     (\<forall>n w m w'. k_update E n w = (Ok m, w') \<longrightarrow>
        (\<exists>l u. k_get E (nd_Name n) w' = (Ok l, u) \<and> nd_Annotations l = nd_Annotations n))"

lemma setAnnotation_eq:
  "setAnnotation n k v = Ok (n\<lparr>nd_Annotations := Some ((case nd_Annotations n of None \<Rightarrow> Map.empty | Some m \<Rightarrow> m)(k \<mapsto> v))\<rparr>)"
  by (simp add: setAnnotation_def map_put_def Let_def split: option.splits)

lemma existed_keys:
  "IsExistedInstanceUUIDKey n \<longleftrightarrow> map_get (nd_Annotations n) KCE1NodeAnnotationInstanceUUIDKey \<noteq> None \<or>
     map_get (nd_Annotations n) KCE2NodeAnnotationInstanceUUIDKey \<noteq> None"
  "IsExistedZoneKey n \<longleftrightarrow> map_get (nd_Annotations n) KCE1NodeAnnotationZoneKey \<noteq> None \<or>
     map_get (nd_Annotations n) KCE2NodeAnnotationZoneKey \<noteq> None"
  by (simp_all add: IsExistedInstanceUUIDKey_def IsExistedZoneKey_def map_get_def split: option.splits)

lemma setters_total:
  "\<exists>m. SetInstanceUUID n v = Ok m \<and> nd_Name m = nd_Name n \<and> IsExistedInstanceUUIDKey m \<and>
    (IsExistedZoneKey n \<longrightarrow> IsExistedZoneKey m)"
  "\<exists>m. SetZone n v = Ok m \<and> nd_Name m = nd_Name n \<and> IsExistedZoneKey m \<and>
    (IsExistedInstanceUUIDKey n \<longrightarrow> IsExistedInstanceUUIDKey m)"
  by (simp_all add: SetInstanceUUID_def SetZone_def setAnnotation_eq existed_keys map_get_def split: option.splits)

text \<open>After an \<open>Ensure\<close> that succeeds, a get returns a node that passes the test, and any other test that held.\<close>

lemma ensure_establishes:
  assumes "api_documented E" "ensure E existed fetch setter name w = (Ok u, w')"
    and "\<And>n v. \<exists>m. setter n v = Ok m \<and> nd_Name m = nd_Name n \<and> existed m \<and> (other n \<longrightarrow> other m)"
    and "\<And>n m. nd_Annotations n = nd_Annotations m \<Longrightarrow> existed n = existed m \<and> other n = other m"
  shows "\<exists>n w1 l w2. k_get E name w = (Ok n, w1) \<and> k_get E name w' = (Ok l, w2) \<and> existed l \<and> (other n \<longrightarrow> other l)"
proof -
  obtain r w1 where get: "k_get E name w = (r, w1)" by (metis surj_pair)
  show ?thesis
  proof (cases r)
    case (Ok n)
    have api: "nd_Name n = name" "k_get E name w1 = (Ok n, w1)"
      using assms(1) get Ok unfolding api_documented_def by blast+
    show ?thesis
    proof (cases "existed n")
      case True
      then show ?thesis using assms(2) get Ok api by (auto simp: ensure_def GetNode_def on_res_def)
    next
      case False
      obtain q w2 where f: "fetch w1 = (q, w2)" by (metis surj_pair)
      then obtain v where v: "q = Ok v"
        using assms(2) get Ok False by (cases q) (simp_all add: ensure_def GetNode_def on_res_def)
      obtain m where m: "setter n v = Ok m" "nd_Name m = nd_Name n" "existed m" "other n \<longrightarrow> other m"
        using assms(3) by blast
      obtain a w3 where a: "k_update E m w2 = (a, w3)" by (metis surj_pair)
      then have "\<exists>b. a = Ok b" "w3 = w'"
        using assms(2) get Ok False f v m(1)
        by (cases a; simp add: ensure_def GetNode_def UpdateNode_def on_res_def)+
      then obtain l u where "k_get E name w' = (Ok l, u)" "nd_Annotations l = nd_Annotations m"
        using assms(1) a m(2) api(1) unfolding api_documented_def by metis
      then show ?thesis using get Ok m(3,4) assms(4) [of l m] by blast
    qed
  qed (use assms(2) get in \<open>simp_all add: ensure_def GetNode_def on_res_def\<close>)
qed

lemma Agent_Run_annotates:
  assumes "api_documented E" "Agent_Run E getenv None w = (Ok True, w')"
  shows "\<exists>n w''. k_get E (getenv NodeName) w' = (Ok n, w'') \<and> IsExistedInstanceUUIDKey n \<and> IsExistedZoneKey n"
proof -
  let ?name = "getenv NodeName"
  have name: "GetNodeName getenv = Ok ?name"
    using assms(2) by (simp add: Agent_Run_def GetNodeName_def Let_def split: if_splits)
  obtain r w1 where one: "EnsureNodeInstanceId E ?name w = (r, w1)" by (metis surj_pair)
  then obtain u where u: "r = Ok u" using assms(2) name by (cases r) (simp_all add: Agent_Run_def on_res_def)
  obtain q w2 where two: "EnsureNodeZone E ?name w1 = (q, w2)" by (metis surj_pair)
  then have "\<exists>v. q = Ok v" "w2 = w'"
    using assms(2) name one u by (cases q; simp add: Agent_Run_def on_res_def)+
  then obtain v where two: "EnsureNodeZone E ?name w1 = (Ok v, w')" using two by blast
  have ann: "nd_Annotations n = nd_Annotations m \<Longrightarrow> IsExistedInstanceUUIDKey n = IsExistedInstanceUUIDKey m \<and>
      IsExistedZoneKey n = IsExistedZoneKey m" for n m
    by (simp add: existed_keys)
  obtain l w3 where "k_get E ?name w1 = (Ok l, w3)" "IsExistedInstanceUUIDKey l"
    using ensure_establishes [OF assms(1) one [unfolded EnsureNodeInstanceId_def u] setters_total(1) ann] by blast
  moreover obtain n w4 k w5 where "k_get E ?name w1 = (Ok n, w4)" "k_get E ?name w' = (Ok k, w5)"
    "IsExistedZoneKey k" "IsExistedInstanceUUIDKey n \<longrightarrow> IsExistedInstanceUUIDKey k"
    using ensure_establishes [OF assms(1) two [unfolded EnsureNodeZone_def] setters_total(2)] ann by meson
  ultimately show ?thesis by auto
qed

lemma agent_main_run:
  fixes E :: "'w env"
  assumes "agent_main E getenv nce w = Some (Ok 0, w')"
  shows "\<exists>v. Agent_Run E getenv nce v = (Ok True, w')"
proof -
  let ?P = "\<lambda>E getenv nce (w :: 'w) y. \<forall>w'. y = (Ok (0 :: int), w') \<longrightarrow> (\<exists>v. Agent_Run E getenv nce v = (Ok True, w'))"
  have "?P E getenv nce w (Ok 0, w')"
    by (rule agent_main.raw_induct [where P = ?P, OF _ assms])
       (auto split: prod.splits res.splits if_splits)
  then show ?thesis by simp
qed

lemma put_node_found:
  assumes "find (\<lambda>m. nd_Name m = name) ns = Some n" "nd_Name k = name"
  shows "find (\<lambda>m. nd_Name m = name) (put_node k ns) = Some k"
  using assms by (induction ns) (auto simp: put_node_def split: if_splits)

lemma find_named: "list_ex (\<lambda>m. nd_Name m = name) ns \<Longrightarrow> \<exists>n. find (\<lambda>m. nd_Name m = name) ns = Some n"
  by (induction ns) auto

lemma find_name: "find (\<lambda>m. nd_Name m = name) ns = Some n \<Longrightarrow> nd_Name n = name"
  by (induction ns) (auto split: if_splits)

lemma ref_api_documented: "api_documented ref_env"
  unfolding api_documented_def
proof (intro conjI allI impI)
  fix name w n w'
  assume *: "k_get ref_env name w = (Ok n, w')"
  then show "nd_Name n = name" by (auto split: option.splits dest: find_name)
  from * have "w' = w" by (simp split: option.splits)
  with * show "k_get ref_env name w' = (Ok n, w')" by (simp only:)
next
  fix n w m w'
  assume *: "k_update ref_env n w = (Ok m, w')"
  then have ex: "list_ex (\<lambda>k. nd_Name k = nd_Name n) (cl_nodes w)" "w' = w\<lparr>cl_nodes := put_node n (cl_nodes w)\<rparr>"
    by (auto split: if_splits)
  then have "find (\<lambda>k. nd_Name k = nd_Name n) (cl_nodes w') = Some n"
    using find_named [OF ex(1)] put_node_found by fastforce
  then show "\<exists>l u. k_get ref_env (nd_Name n) w' = (Ok l, u) \<and> nd_Annotations l = nd_Annotations n"
    by simp
qed

section \<open>The annotations are there\<close>

text \<open>
  When the agent exits with code 0, the API server has the node with an instance annotation and with a
  zone annotation, however often it had to start over.
\<close>

lemma agent_annotates:
  assumes "api_documented E" "agent_main E getenv None w = Some (Ok 0, w')"
  shows "\<exists>n w''. k_get E (getenv ''NODE_NAME'') w' = (Ok n, w'') \<and> IsExistedInstanceUUIDKey n \<and> IsExistedZoneKey n"
  using agent_main_run [OF assms(2)] Agent_Run_annotates [OF assms(1)] by (auto simp: NodeName_def)

end
