(* ===== verification/Event_Filter.thy ===== *)
theory Event_Filter
  imports Route_Manager
begin

text \<open>
  The predicate of \<open>pkg/controller/route/predicate.go\<close> that decides which updates of a node become requests,
  and how it relates to what the route of a node depends on: its IPv4 CIDR and its instance.
\<close>

section \<open>The predicate\<close>

text \<open>\<open>reflect.DeepEqual\<close> tells a nil slice from an empty one: the node keeps whether the slice is nil.\<close>

record ApiNode = Node +
  nd_PodCIDRs_nil :: bool

datatype Object = NodeObject ApiNode | OtherObject

definition DeepEqual_PodCIDRs :: "ApiNode \<Rightarrow> ApiNode \<Rightarrow> bool" where
  "DeepEqual_PodCIDRs a b = (nd_PodCIDRs_nil a = nd_PodCIDRs_nil b \<and> nd_PodCIDRs a = nd_PodCIDRs b)"

definition has_annotation :: "ApiNode \<Rightarrow> string \<Rightarrow> bool" where
  "has_annotation n k = (map_get (nd_Annotations n) k \<noteq> None)"

definition Update :: "Config \<Rightarrow> Object \<Rightarrow> Object \<Rightarrow> bool" where
  "Update cfg objectOld objectNew =
     (case (objectOld, objectNew) of
        (NodeObject oldNode, NodeObject newNode) \<Rightarrow>
          (let ok1 = has_annotation oldNode ''appengine.sdns.ksyun.com/instance-uuid'';
               ok2 = has_annotation newNode ''appengine.sdns.ksyun.com/instance-uuid'';
               ok3 = has_annotation oldNode ''kce.sdns.ksyun.com/instanceId'';
               ok4 = has_annotation newNode ''kce.sdns.ksyun.com/instanceId''
           in if cf_InstanceIdFrom cfg = ''annotation'' \<and> \<not> ok2 \<and> \<not> ok4 then False
              else if cf_InstanceIdFrom cfg = ''annotation'' \<and> \<not> ok1 \<and> ok2 then True
              else if cf_InstanceIdFrom cfg = ''annotation'' \<and> \<not> ok3 \<and> ok4 then True
              else if nd_UID oldNode \<noteq> nd_UID newNode then True
              else if nd_PodCIDR oldNode \<noteq> nd_PodCIDR newNode then True
              else if nd_ProviderID oldNode \<noteq> nd_ProviderID newNode then True
              else if \<not> DeepEqual_PodCIDRs oldNode newNode then True
              else False)
      | _ \<Rightarrow> True)"

section \<open>Properties\<close>

definition the_node :: "ApiNode \<Rightarrow> Node" where
  "the_node n = Node.truncate n"

lemma the_node_fields [simp]:
  "nd_PodCIDR (the_node n) = nd_PodCIDR n" "nd_PodCIDRs (the_node n) = nd_PodCIDRs n"
  "nd_ProviderID (the_node n) = nd_ProviderID n" "nd_Annotations (the_node n) = nd_Annotations n"
  by (simp_all add: the_node_def Node.truncate_def)

lemma filtered_fields:
  assumes "\<not> Update cfg (NodeObject a) (NodeObject b)"
    and "cf_InstanceIdFrom cfg \<noteq> ''annotation'' \<or> has_annotation b ''appengine.sdns.ksyun.com/instance-uuid''
      \<or> has_annotation b ''kce.sdns.ksyun.com/instanceId''"
  shows "nd_PodCIDR a = nd_PodCIDR b" "nd_PodCIDRs a = nd_PodCIDRs b" "nd_ProviderID a = nd_ProviderID b"
  using assms unfolding Update_def Let_def DeepEqual_PodCIDRs_def Object.case prod.case
  by (metis (full_types))+



text \<open>
  C34 A node that is given another instance id in an annotation it already has is not reconciled: the predicate
  looks for annotations that appear, not for values that change, so the update is filtered out although the
  next hop of the node's route has changed.
\<close>

theorem changed_instance_filtered_out:
  assumes "nd_Annotations a = Some m" "m ''appengine.sdns.ksyun.com/instance-uuid'' = Some old" "new \<noteq> old"
  shows "let b = a\<lparr>nd_Annotations := Some (m(''appengine.sdns.ksyun.com/instance-uuid'' \<mapsto> new))\<rparr>
    in getNodeInstanceId (the_node a) = old \<and> getNodeInstanceId (the_node b) = new \<and>
       \<not> Update cfg (NodeObject a) (NodeObject b)"
  using assms
  by (auto simp: Let_def Update_def has_annotation_def map_get_def getNodeInstanceId_def DeepEqual_PodCIDRs_def
      split: if_splits)

theorem changed_instance_filtered_out_witness:
  "\<exists>a b. getNodeInstanceId (the_node a) = ''i-1'' \<and> getNodeInstanceId (the_node b) = ''i-2'' \<and>
     \<not> Update \<lparr>cf_NetworkEndpoint = '''', cf_ClusterUUID = '''', cf_VpcID = '''', cf_Region = '''',
     cf_InstanceIdFrom = ''annotation'', cf_AlarmEnabled = False\<rparr> (NodeObject a) (NodeObject b)"
proof -
  let ?a = "(Node.extend ten_node \<lparr>nd_PodCIDRs_nil = True\<rparr>)
    \<lparr>nd_Annotations := Some [''appengine.sdns.ksyun.com/instance-uuid'' \<mapsto> ''i-1'']\<rparr>"
  have "nd_Annotations ?a = Some [''appengine.sdns.ksyun.com/instance-uuid'' \<mapsto> ''i-1'']" by simp
  from changed_instance_filtered_out [OF this, of "''i-1''" "''i-2''"] show ?thesis
    unfolding Let_def by (intro exI) simp
qed

end
