(* ===== verification/Next_Hop.thy ===== *)
theory Next_Hop
  imports Node_Agent Event_Filter
begin

text \<open>
  The way of an instance id from the metadata service of a node to the next hop of its route: the agent on the node
  writes the annotation, the predicate lets the update of the node through, and the request that follows creates
  the route to that instance.
\<close>

section \<open>The agent against the reference cloud\<close>

definition metadata_instance :: string where
  "metadata_instance = ''i-'' @ metadataUrl @ ''instance-id''"

lemma ensure_sets:
  assumes "find (\<lambda>m. nd_Name m = name) (cl_nodes w) = Some n" "\<not> existed n"
    and "setter n (''i-'' @ metadataUrl @ path) = Ok m" "nd_Name m = nd_Name n"
  shows "ensure ref_env existed (getMetadata ref_env path) setter name w
    = (Ok (), w\<lparr>cl_nodes := put_node m (cl_nodes w)\<rparr>)"
proof -
  have "find P xs = Some x \<Longrightarrow> list_ex P xs" for P xs and x :: Node
    by (induction xs) (auto split: if_splits)
  from this [OF assms(1)] have "list_ex (\<lambda>k. nd_Name k = nd_Name m) (cl_nodes w)"
    using assms(4) find_name [OF assms(1)] by simp
  then show ?thesis
    using assms by (simp add: ensure_def GetNode_def UpdateNode_def getMetadata_def on_res_def)
qed

lemma ensure_existed:
  assumes "find (\<lambda>m. nd_Name m = name) (cl_nodes w) = Some n" "existed n"
  shows "ensure ref_env existed fetch setter name w = (Ok (), w)"
  using assms by (simp add: ensure_def GetNode_def on_res_def)

text \<open>Only the annotations change, and the instance is the one of the metadata service.\<close>

definition annotated :: "Node \<Rightarrow> Node \<Rightarrow> bool" where
  "annotated old new \<longleftrightarrow> (\<exists>a. new = old\<lparr>nd_Annotations := Some a\<rparr> \<and>
     a ''appengine.sdns.ksyun.com/instance-uuid'' = None \<and> a ''kce.sdns.ksyun.com/instanceId'' = Some metadata_instance)"

lemma annotatedI:
  "a ''appengine.sdns.ksyun.com/instance-uuid'' = None \<Longrightarrow> a ''kce.sdns.ksyun.com/instanceId'' = Some metadata_instance \<Longrightarrow>
     annotated old (old\<lparr>nd_Annotations := Some a\<rparr>)"
  by (auto simp: annotated_def)

lemma annotated_node:
  assumes "annotated old new"
  shows "getNodeInstanceId new = metadata_instance" "needSyncRoute new = needSyncRoute old"
    "getIPv4RouteForNode new = getIPv4RouteForNode old" "nd_Name new = nd_Name old"
  using assms
  by (auto simp: annotated_def getNodeInstanceId_def map_get_def needSyncRoute_def HasExcludeLabel_def getIPv4RouteForNode_def)

lemma ref_ok_nodes: "ref_ok G (w\<lparr>cl_nodes := ns\<rparr>) = ref_ok G w" "ref_table (w\<lparr>cl_nodes := ns\<rparr>) = ref_table w"
  by (auto simp: ref_ok_def ref_up_def ref_table_def)

lemma agent_runs:
  assumes "find (\<lambda>m. nd_Name m = name) (cl_nodes w) = Some old" "name \<noteq> ''''" "\<not> IsExistedInstanceUUIDKey old"
  shows "\<exists>new ns. agent_main ref_env (\<lambda>_. name) None w = Some (Ok 0, w\<lparr>cl_nodes := ns\<rparr>) \<and>
    find (\<lambda>m. nd_Name m = name) ns = Some new \<and> annotated old new"
proof -
  note name = find_name [OF assms(1)]
  let ?a = "case nd_Annotations old of None \<Rightarrow> Map.empty | Some m \<Rightarrow> m"
  have "?a ''appengine.sdns.ksyun.com/instance-uuid'' = None"
    using assms(3) by (auto simp: existed_keys map_get_def KCE1NodeAnnotationInstanceUUIDKey_def split: option.splits)
  then have "annotated old (old\<lparr>nd_Annotations := Some (?a(KCE2NodeAnnotationInstanceUUIDKey \<mapsto> metadata_instance))\<rparr>)"
    by (intro annotatedI) (simp_all add: KCE2NodeAnnotationInstanceUUIDKey_def)
  then obtain mid where mid: "SetInstanceUUID old metadata_instance = Ok mid" "annotated old mid" "nd_Name mid = name"
    using name by (simp add: SetInstanceUUID_def setAnnotation_eq)
  let ?w1 = "w\<lparr>cl_nodes := put_node mid (cl_nodes w)\<rparr>"
  have one: "EnsureNodeInstanceId ref_env name w = (Ok (), ?w1)"
    unfolding EnsureNodeInstanceId_def getMetadataInstanceId_def
    by (rule ensure_sets [where existed = IsExistedInstanceUUIDKey, OF assms(1,3)]) (use mid name in \<open>simp_all add: metadata_instance_def\<close>)
  have found: "find (\<lambda>m. nd_Name m = name) (cl_nodes ?w1) = Some mid"
    using put_node_found [OF assms(1) mid(3)] by simp
  have "\<exists>new ns. EnsureNodeZone ref_env name ?w1 = (Ok (), w\<lparr>cl_nodes := ns\<rparr>) \<and>
      find (\<lambda>m. nd_Name m = name) ns = Some new \<and> annotated old new"
  proof (cases "IsExistedZoneKey mid")
    case True
    then show ?thesis
      using ensure_existed [where existed = IsExistedZoneKey, OF found True] found mid(2) unfolding EnsureNodeZone_def by auto
  next
    case False
    let ?zone = "''i-'' @ metadataUrl @ ''placement/zone''"
    obtain a where a: "mid = old\<lparr>nd_Annotations := Some a\<rparr>"
      "a ''appengine.sdns.ksyun.com/instance-uuid'' = None" "a ''kce.sdns.ksyun.com/instanceId'' = Some metadata_instance"
      using mid(2) by (auto simp: annotated_def)
    then have "annotated old (old\<lparr>nd_Annotations := Some (a(KCE2NodeAnnotationZoneKey \<mapsto> ?zone))\<rparr>)"
      by (intro annotatedI) (simp_all add: KCE2NodeAnnotationZoneKey_def)
    then obtain new where new: "SetZone mid ?zone = Ok new" "annotated old new" "nd_Name new = name"
      using a(1) mid(3) by (simp add: SetZone_def setAnnotation_eq)
    have "EnsureNodeZone ref_env name ?w1 = (Ok (), ?w1\<lparr>cl_nodes := put_node new (cl_nodes ?w1)\<rparr>)"
      unfolding EnsureNodeZone_def getMetadataZone_def
      by (rule ensure_sets [where existed = IsExistedZoneKey and setter = SetZone, OF found False new(1)]) (simp add: new(3) mid(3))
    then show ?thesis using put_node_found [OF found new(3)] new(2) by auto
  qed
  then obtain new ns where two: "EnsureNodeZone ref_env name ?w1 = (Ok (), w\<lparr>cl_nodes := ns\<rparr>)"
    "find (\<lambda>m. nd_Name m = name) ns = Some new" "annotated old new" by blast
  have "Agent_Run ref_env (\<lambda>_. name) None w = (Ok True, w\<lparr>cl_nodes := ns\<rparr>)"
    using one two(1) assms(2) by (simp add: Agent_Run_def GetNodeName_def Let_def on_res_def)
  then have "agent_main ref_env (\<lambda>_. name) None w = Some (Ok 0, w\<lparr>cl_nodes := ns\<rparr>)"
    by (subst agent_main.simps) simp
  then show ?thesis using two(2,3) by blast
qed

text \<open>An annotation that appears passes the predicate in the annotation mode.\<close>

lemma annotated_passes:
  assumes "cf_InstanceIdFrom cfg = ''annotation''" "annotated (the_node a) (the_node b)"
    and "\<not> IsExistedInstanceUUIDKey (the_node a)"
  shows "Update cfg (NodeObject a) (NodeObject b)"
proof -
  obtain m where m: "the_node b = (the_node a)\<lparr>nd_Annotations := Some m\<rparr>"
    "m ''kce.sdns.ksyun.com/instanceId'' = Some metadata_instance"
    using assms(2) unfolding annotated_def by blast
  have "nd_Annotations (the_node b) = Some m" unfolding m(1) by simp
  then have "has_annotation b ''kce.sdns.ksyun.com/instanceId''" using m(2) by (simp add: has_annotation_def map_get_def)
  moreover have "\<not> has_annotation a ''kce.sdns.ksyun.com/instanceId''"
    using assms(3) by (simp add: existed_keys has_annotation_def KCE2NodeAnnotationInstanceUUIDKey_def)
  ultimately show ?thesis using assms(1) by (simp add: Update_def Let_def)
qed

section \<open>Property\<close>

text \<open>
  C9 From the metadata service to the route: for a node without an instance annotation the agent exits with code 0,
  the update of the node from the one before to the one after passes the predicate in the annotation mode, and
  the request for the node gives it a route to the instance of the metadata service, when its CIDR had none.
\<close>

theorem agent_to_route:
  assumes "ref_ok G w" "k_get ref_env name w = (Ok old, w)" "name \<noteq> ''''" "\<not> IsExistedInstanceUUIDKey old"
    and "needSyncRoute old" "getIPv4RouteForNode old = Ok (n, cidr)" "cidr \<noteq> ''''" "ref_table w cidr = None"
    and "cf_InstanceIdFrom cfg = ''annotation''" "the_node a = old"
  shows "\<exists>w' new r. agent_main ref_env (\<lambda>_. name) None w = Some (Ok 0, w') \<and> k_get ref_env name w' = (Ok new, w') \<and>
    (\<forall>b. the_node b = new \<longrightarrow> Update cfg (NodeObject a) (NodeObject b)) \<and>
    ref_table (snd (Reconcile ref_env G True name w')) cidr = Some r \<and> rt_InstanceId r = metadata_instance"
proof -
  have "find (\<lambda>m. nd_Name m = name) (cl_nodes w) = Some old" using assms(2) by (simp split: option.splits)
  then obtain new ns where run: "agent_main ref_env (\<lambda>_. name) None w = Some (Ok 0, w\<lparr>cl_nodes := ns\<rparr>)"
    "find (\<lambda>m. nd_Name m = name) ns = Some new" "annotated old new"
    using agent_runs assms(3,4) by blast
  let ?w' = "w\<lparr>cl_nodes := ns\<rparr>"
  have new: "getNodeInstanceId new = metadata_instance" "needSyncRoute new" "getIPv4RouteForNode new = Ok (n, cidr)"
    using annotated_node [OF run(3)] assms(5,6) by simp_all
  have get: "k_get ref_env name ?w' = (Ok new, ?w')" using run(2) by simp
  have "getNodeInstanceId new \<noteq> ''''" using new(1) by (simp add: metadata_instance_def)
  then have "route_ensured (ref_table ?w') cidr (getNodeInstanceId new) (ref_table (snd (Reconcile ref_env G True name ?w')))"
    using ref.reconcile_live [OF _ get new(2,3) assms(7)] assms(1) by (simp add: ref_ok_nodes)
  then have "\<exists>r. ref_table (snd (Reconcile ref_env G True name ?w')) cidr = Some r \<and> rt_InstanceId r = metadata_instance"
    using assms(8) new(1) by (auto simp: route_ensured_def ref_ok_nodes)
  moreover have "Update cfg (NodeObject a) (NodeObject b)" if "the_node b = new" for b
    using annotated_passes [OF assms(9)] run(3) assms(4,10) that by simp
  ultimately show ?thesis using run(1) get by blast
qed

theorem agent_to_route_witness:
  "\<exists>w' new r. agent_main ref_env (\<lambda>_. ''n1'') None (demo_cloud []) = Some (Ok 0, w') \<and>
     k_get ref_env ''n1'' w' = (Ok new, w') \<and>
     ref_table (snd (Reconcile ref_env demo_globals True ''n1'' w')) ''10.0.0.0/8'' = Some r \<and>
     rt_InstanceId r = metadata_instance"
proof -
  let ?cfg = "\<lparr>cf_NetworkEndpoint = '''', cf_ClusterUUID = '''', cf_VpcID = '''', cf_Region = '''',
     cf_InstanceIdFrom = ''annotation'', cf_AlarmEnabled = False\<rparr>"
  let ?a = "Node.extend ten_node \<lparr>nd_PodCIDRs_nil = True\<rparr>"
  have "the_node ?a = ten_node" by (simp add: the_node_def Node.defs ten_node_def empty_node_def)
  moreover have "\<not> IsExistedInstanceUUIDKey ten_node"
    by (simp add: existed_keys ten_node_def empty_node_def map_get_def)
  moreover have "ref_table (demo_cloud []) ''10.0.0.0/8'' = None" by (simp add: demo_table)
  ultimately show ?thesis
    using agent_to_route [OF demo_ok(1) demo_get, of _ _ ?cfg ?a] ten_node_facts(1) ten_node_net by fastforce
qed

end
