(* ===== verification/Query_Values.thy ===== *)
theory Query_Values
  imports Query_Codec
begin

text \<open>
  The conversions of \<open>pkg/util/encoding.go\<close> that walk over a value with \<open>reflect\<close>: \<open>setQueryValues\<close> to query
  parameters and \<open>setBodyValues\<close> to the map of a body. A Go value is a tree of the kinds the code tells apart.
\<close>

section \<open>Go values as reflect sees them\<close>

text \<open>
  Maps, slices and pointers may be nil (\<open>None\<close>); \<open>GValues\<close> is a map of the type \<open>url.Values\<close>. A map is listed in the order in which it is ranged over. Floats and
  times are the texts that \<open>FormatFloat\<close> and the time formats give. A field has its name, the text of its
  \<open>json\<close> tag, whether it is embedded, and its value.
\<close>

datatype gval =
    GInt int
  | GUint nat
  | GFloat string
  | GBool bool
  | GString string
  | GMap "(string \<times> string) list option"
  | GValues "url_values option"
  | GBytes "string option"
  | GStrings "string list option"
  | GSlice "gval list option"
  | GArray "gval list"
  | GTime string
  | GPtr "gval option"
  | GNil
  | GStruct "(string \<times> string \<times> bool \<times> gval) list"

text \<open>\<open>reflect.ValueOf(i)\<close> and the \<open>Elem()\<close> of a pointer; other values have no fields.\<close>

definition reflect_panic :: string where "reflect_panic = ''reflect: call of reflect.Value.NumField on a value that is no struct''"

definition assertion_panic :: string where "assertion_panic = ''interface conversion: interface {} is url.Values, not map[string]string''"

definition is_nil :: "gval \<Rightarrow> bool res" where
  "is_nil v =
     (case v of
        GMap m \<Rightarrow> Ok (m = None)
      | GValues m \<Rightarrow> Ok (m = None)
      | GBytes b \<Rightarrow> Ok (b = None)
      | GStrings ss \<Rightarrow> Ok (ss = None)
      | GSlice vs \<Rightarrow> Ok (vs = None)
      | GPtr p \<Rightarrow> Ok (p = None)
      | GArray _ \<Rightarrow> Panic ''reflect: call of reflect.Value.IsNil on array Value''
      | _ \<Rightarrow> Ok False)"

definition deref :: "gval \<Rightarrow> gval" where
  "deref v = (case v of GPtr (Some x) \<Rightarrow> x | _ \<Rightarrow> v)"

section \<open>Query parameters\<close>

text \<open>The text of a field that has one; \<open>None\<close> for what is flattened. \<open>json\<close> is \<open>json.Marshal\<close> of strings.\<close>

definition int_text :: "int \<Rightarrow> string" where "int_text i = (if i \<noteq> 0 then dec_int i else '''')"
definition uint_text :: "nat \<Rightarrow> string" where "uint_text n = (if n \<noteq> 0 then dec n else '''')"
definition bool_text :: "bool \<Rightarrow> string" where "bool_text b = (if b then ''true'' else ''false'')"

fun map_entries :: "string \<Rightarrow> nat \<Rightarrow> (string \<times> string) list \<Rightarrow> url_values \<Rightarrow> url_values" where
  "map_entries tag j [] values = values"
| "map_entries tag j ((k, v) # m) values =
     map_entries tag (Suc j) m
       (hset (tag @ ''.'' @ dec (Suc j) @ ''.Value'') [v] (hset (tag @ ''.'' @ dec (Suc j) @ ''.Key'') [k] values))"

definition set_text :: "string \<Rightarrow> string \<Rightarrow> string \<Rightarrow> url_values \<Rightarrow> url_values" where
  "set_text pre tag v values =
     (if v \<noteq> '''' then hset (if pre \<noteq> '''' then pre @ tag else tag) [v] values else values)"

definition strings_text :: "(string list \<Rightarrow> string res) \<Rightarrow> string list \<Rightarrow> string" where
  "strings_text json ss = (if ss = [] then '''' else case json ss of Ok b \<Rightarrow> b | _ \<Rightarrow> '''')"

definition res_bind :: "'a res \<Rightarrow> ('a \<Rightarrow> 'b res) \<Rightarrow> 'b res" where
  "res_bind r k = (case r of Ok x \<Rightarrow> k x | Err e \<Rightarrow> Err e | Panic p \<Rightarrow> Panic p)"

lemma res_bind_cong [fundef_cong]:
  "r = r' \<Longrightarrow> (\<And>x. r' = Ok x \<Longrightarrow> k x = k' x) \<Longrightarrow> res_bind r k = res_bind r' k'"
  by (cases r') (simp_all add: res_bind_def)

lemma res_bind_simps [simp]:
  "res_bind (Ok x) k = k x" "res_bind (Err e) k = Err e" "res_bind (Panic p) k = Panic p"
  by (simp_all add: res_bind_def)

lemma size_deref [termination_simp]: "size (deref v) \<le> size v"
  by (auto simp: deref_def split: gval.splits option.splits)

definition copy_values :: "url_values \<Rightarrow> url_values \<Rightarrow> url_values" where
  "copy_values mapValues values = foldl (\<lambda>values (k, vs). hset k [Values_Get vs] values) values mapValues"

function (sequential)
  set_value :: "(string list \<Rightarrow> string res) \<Rightarrow> gval \<Rightarrow> url_values \<Rightarrow> string \<Rightarrow> url_values res" and
  set_fields :: "(string list \<Rightarrow> string res) \<Rightarrow> (string \<times> string \<times> bool \<times> gval) list \<Rightarrow> url_values \<Rightarrow> string \<Rightarrow> url_values res" and
  set_field :: "(string list \<Rightarrow> string res) \<Rightarrow> string \<Rightarrow> bool \<Rightarrow> gval \<Rightarrow> url_values \<Rightarrow> string \<Rightarrow> url_values res" and
  set_elements :: "(string list \<Rightarrow> string res) \<Rightarrow> gval list \<Rightarrow> nat \<Rightarrow> string \<Rightarrow> url_values \<Rightarrow> url_values res"
where
  "set_value json (GValues m) values pre = Ok (case m of None \<Rightarrow> values | Some m \<Rightarrow> copy_values m values)"
| "set_value json (GStruct fs) values pre = set_fields json fs values pre"
| "set_value json (GPtr (Some (GStruct fs))) values pre = set_fields json fs values pre"
| "set_value json _ values pre = Panic reflect_panic"
| "set_fields json [] values pre = Ok values"
| "set_fields json ((name, tag, anonymous, v) # fs) values pre =
     res_bind (is_nil v) (\<lambda>nil.
       if nil then set_fields json fs values pre
       else res_bind (set_field json tag anonymous (deref v) values pre)
         (\<lambda>values. set_fields json fs values pre))"
| "set_field json tag anonymous (GInt i) values pre = Ok (set_text pre tag (int_text i) values)"
| "set_field json tag anonymous (GUint n) values pre = Ok (set_text pre tag (uint_text n) values)"
| "set_field json tag anonymous (GFloat t) values pre = Ok (set_text pre tag t values)"
| "set_field json tag anonymous (GBool b) values pre = Ok (set_text pre tag (bool_text b) values)"
| "set_field json tag anonymous (GString s) values pre = Ok (set_text pre tag s values)"
| "set_field json tag anonymous (GTime t) values pre = Ok (set_text pre tag t values)"
| "set_field json tag anonymous (GMap m) values pre =
     Ok (case m of None \<Rightarrow> values | Some m \<Rightarrow> map_entries tag 0 m values)"
| "set_field json tag anonymous (GValues m) values pre = Panic assertion_panic"
| "set_field json tag anonymous (GBytes b) values pre =
     Ok (set_text pre tag (case b of None \<Rightarrow> '''' | Some s \<Rightarrow> s) values)"
| "set_field json tag anonymous (GStrings ss) values pre =
     Ok (set_text pre tag (case ss of None \<Rightarrow> '''' | Some ss \<Rightarrow> strings_text json ss) values)"
| "set_field json tag anonymous (GSlice None) values pre = Ok values"
| "set_field json tag anonymous (GSlice (Some vs)) values pre = set_elements json vs 0 tag values"
| "set_field json tag anonymous GNil values pre = Ok values"
| "set_field json tag anonymous v values pre =
     (if anonymous then set_value json v values '''' else set_value json v values (tag @ ''.''))"
| "set_elements json [] j tag values = Ok values"
| "set_elements json (GNil # vs) j tag values = set_elements json vs (Suc j) tag values"
| "set_elements json (v # vs) j tag values =
     res_bind (set_value json v values (tag @ ''.'' @ dec (Suc j) @ ''.''))
       (\<lambda>values. set_elements json vs (Suc j) tag values)"
  by pat_completeness auto

termination
  apply (relation "measure (case_sum
     (case_sum (\<lambda>(json, v, values, pre). 2 * size v) (\<lambda>(json, fs, values, pre). Suc (2 * (size (GStruct fs) - 1))))
     (case_sum (\<lambda>(json, tag, a, v, values, pre). 2 * size v + 1) (\<lambda>(json, vs, j, tag, values). Suc (2 * size_list size vs))))")
  by (auto simp: less_Suc_eq_le intro!: trans_le_add1 le_SucI mult_le_mono2 size_deref)

text \<open>\<open>SetQueryValues\<close> starts with no prefix.\<close>

definition SetQueryValues :: "(string list \<Rightarrow> string res) \<Rightarrow> gval \<Rightarrow> url_values \<Rightarrow> url_values res" where
  "SetQueryValues json v values = set_value json v values ''''"

section \<open>Body values\<close>

text \<open>What \<open>SetBody\<close> sends: a value that cannot be marshalled becomes an empty body.\<close>

definition ConvertToMap :: "('a \<Rightarrow> string res) \<Rightarrow> 'a \<Rightarrow> string res" where
  "ConvertToMap marshal ifc = (case marshal ifc of Ok body \<Rightarrow> Ok body | Err _ \<Rightarrow> Ok '''' | Panic p \<Rightarrow> Panic p)"


datatype bval = BInt int | BUint nat | BFloat string | BText string | BMap "(string \<times> bval) list"

text \<open>
  What a field puts into the map: a number or a text of its own (\<open>None\<close> for the empty text); other values are
  converted into \<open>datasub\<close>, a variable of the whole call that keeps its value in later iterations.
\<close>

definition own_value :: "gval \<Rightarrow> bval option" where
  "own_value v =
     (case v of
        GInt i \<Rightarrow> Some (BInt i)
      | GUint n \<Rightarrow> Some (BUint n)
      | GFloat t \<Rightarrow> Some (BFloat t)
      | GBool b \<Rightarrow> Some (BText (bool_text b))
      | GString s \<Rightarrow> if s \<noteq> '''' then Some (BText s) else None
      | GTime t \<Rightarrow> if t \<noteq> '''' then Some (BText t) else None
      | _ \<Rightarrow> None)"

definition is_leaf :: "gval \<Rightarrow> bool" where
  "is_leaf v = (case v of
      GInt _ \<Rightarrow> True | GUint _ \<Rightarrow> True | GFloat _ \<Rightarrow> True | GBool _ \<Rightarrow> True | GString _ \<Rightarrow> True | GTime _ \<Rightarrow> True
    | GNil \<Rightarrow> True | _ \<Rightarrow> False)"

definition field_name :: "string \<Rightarrow> string \<Rightarrow> string" where
  "field_name name tag = (if tag = '''' then name else tag)"

function (sequential)
  setBodyValues :: "gval \<Rightarrow> (string \<times> bval) list res" and
  body_fields :: "(string \<times> string \<times> bool \<times> gval) list \<Rightarrow> (string \<times> bval) list \<Rightarrow> (string \<times> bval) list
    \<Rightarrow> (string \<times> bval) list res"
where
  "setBodyValues (GStruct fs) = body_fields fs [] []"
| "setBodyValues (GPtr (Some (GStruct fs))) = body_fields fs [] []"
| "setBodyValues _ = Panic reflect_panic"
| "body_fields [] data datasub = Ok data"
| "body_fields ((name, tag, anonymous, v) # fs) data datasub =
     res_bind (is_nil v) (\<lambda>nil.
       if nil then body_fields fs data datasub
       else res_bind (if is_leaf (deref v) then Ok datasub else setBodyValues (deref v))
         (\<lambda>datasub.
            let n = field_name name tag;
                data = (case own_value (deref v) of None \<Rightarrow> data | Some b \<Rightarrow> hset n b data);
                data = (if datasub \<noteq> [] then hset n (BMap datasub) data else data)
            in body_fields fs data datasub))"
  by pat_completeness auto

termination
  by (relation "measure (case_sum (\<lambda>v. 2 * size v) (\<lambda>(fs, data, datasub). Suc (2 * (size (GStruct fs) - 1))))")
     (auto simp: less_Suc_eq_le intro!: trans_le_add1 le_SucI mult_le_mono2 size_deref)

section \<open>Facts\<close>

text \<open>For \<open>url.Values\<close>, all that the clients pass, the conversion is the \<open>ConvertToQueryValues\<close> of theory Kop_Http.\<close>

lemma SetQueryValues_values: "SetQueryValues json (GValues (Some v)) [] = Ok (ConvertToQueryValues v)"
  by (simp add: SetQueryValues_def copy_values_def ConvertToQueryValues_def)

text \<open>The text of a field that is not flattened.\<close>

definition flat_text :: "gval \<Rightarrow> string option" where
  "flat_text v =
     (case v of
        GInt i \<Rightarrow> Some (int_text i)
      | GUint n \<Rightarrow> Some (uint_text n)
      | GFloat t \<Rightarrow> Some t
      | GBool b \<Rightarrow> Some (bool_text b)
      | GString s \<Rightarrow> Some s
      | GTime t \<Rightarrow> Some t
      | _ \<Rightarrow> None)"

lemma set_field_flat:
  "flat_text v = Some t \<Longrightarrow> is_nil v = Ok False \<and> deref v = v \<and> set_field json tag a v values pre = Ok (set_text pre tag t values)"
  by (cases v) (simp_all add: flat_text_def is_nil_def deref_def)

lemma map_of_set_text:
  "map_of (set_text pre tag t values) k = (if t \<noteq> '''' \<and> k = pre @ tag then Some [t] else map_of values k)"
  by (simp add: set_text_def)

definition f_tag :: "string \<times> string \<times> bool \<times> gval \<Rightarrow> string" where "f_tag f = fst (snd f)"
definition f_text :: "string \<times> string \<times> bool \<times> gval \<Rightarrow> string option" where "f_text f = flat_text (snd (snd (snd f)))"

definition plain_lookup :: "string \<Rightarrow> (string \<times> string \<times> bool \<times> gval) list \<Rightarrow> string \<Rightarrow> string option" where
  "plain_lookup pre fs k = Option.bind (find (\<lambda>f. pre @ f_tag f = k \<and> f_text f \<noteq> Some []) fs) f_text"

lemma plain_lookup_Cons:
  "f_text f = Some t \<Longrightarrow> plain_lookup pre (f # fs) k =
     (if pre @ f_tag f = k \<and> t \<noteq> [] then Some t else plain_lookup pre fs k)"
  by (simp add: plain_lookup_def)

lemma plain_lookup_fresh: "tag \<notin> f_tag ` set fs \<Longrightarrow> plain_lookup pre fs (pre @ tag) = None"
  by (induction fs) (auto simp: plain_lookup_def)

lemma set_fields_plain:
  assumes "list_all (\<lambda>f. f_text f \<noteq> None) fs" "distinct (map f_tag fs)"
  shows "\<exists>vs. set_fields json fs vals pre = Ok vs \<and>
    (\<forall>k. map_of vs k = (case plain_lookup pre fs k of Some t \<Rightarrow> Some [t] | None \<Rightarrow> map_of vals k))"
  using assms
proof (induction fs arbitrary: vals)
  case Nil
  then show ?case by (simp add: plain_lookup_def)
next
  case (Cons f fs)
  obtain n tag a v where f: "f = (n, tag, a, v)" by (metis surj_pair)
  obtain t where t: "f_text f = Some t" using Cons.prems(1) by auto
  then have "flat_text v = Some t" by (simp add: f f_text_def)
  note fld = set_field_flat [OF this, of json tag a vals pre]
  obtain vs where vs: "set_fields json fs (set_text pre tag t vals) pre = Ok vs"
    "\<forall>k. map_of vs k = (case plain_lookup pre fs k of Some u \<Rightarrow> Some [u] | None \<Rightarrow> map_of (set_text pre tag t vals) k)"
    using Cons.IH [of "set_text pre tag t vals"] Cons.prems by auto
  have tag: "f_tag f = tag" by (simp add: f f_tag_def)
  then have "plain_lookup pre fs (pre @ tag) = None"
    using Cons.prems(2) by (intro plain_lookup_fresh) auto
  then have "map_of vs k = (case plain_lookup pre (f # fs) k of Some u \<Rightarrow> Some [u] | None \<Rightarrow> map_of vals k)" for k
    using vs(2) by (auto simp: plain_lookup_Cons [OF t] tag map_of_set_text split: option.splits)
  then show ?case using vs(1) f fld by auto
qed

section \<open>Properties\<close>

text \<open>
  A struct with plain fields of distinct tags is converted without loss: every field whose text is not
  empty is the one value of the parameter named by its tag, with the prefix, and nothing else is set.
\<close>

lemma plain_struct_converted:
  assumes "list_all (\<lambda>f. f_text f \<noteq> None) fs" "distinct (map f_tag fs)"
  shows "\<exists>vs. set_value json (GStruct fs) [] pre = Ok vs \<and>
    (\<forall>k. map_of vs k = map_option (\<lambda>t. [t]) (plain_lookup pre fs k))"
proof -
  have "(case p of Some t \<Rightarrow> Some [t] | None \<Rightarrow> map_of [] k) = map_option (\<lambda>t. [t]) p" for p :: "string option" and k :: string
    by (cases p) simp_all
  then show ?thesis using set_fields_plain [OF assms, of json "[]" pre] by simp
qed

text \<open>
  A struct inside a struct keeps only its own tag as prefix: the tag of the outer field and any prefix
  before it are lost, so equal inner tags collide in one parameter.
\<close>

lemma nested_prefix_lost:
  "set_value json (GStruct [(n, outer, False, GStruct [(m, inner, False, GStruct fs)])]) values pre
     = set_value json (GStruct fs) values (inner @ ''.'')"
  by (simp add: is_nil_def deref_def split: res.splits) (simp add: res_bind_def split: res.splits)

text \<open>
  In the body, a nested struct overwrites the fields after it: \<open>datasub\<close> is not reset, so a later field with
  a value of its own is set to the nested map.
\<close>

lemma body_datasub_leaks:
  assumes "setBodyValues (GStruct fs) = Ok sub" "sub \<noteq> []"
  shows "setBodyValues (GStruct [(n, ''a'', x, GStruct fs), (m, ''b'', y, GString s)])
     = Ok [(''a'', BMap sub), (''b'', BMap sub)]"
  using assms by (simp add: is_nil_def deref_def is_leaf_def own_value_def field_name_def Let_def)

end
