(* ===== verification/Http_Helpers.thy ===== *)
theory Http_Helpers
  imports Query_Codec
begin

text \<open>
  The plain HTTP client of \<open>pkg/http/http.go\<close>, the form encoding \<open>Encode\<close> of \<open>pkg/util/util.go\<close> and the
  notifier that posts forms with them (\<open>openstack_client/notifier\<close>).
\<close>

section \<open>Forms\<close>

text \<open>The buffer grows key by key, in the order of the sorted keys.\<close>

fun encode_loop :: "(string \<Rightarrow> string) \<Rightarrow> string list \<Rightarrow> string \<Rightarrow> string" where
  "encode_loop v [] buf = buf"
| "encode_loop v (k # ks) buf =
     encode_loop v ks ((if length buf > 0 then buf @ ''&'' else buf) @ (QueryEscape k @ ''='') @ QueryEscape (v k))"

definition Encode :: "(string \<times> string) list option \<Rightarrow> string" where
  "Encode v =
     (case v of
        None \<Rightarrow> ''''
      | Some m \<Rightarrow> encode_loop (\<lambda>k. the (map_of m k)) (sort (map fst m)) '''')"

section \<open>The client\<close>

type_synonym 'w Modifier = "Request \<Rightarrow> ('w, Request) eff"

record 'w Client =
  hc_modifiers :: "'w Modifier option list option"

text \<open>A given \<open>http.Client\<close> is used, otherwise a new one: both send with \<open>http_do\<close>.\<close>

definition NewClient :: "'w Modifier option list \<Rightarrow> 'w Client" where
  "NewClient modifiers = \<lparr>hc_modifiers = (if length modifiers > 0 then Some modifiers else None)\<rparr>"

fun modify_all :: "'w Modifier option list \<Rightarrow> Request \<Rightarrow> ('w, Request) eff" where
  "modify_all [] req w = (Ok req, w)"
| "modify_all (None # ms) req w = modify_all ms req w"
| "modify_all (Some m # ms) req w = on_res (m req) (modify_all ms) (\<lambda>err w. (Err err, w)) w"

definition Client_Do :: "'w env \<Rightarrow> 'w Client \<Rightarrow> Request \<Rightarrow> ('w, Response) eff" where
  "Client_Do E c req =
     (case hc_modifiers c of
        None \<Rightarrow> http_do E req
      | Some ms \<Rightarrow> on_res (modify_all ms req) (http_do E) (\<lambda>err w. (Err err, w)))"

definition DoRequest :: "'w env \<Rightarrow> 'w Client \<Rightarrow> Request \<Rightarrow> ('w, string) eff" where
  "DoRequest E c req =
     on_res (Client_Do E c req)
       (\<lambda>resp w.
          if rs_StatusCode resp < 200 \<or> rs_StatusCode resp > 299
          then (Err (HttpError (rs_StatusCode resp) (rs_Body resp)), w)
          else (Ok (rs_Body resp), w))
       (\<lambda>err w. (Err err, w))"

definition post :: "'w env \<Rightarrow> 'w Client \<Rightarrow> string \<Rightarrow> string \<Rightarrow> string \<Rightarrow> ('w, string) eff" where
  "post E c url contentType body w =
     (case new_request E ''POST'' url body of
        Err err \<Rightarrow> (Err err, w)
      | Panic p \<Rightarrow> (Panic p, w)
      | Ok req \<Rightarrow> DoRequest E c (Header_Set ''Content-Type'' contentType req) w)"

text \<open>No value is a request without a body; of several the first is sent.\<close>

definition PostJson :: "'w env \<Rightarrow> 'w Client \<Rightarrow> ('v \<Rightarrow> string res) \<Rightarrow> string \<Rightarrow> 'v list \<Rightarrow> ('w, string) eff" where
  "PostJson E c marshal url v w =
     (case v of
        [] \<Rightarrow> post E c url ''application/json'' '''' w
      | x # _ \<Rightarrow>
          (case marshal x of
             Err err \<Rightarrow> (Err err, w)
           | Panic p \<Rightarrow> (Panic p, w)
           | Ok data \<Rightarrow> post E c url ''application/json'' data w))"

definition PostForm :: "'w env \<Rightarrow> 'w Client \<Rightarrow> string \<Rightarrow> (string \<times> string) list option \<Rightarrow> ('w, string) eff" where
  "PostForm E c url paramMap = post E c url ''application/x-www-form-urlencoded'' (Encode paramMap)"

section \<open>The notifier\<close>

definition defaultAlarmUrl :: string where "defaultAlarmUrl = ''http://alarm.inner.sdns.ksyun.com/alarm/receptor''"

record NotifyMessage =
  nm_Name :: string
  nm_Priority :: string
  nm_Content :: string
  nm_NoDeal :: string
  nm_Product :: string

record NotifierClient =
  nc_AlarmUrl :: string
  nc_Product :: string

definition NewNotifierClient :: NotifierClient where
  "NewNotifierClient = \<lparr>nc_AlarmUrl = defaultAlarmUrl, nc_Product = ''CONTAINER_NETWORK''\<rparr>"

definition notify_form :: "NotifierClient \<Rightarrow> NotifyMessage \<Rightarrow> (string \<times> string) list" where
  "notify_form n message = [(''name'', nm_Name message), (''product'', nc_Product n),
     (''priority'', nm_Priority message), (''content'', nm_Content message), (''no_deal'', nm_NoDeal message)]"

fun Notify :: "'w env \<Rightarrow> NotifierClient \<Rightarrow> NotifyMessage list \<Rightarrow> ('w, unit) eff" where
  "Notify E n [] w = (Ok (), w)"
| "Notify E n (message # messages) w =
     on_res (PostForm E (NewClient []) (nc_AlarmUrl n) (Some (notify_form n message)))
       (\<lambda>_. Notify E n messages) (\<lambda>_. Notify E n messages) w"

section \<open>Facts\<close>

lemma amp_join_Cons: "amp_join (x # xs) = x @ (if xs = [] then '''' else ''&'' @ amp_join xs)"
  by (cases xs) simp_all

lemma encode_loop_join:
  "buf \<noteq> [] \<Longrightarrow> encode_loop v ks buf = buf @ (if ks = [] then '''' else ''&''
     @ amp_join (map (\<lambda>k. QueryEscape k @ ''='' @ QueryEscape (v k)) ks))"
  by (induction v ks buf rule: encode_loop.induct) (simp_all add: amp_join_Cons)

lemma encode_loop_empty:
  "encode_loop v ks [] = amp_join (map (\<lambda>k. QueryEscape k @ ''='' @ QueryEscape (v k)) ks)"
  by (cases ks) (simp_all add: encode_loop_join amp_join_Cons)

lemma Encode_pairs:
  "Encode (Some m) = amp_join (map (\<lambda>(k, v). QueryEscape k @ ''='' @ QueryEscape v)
     (map (\<lambda>k. (k, the (map_of m k))) (sort (map fst m))))"
  by (simp add: Encode_def encode_loop_empty comp_def)

section \<open>Properties\<close>

text \<open>
  C38 A form is read back by the server as the map it was made from, whatever bytes keys and values hold.
\<close>

theorem Encode_roundtrip: "map_of (ParseQuery (Encode (Some m))) = map_of m"
proof
  fix k
  have "map_of (map (\<lambda>k. (k, the (map_of m k))) ks) k = (if k \<in> set ks then Some (the (map_of m k)) else None)" for ks
    by (induction ks) auto
  then have "map_of (ParseQuery (Encode (Some m))) k = (if k \<in> set (sort (map fst m)) then Some (the (map_of m k)) else None)"
    unfolding Encode_pairs ParseQuery_pairs by (simp only:)
  also have "\<dots> = map_of m k"
    by (cases "k \<in> fst ` set m") (use map_of_eq_None_iff [of m k] in auto)
  finally show "map_of (ParseQuery (Encode (Some m))) k = map_of m k" .
qed

theorem Encode_roundtrip_witness:
  "map_of (ParseQuery (Encode (Some (notify_form NewNotifierClient
     \<lparr>nm_Name = ''a&b'', nm_Priority = ''2'', nm_Content = '''', nm_NoDeal = ''1'', nm_Product = ''''\<rparr>)))) ''name'' = Some ''a&b''"
  by (simp add: Encode_roundtrip notify_form_def)

text \<open>The notifier posts every message, also after one that could not be posted, and never fails.\<close>

lemma Notify_append:
  "Notify E n (ms @ ms') w = on_res (Notify E n ms) (\<lambda>_. Notify E n ms') (\<lambda>_. Notify E n ms') w"
  by (induction E n ms w rule: Notify.induct) (auto simp: on_res_def split: prod.splits res.splits)

lemma Notify_never_fails: "fst (Notify E n ms w) \<noteq> Err e"
  by (induction E n ms w rule: Notify.induct) (auto simp: on_res_def split: prod.splits res.splits)

text \<open>A call succeeds exactly when a status of the two hundreds comes back.\<close>

lemma DoRequest_Ok:
  "DoRequest E c req w = (Ok data, w') \<longleftrightarrow>
     (\<exists>resp. Client_Do E c req w = (Ok resp, w') \<and> rs_Body resp = data \<and>
        rs_StatusCode resp \<in> {200..299})"
  by (auto simp: DoRequest_def on_res_def split: prod.splits res.splits)

end
