(* ===== verification/Server_Client.thy ===== *)
theory Server_Client
  imports Reference_Run Failing_Cloud
begin

text \<open>
  The instance lookup of \<open>openstack_client/nova/server.go\<close> and \<open>GetInstanceIdFromIP\<close> of \<open>pkg/ksyun/ksyun.go\<close>, and
  the configuration \<open>GetNeutronConfig\<close> reads. The lookup is a call like those of the route client.
\<close>

section \<open>Instances\<close>

record Instance =
  in_Id :: string
  in_Name :: string

record InstanceArgs =
  ia_DomainId :: string
  ia_InstanceId :: string
  ia_InstanceType :: string
  ia_InstancePrivateIP :: string

definition fmt_instance_args :: "InstanceArgs \<Rightarrow> string" where
  "fmt_instance_args a = ''&{'' @ ia_DomainId a @ '' '' @ ia_InstanceId a @ '' '' @ ia_InstanceType a
     @ '' '' @ ia_InstancePrivateIP a @ ''}''"

definition nova_ServerName :: string where "nova_ServerName = ''kec''"

definition NewServerClient :: "Config \<Rightarrow> ApiClient res" where
  "NewServerClient conf = Ok \<lparr>ac_conf = with_endpoint conf, ac_client = NewKopClient,
     ac_headers = [(''User-Agent'', ''vpc-route-controller''), (''Content-Type'', ''application/json''),
                   (''Accept'', ''application/json'')]\<rparr>"

text \<open>\<open>unmarshal\<close> decodes the answer into the list of its instances.\<close>

definition DescribeInstances ::
  "'w env \<Rightarrow> (string \<Rightarrow> Instance list res) \<Rightarrow> InstanceArgs \<Rightarrow> ('w \<times> ApiClient, Instance) eff" where
  "DescribeInstances E unmarshal args = with_aksk E (
     let action = [(''Action'', [''DescribeInstances'']), (''Version'', [defaultVersion]),
                   (''Filter.1.Name'', [''vpc-id'']), (''Filter.1.Value.1'', [ia_DomainId args]),
                   (''Filter.2.Name'', [''private-ip-address'']),
                   (''Filter.2.Value.1'', [ia_InstancePrivateIP args])]
     in (\<lambda>aksk. on_res (call_api E nova_ServerName (''get instances '' @ fmt_instance_args args) action GET id aksk)
          (\<lambda>data. on_res (decode_wrapped data (unmarshal data))
             (\<lambda>instances s. case instances of
                 [] \<Rightarrow> (Err (ErrorString (''kop get instance '' @ fmt_instance_args args @ '' err: not found'')), s)
               | i # _ \<Rightarrow> (Ok i, s))
             (\<lambda>err s. (Err err, s)))
          (\<lambda>err s. (Err err, s))))"

definition GetInstanceIdFromIP ::
  "'w env \<Rightarrow> (string \<Rightarrow> Instance list res) \<Rightarrow> Globals \<Rightarrow> string \<Rightarrow> ('w, string) eff" where
  "GetInstanceIdFromIP E unmarshal G privateIP w =
     (case NewServerClient (g_Cfg G) of
        Err err \<Rightarrow> (Err err, w)
      | Panic p \<Rightarrow> (Panic p, w)
      | Ok s \<Rightarrow>
          on_res (on_client (DescribeInstances E unmarshal
                \<lparr>ia_DomainId = cf_VpcID (g_Cfg G), ia_InstanceId = '''', ia_InstanceType = defaultRouteType,
                 ia_InstancePrivateIP = privateIP\<rparr>) s)
            (\<lambda>result w. (Ok (in_Id result), w))
            (\<lambda>err. fail_with_alarm E G ''GetInstanceIdFromIP'' err err) w)"

section \<open>The configuration\<close>

datatype AkskProvider = EnvProvider bool string | FileProvider string string

record NeutronConfig =
  nf_conf :: Config
  nf_AkskType :: string
  nf_Encrypt :: bool
  nf_AkskFilePath :: string

text \<open>\<open>unmarshal\<close> decodes the JSON of \<open>NET_CONF\<close>; \<open>DefaultCipherKey\<close> is linked in.\<close>

definition GetNeutronConfig ::
  "(string \<Rightarrow> string) \<Rightarrow> (string \<Rightarrow> NeutronConfig res) \<Rightarrow> string \<Rightarrow> (NeutronConfig \<times> AkskProvider) res" where
  "GetNeutronConfig getenv unmarshal cipherKey =
     (let content = getenv ''NET_CONF'' in
      if content = '''' then Err (ErrorString ''net config is null.'')
      else
        (case unmarshal content of
           Err err \<Rightarrow> Err (ErrorString (''json unmarshal '' @ content @ '' error: '' @ error_text err))
         | Panic p \<Rightarrow> Panic p
         | Ok c \<Rightarrow>
             if nf_AkskType c = ''env'' then Ok (c, EnvProvider (nf_Encrypt c) cipherKey)
             else if nf_AkskType c = ''file'' then Ok (c, FileProvider (nf_AkskFilePath c) cipherKey)
             else Err (ErrorString ''please set aksk type.'')))"

section \<open>Facts\<close>

text \<open>An instance that is found is the first of the answer; nothing found is an error, never a panic.\<close>

lemma DescribeInstances_answer:
  assumes "aksk_get E w = (Ok aksk, w1)"
    and "call_api E nova_ServerName (''get instances '' @ fmt_instance_args args)
       [(''Action'', [''DescribeInstances'']), (''Version'', [defaultVersion]),
        (''Filter.1.Name'', [''vpc-id'']), (''Filter.1.Value.1'', [ia_DomainId args]),
        (''Filter.2.Name'', [''private-ip-address'']), (''Filter.2.Value.1'', [ia_InstancePrivateIP args])]
       GET id aksk (w1, c) = (Ok data, s)"
    and "unmarshal data = Ok instances"
  shows "DescribeInstances E unmarshal args (w, c) =
    ((case instances of [] \<Rightarrow> Err (ErrorString (''kop get instance '' @ fmt_instance_args args @ '' err: not found''))
      | i # _ \<Rightarrow> Ok i), s)"
  using assms
  by (simp add: DescribeInstances_def with_aksk_def lift_w_def on_res_def decode_wrapped_def split: list.splits)

lemma GetNeutronConfig_Ok:
  "GetNeutronConfig getenv unmarshal key = Ok (c, p) \<longleftrightarrow>
     getenv ''NET_CONF'' \<noteq> '''' \<and> unmarshal (getenv ''NET_CONF'') = Ok c \<and>
     (nf_AkskType c = ''env'' \<and> p = EnvProvider (nf_Encrypt c) key \<or>
      nf_AkskType c = ''file'' \<and> p = FileProvider (nf_AkskFilePath c) key)"
  by (auto simp: GetNeutronConfig_def Let_def split: res.splits)

end
