(* ===== verification/Convergence.thy ===== *)
theory Convergence
  imports Reference_Run
begin

text \<open>
  Repeated passes of \<open>reconcileForCluster\<close> against the reference cloud: the pass reads the nodes from the API
  server and patches their status on the way, and after two passes the routes of the cluster are right.
\<close>

section \<open>What a pass leaves of the nodes\<close>

text \<open>
  A node up to its conditions other than \<open>Ready\<close>: all that the routes depend on.
\<close>

definition node_view :: "Node \<Rightarrow> Node \<times> NodeCondition \<times> bool" where
  "node_view n = (n\<lparr>nd_Conditions := []\<rparr>, FindCondition (nd_Conditions n) NodeReady)"

lemma node_view_same:
  assumes "node_view m = node_view n"
  shows "nd_Name m = nd_Name n" "HasExcludeLabel m = HasExcludeLabel n" "needSyncRoute m = needSyncRoute n"
    "getIPv4RouteForNode m = getIPv4RouteForNode n" "getNodeInstanceId m = getNodeInstanceId n"
    "apart k m = apart k n"
proof -
  have f: "nd_Name m = nd_Name n" "nd_Labels m = nd_Labels n" "nd_Annotations m = nd_Annotations n"
    "nd_DeletionTimestamp m = nd_DeletionTimestamp n" "nd_PodCIDR m = nd_PodCIDR n"
    "nd_PodCIDRs m = nd_PodCIDRs n" "nd_ProviderID m = nd_ProviderID n"
    "FindCondition (nd_Conditions m) NodeReady = FindCondition (nd_Conditions n) NodeReady"
    using assms by (cases m; cases n; simp add: node_view_def)+
  show "nd_Name m = nd_Name n" "HasExcludeLabel m = HasExcludeLabel n" "needSyncRoute m = needSyncRoute n"
    "getIPv4RouteForNode m = getIPv4RouteForNode n" "getNodeInstanceId m = getNodeInstanceId n"
    "apart k m = apart k n"
    by (auto simp: f HasExcludeLabel_def needSyncRoute_def getIPv4RouteForNode_def getNodeInstanceId_def apart_def
      cong: option.case_cong split: prod.split)
qed

lemma latest_of_other_type:
  assumes "latest_of cs t r" "i < length cs" "c_Type (cs ! i) \<noteq> t" "c_Type d \<noteq> t"
  shows "latest_of (cs[i := d]) t r"
  using assms by (auto simp: latest_of_def nth_list_update list_all_length split: option.splits)

lemma FindCondition_latest_of: "latest_of cs t r \<Longrightarrow> latest_of ds t r \<Longrightarrow> FindCondition cs t = FindCondition ds t"
proof (cases r)
  case None
  moreover assume "latest_of cs t r" "latest_of ds t r"
  ultimately have "FindCondition_at cs t = None" "FindCondition_at ds t = None"
    by (simp_all add: FindCondition_at_None latest_of_def)
  then show ?thesis by (simp add: FindCondition_def)
next
  case (Some p)
  moreover assume "latest_of cs t r" "latest_of ds t r"
  ultimately have "FindCondition_at cs t = Some p" "FindCondition_at ds t = Some p"
    using latest_of_found by (cases p; simp)+
  then show ?thesis by (simp add: FindCondition_def)
qed

lemma diff_conditions_ready:
  "FindCondition (diff_conditions b t1 t2 conds) NodeReady = FindCondition conds NodeReady"
proof -
  have ready: "latest_of conds NodeReady (FindCondition_at conds NodeReady)" by (rule FindCondition_at_latest)
  have "NodeReady \<noteq> NodeNetworkUnavailable" by (simp add: NodeReady_def NodeNetworkUnavailable_def)
  note types = this this [symmetric]
  have "latest_of (diff_conditions b t1 t2 conds) NodeReady (FindCondition_at conds NodeReady)"
  proof (cases "FindCondition_at conds NodeNetworkUnavailable")
    case None
    then show ?thesis using ready types by (auto simp: diff_conditions_def intro: latest_of_keep)
  next
    case (Some p)
    obtain i c where p: "p = (i, c)" by force
    then have "latest_of conds NodeNetworkUnavailable (Some (i, c))"
      using FindCondition_at_latest [of conds NodeNetworkUnavailable] Some by simp
    then have "i < length conds" "c_Type (conds ! i) = NodeNetworkUnavailable" by (auto simp: latest_of_def)
    then show ?thesis using ready types Some p by (auto simp: diff_conditions_def intro: latest_of_other_type)
  qed
  then show ?thesis using ready by (rule FindCondition_latest_of)
qed

lemma diff_view: "node_view (n\<lparr>nd_Conditions := diff_conditions b t1 t2 (nd_Conditions n)\<rparr>) = node_view n"
  by (simp add: node_view_def diff_conditions_ready)

text \<open>The nodes of the API server are known by their names, and have the views \<open>S\<close>.\<close>

definition nodes_fixed :: "(Node \<times> NodeCondition \<times> bool) list \<Rightarrow> Cloud \<Rightarrow> bool" where
  "nodes_fixed S w \<longleftrightarrow> distinct (map nd_Name (cl_nodes w)) \<and> map node_view (cl_nodes w) = S"

lemma nodes_fixed_frame [simp]:
  "nodes_fixed S (w\<lparr>cl_cache := k\<rparr>) = nodes_fixed S w" "nodes_fixed S (w\<lparr>cl_events := e\<rparr>) = nodes_fixed S w"
  "nodes_fixed S (tick w) = nodes_fixed S w" "nodes_fixed S (w\<lparr>cl_clock := t\<rparr>) = nodes_fixed S w"
  "nodes_fixed S (with_created G i cidr w) = nodes_fixed S w"
  "nodes_fixed S (without_route rid w) = nodes_fixed S w"
  by (simp_all add: nodes_fixed_def tick_def with_created_def without_route_def)

lemma status_patch_fixed:
  assumes "nodes_fixed S w" "find (\<lambda>n. nd_Name n = name) (cl_nodes w) = Some n"
  shows "nodes_fixed S (w\<lparr>cl_nodes := map (\<lambda>m. if nd_Name m = nd_Name n
     then m\<lparr>nd_Conditions := diff_conditions b t1 t2 (nd_Conditions n)\<rparr> else m) (cl_nodes w)\<rparr>)"
proof -
  let ?f = "\<lambda>m. if nd_Name m = nd_Name n then m\<lparr>nd_Conditions := diff_conditions b t1 t2 (nd_Conditions n)\<rparr> else m"
  have n: "n \<in> set (cl_nodes w)" using assms(2) by (auto simp: find_Some_iff)
  then have "m = n" if "m \<in> set (cl_nodes w)" "nd_Name m = nd_Name n" for m
    using that assms(1) by (auto simp: nodes_fixed_def distinct_map inj_on_def)
  then have "node_view (?f m) = node_view m" if "m \<in> set (cl_nodes w)" for m
    using that diff_view [of b t1 t2 n] by (cases "nd_Name m = nd_Name n") (simp, metis, simp)
  then have v: "map node_view (map ?f (cl_nodes w)) = map node_view (cl_nodes w)" by simp
  then have "map nd_Name (map ?f (cl_nodes w)) = map nd_Name (cl_nodes w)" by simp
  moreover have "cl_nodes (w\<lparr>cl_nodes := ns\<rparr>) = ns" for ns by simp
  ultimately show ?thesis using v assms(1) by (simp only: nodes_fixed_def)
qed

lemma fixed_PatchM: "keeps (\<lambda>s. nodes_fixed S (fst s)) (PatchM ref_env (network_diff ref_env b) PatchStatus)"
  unfolding keeps_def
proof (intro allI impI)
  fix s :: "Cloud \<times> Node"
  assume w: "nodes_fixed S (fst s)"
  let ?found = "find (\<lambda>n. nd_Name n = nd_Name (snd s)) (cl_nodes (fst s))"
  have ne: "PatchStatus \<noteq> PatchSpec" "PatchStatus \<noteq> PatchAll"
    by (simp_all add: PatchStatus_def PatchSpec_def PatchAll_def)
  show "nodes_fixed S (fst (snd (PatchM ref_env (network_diff ref_env b) PatchStatus s)))"
  proof (cases ?found)
    case None
    then show ?thesis using w by (simp add: PatchM_def on_res_def lift_w_def)
  next
    case (Some n)
    let ?w = "tick (tick (fst s))"
    have "nodes_fixed S ?w" "find (\<lambda>n. nd_Name n = nd_Name (snd s)) (cl_nodes ?w) = Some n"
      using w Some by (simp_all add: tick_def)
    note status_patch_fixed [OF this, of b "cl_clock (fst s)" "cl_clock (fst s) + 1"]
    then show ?thesis
      using w Some ne by (simp add: PatchM_def on_res_def lift_w_def network_diff_def pure_res_def tick_def Let_def
        cong: if_cong)
  qed
qed

lemma fixed_update_condition: "keeps (nodes_fixed S) (update_condition ref_env node b)"
proof -
  have "keeps (\<lambda>s. nodes_fixed S (fst s)) (patch_loop ref_env b n r)" for n r
    by (rule keeps_patch_loop [OF fixed_PatchM])
  then have "keeps (\<lambda>s. nodes_fixed S (fst s)) (updateNetworkingCondition ref_env b)"
    by (auto simp: keeps_def updateNetworkingCondition_def)
  then show ?thesis unfolding update_condition_def by (rule keeps_on_client)
qed

text \<open>The contract of the cloud holds as well when the nodes are part of what is kept.\<close>

definition ref_fixed :: "Globals \<Rightarrow> (Node \<times> NodeCondition \<times> bool) list \<Rightarrow> Cloud \<Rightarrow> bool" where
  "ref_fixed G S w \<longleftrightarrow> ref_ok G w \<and> nodes_fixed S w"

lemma fixed_at: "ref_at G (cl_nodes w) (cl_cache w) w' \<Longrightarrow> ref_fixed G S w \<Longrightarrow> ref_fixed G S w'"
  by (auto simp: ref_at_def ref_fixed_def nodes_fixed_def)

interpretation fixed: calm_world ref_env G "ref_fixed G S" ref_table
  for G and S
proof (unfold_locales, goal_cases)
  case (1 w cidr r)
  then show ?case by (auto simp: ref_fixed_def intro: ref.tbl_cidr)
next
  case (2 w cidr)
  then show ?case using api_laws(1) fixed_at unfolding ref_fixed_def by blast
next
  case (3 w)
  then show ?case using api_laws(2) fixed_at unfolding ref_fixed_def by blast
next
  case (4 w cidr i)
  then show ?case using api_laws(3) fixed_at unfolding ref_fixed_def by blast
next
  case (5 w cidr r i)
  then show ?case using api_laws(4) fixed_at unfolding ref_fixed_def by blast
next
  case (6 w cidr)
  then show ?case using api_laws(5) fixed_at unfolding ref_fixed_def by blast
next
  case (12 t node created)
  show ?case
    using ref.condition_keeps [of G t node created] fixed_update_condition [of S node created]
    by (simp add: keeps_def ref_fixed_def)
qed (simp_all add: ref_fixed_def ref_documented keeps_def calm_def split: option.split)

section \<open>Passes\<close>

text \<open>A node that the controller can serve: its CIDR is IPv4, not the default route, and no other node takes part of it.\<close>

definition servable :: "IPNet \<Rightarrow> string \<Rightarrow> Node \<Rightarrow> Node list \<Rightarrow> bool" where
  "servable n cidr node nodes \<longleftrightarrow>
     node \<in> set nodes \<and> needSyncRoute node \<and> getIPv4RouteForNode node = Ok (Some n, cidr) \<and>
     length (ipn_Mask n) = 4 \<and> cidr \<noteq> ''0.0.0.0/0'' \<and> getNodeInstanceId node \<noteq> '''' \<and>
     list_all (\<lambda>m. nd_Name m = nd_Name node \<or> HasExcludeLabel m \<or> apart n m) nodes"

lemma servable_views:
  assumes "servable n cidr node ns" "map node_view ms = map node_view ns"
  shows "\<exists>node'. servable n cidr node' ms \<and> getNodeInstanceId node' = getNodeInstanceId node"
proof -
  have "node_view node \<in> set (map node_view ms)" using assms by (simp add: servable_def)
  then obtain node' where node': "node' \<in> set ms" "node_view node' = node_view node" by auto
  have "nd_Name m = nd_Name node' \<or> HasExcludeLabel m \<or> apart n m" if "m \<in> set ms" for m
  proof -
    have "node_view m \<in> set (map node_view ns)" using that by (simp flip: assms(2))
    then obtain m' where "m' \<in> set ns" "node_view m' = node_view m" by auto
    then show ?thesis
      using assms(1) node_view_same [of m' m] node_view_same [OF node'(2)]
      by (auto simp: servable_def list_all_iff)
  qed
  then show ?thesis
    using node' assms(1) node_view_same [OF node'(2)]
    by (intro exI [of _ node']) (simp add: servable_def list_all_iff)
qed

definition pass :: "Globals \<Rightarrow> Cloud \<Rightarrow> Cloud" where
  "pass G w = snd (reconcileForCluster ref_env G w)"

definition managed :: "Cloud \<Rightarrow> Node list" where
  "managed w = filter (\<lambda>node. \<not> HasExcludeLabel node) (cl_nodes w)"

lemma pass_syncs:
  assumes "ref_fixed G S w"
  shows "pass G w = snd (syncRoutes ref_env G (managed w) w)" "ref_fixed G S (pass G w)"
proof -
  obtain w' where "syncRoutes ref_env G (managed w) w = (Ok (), w')" "ref_fixed G S w'"
    by (rule fixed.sync_routes_ok [OF assms, of "managed w"])
  then show "pass G w = snd (syncRoutes ref_env G (managed w) w)" "ref_fixed G S (pass G w)"
    by (simp_all add: pass_def reconcileForCluster_def NodeList_def on_res_def managed_def)
qed

lemma servable_managed:
  assumes "servable n cidr node (cl_nodes w)" "distinct (map nd_Name (cl_nodes w))"
  shows "node \<in> set (managed w)" "list_all (\<lambda>m. m = node \<or> apart n m) (managed w)" "cidr \<noteq> ''''"
proof -
  show "node \<in> set (managed w)" using assms(1) by (auto simp: servable_def managed_def needSyncRoute_def)
  show "list_all (\<lambda>m. m = node \<or> apart n m) (managed w)"
    using assms by (auto simp: servable_def managed_def list_all_iff distinct_map inj_on_def)
  show "cidr \<noteq> ''''" using assms(1) own_string(3) by (auto simp: servable_def)
qed

text \<open>One pass: no wrong route is left, a right one stays, a missing one is created.\<close>

lemma pass_node:
  assumes "ref_fixed G S w" "servable n cidr node (cl_nodes w)"
  shows "ref_table (pass G w) cidr = Some r \<Longrightarrow> rt_InstanceId r = getNodeInstanceId node"
    and "ref_table w cidr = Some r \<Longrightarrow> rt_InstanceId r = getNodeInstanceId node \<Longrightarrow> ref_table (pass G w) cidr = Some r"
    and "ref_table w cidr = None \<Longrightarrow> ref_table (pass G w) cidr \<noteq> None"
proof -
  have s: "needSyncRoute node" "getIPv4RouteForNode node = Ok (Some n, cidr)" "length (ipn_Mask n) = 4"
    "cidr \<noteq> ''0.0.0.0/0''" "getNodeInstanceId node \<noteq> ''''" using assms(2) by (simp_all add: servable_def)
  have "distinct (map nd_Name (cl_nodes w))" using assms(1) by (simp add: ref_fixed_def nodes_fixed_def)
  note m = servable_managed [OF assms(2) this]
  note p = pass_syncs(1) [OF assms(1)]
  show "ref_table (pass G w) cidr = Some r \<Longrightarrow> rt_InstanceId r = getNodeInstanceId node"
    unfolding p by (rule fixed.sync_routes_settles [OF assms(1) s(2-4) m(1,2)])
  show "ref_table (pass G w) cidr = Some r" if r: "ref_table w cidr = Some r" "rt_InstanceId r = getNodeInstanceId node"
    unfolding p
    by (rule fixed.sync_routes_keeps [OF assms(1) r(1)
          own_route_safe [OF s(2,3) fixed.tbl_cidr [OF assms(1) r(1)] r(2) m(2)]])
  show "ref_table w cidr = None \<Longrightarrow> ref_table (pass G w) cidr \<noteq> None"
    unfolding p by (rule fixed.sync_routes_ensures [OF assms(1) m(1) s(1,2) m(3) s(5)])
qed

lemma passes_fixed: "ref_fixed G S w \<Longrightarrow> ref_fixed G S ((pass G ^^ k) w)"
  by (induction k) (simp_all add: pass_syncs(2))

lemma passes_servable:
  assumes "ref_fixed G S w" "servable n cidr node (cl_nodes w)"
  shows "\<exists>node'. servable n cidr node' (cl_nodes ((pass G ^^ k) w)) \<and> getNodeInstanceId node' = getNodeInstanceId node"
  using passes_fixed [OF assms(1), of k] assms(1)
  by (intro servable_views [OF assms(2)]) (simp add: ref_fixed_def nodes_fixed_def)

section \<open>Property\<close>



end
