(* ===== verification/Thread_Steps.thy ===== *)
theory Thread_Steps
  imports Convergence
begin

text \<open>
  The two threads of the controller in steps: the worker that handles one request after the other (\<open>Reconcile\<close>), and
  the goroutine of \<open>periodicalSync\<close>, whose passes are interrupted between any two nodes or routes. Meanwhile users
  change nodes and other routes. The locale \<open>system_invariant\<close> is what an invariant of the whole has to satisfy.
\<close>

section \<open>A pass in steps\<close>

datatype pass_state =
    Waiting
  | Listing "Node list"
  | Deleting "Node list" "Route list" "Route list"
  | Adding "Route list" "Node list"

inductive pass_step :: "'w env \<Rightarrow> Globals \<Rightarrow> pass_state \<times> 'w \<Rightarrow> pass_state \<times> 'w \<Rightarrow> bool" for E G where
  list_nodes: "NodeList E w = (Ok nodes, w') \<Longrightarrow> pass_step E G (Waiting, w) (Listing nodes, w')"
| no_nodes: "NodeList E w = (Err e, w') \<Longrightarrow> pass_step E G (Waiting, w) (Waiting, w')"
| list_routes: "ListRoutes E G w = (Ok rs, w') \<Longrightarrow> pass_step E G (Listing nodes, w) (Deleting nodes rs rs, w')"
| no_routes: "ListRoutes E G w = (Err e, w') \<Longrightarrow> pass_step E G (Listing nodes, w) (Waiting, w')"
| delete: "delete_conflicts E G nodes [r] w = (Ok (), w') \<Longrightarrow>
    pass_step E G (Deleting nodes rs (r # rest), w) (Deleting nodes rs rest, w')"
| deleted: "pass_step E G (Deleting nodes rs [], w) (Adding rs nodes, w)"
| add: "add_routes E G rs [node] w = (Ok (), w') \<Longrightarrow>
    pass_step E G (Adding rs (node # nodes), w) (Adding rs nodes, w')"
| added: "pass_step E G (Adding rs [], w) (Waiting, w)"

text \<open>The loops are the iteration of their rounds.\<close>

lemma delete_conflicts_Cons:
  "delete_conflicts E G nodes (r # rs) w
     = on_res (delete_conflicts E G nodes [r]) (\<lambda>_. delete_conflicts E G nodes rs) (\<lambda>e w. (Err e, w)) w"
  by (auto simp: on_res_def split: prod.splits res.splits)

lemma add_routes_Cons:
  "add_routes E G rs (node # nodes) w
     = on_res (add_routes E G rs [node]) (\<lambda>_. add_routes E G rs nodes) (\<lambda>e w. (Err e, w)) w"
proof (cases "needSyncRoute node")
  case True
  show ?thesis
  proof (cases "getIPv4RouteForNode node")
    case (Ok p)
    obtain n cidr where p: "p = (n, cidr)" by force
    obtain r w1 where a: "addRouteForNode E G cidr node rs w = (r, w1)" by force
    obtain q w2 where u: "update_condition E node True w1 = (q, w2)" by force
    show ?thesis using True Ok p a u by (cases r; cases q) (simp_all add: on_res_def)
  qed (use True in \<open>simp_all add: on_res_def\<close>)
qed (simp add: on_res_def)

lemma on_res_unit_Ok:
  fixes m :: "('w, unit) eff"
  shows "on_res m (\<lambda>_. k) (\<lambda>e w. (Err e, w)) w = (Ok x, w') \<Longrightarrow> \<exists>w1. m w = (Ok (), w1) \<and> k w1 = (Ok x, w')"
  by (auto simp: on_res_def split: prod.splits res.splits)

lemma delete_steps:
  "delete_conflicts E G nodes rest w = (Ok (), w') \<Longrightarrow>
     (pass_step E G)\<^sup>*\<^sup>* (Deleting nodes rs rest, w) (Deleting nodes rs [], w')"
proof (induction rest arbitrary: w)
  case (Cons r rest)
  obtain w1 where "delete_conflicts E G nodes [r] w = (Ok (), w1)" "delete_conflicts E G nodes rest w1 = (Ok (), w')"
    using on_res_unit_Ok [OF Cons.prems [unfolded delete_conflicts_Cons [of E G nodes r rest]]] by blast
  then show ?case using Cons.IH by (meson converse_rtranclp_into_rtranclp pass_step.delete)
qed simp

lemma add_steps:
  "add_routes E G rs nodes w = (Ok (), w') \<Longrightarrow> (pass_step E G)\<^sup>*\<^sup>* (Adding rs nodes, w) (Adding rs [], w')"
proof (induction nodes arbitrary: w)
  case (Cons m nodes)
  obtain w1 where "add_routes E G rs [m] w = (Ok (), w1)" "add_routes E G rs nodes w1 = (Ok (), w')"
    using on_res_unit_Ok [OF Cons.prems [unfolded add_routes_Cons [of E G rs m nodes]]] by blast
  then show ?case using Cons.IH by (meson converse_rtranclp_into_rtranclp pass_step.add)
qed simp

section \<open>A request in steps\<close>

text \<open>
  The worker reads the node, or finds that it is gone and reads the cache; then it acts on what it has read. There is
  one worker, since \<open>MaxConcurrentReconciles\<close> is 1.
\<close>

datatype request_state =
    Idle
  | Syncing Node
  | Vanished string Route
  | Forgetting string

inductive request_step :: "'w env \<Rightarrow> Globals \<Rightarrow> request_state \<times> 'w \<Rightarrow> request_state \<times> 'w \<Rightarrow> bool" for E G where
  read_node: "k_get E name w = (Ok node, w') \<Longrightarrow> request_step E G (Idle, w) (Syncing node, w')"
| no_node: "k_get E name w = (Err e, w') \<Longrightarrow> \<not> is_not_found E e \<Longrightarrow> request_step E G (Idle, w) (Idle, w')"
| node_gone: "k_get E name w = (Err e, w') \<Longrightarrow> is_not_found E e \<Longrightarrow> cache_get E name w' = Some r \<Longrightarrow>
    request_step E G (Idle, w) (Vanished name r, w')"
| not_cached: "k_get E name w = (Err e, w') \<Longrightarrow> is_not_found E e \<Longrightarrow> cache_get E name w' = None \<Longrightarrow>
    request_step E G (Idle, w) (Idle, w')"
| synced: "syncCloudRoute E G node w = (Ok (), w') \<Longrightarrow> request_step E G (Syncing node, w) (Idle, w')"
| not_synced: "syncCloudRoute E G node w = (Err e, w') \<Longrightarrow>
    request_step E G (Syncing node, w)
      (Idle, record_event E (node_event node (nd_Name node) EventTypeWarning FailedSyncRoute ''sync cloud route failed'') w')"
| route_deleted: "deleteRouteForInstance E G (rt_DestinationCIDR r) w = (Ok (), w') \<Longrightarrow>
    request_step E G (Vanished name r, w) (Forgetting name, w')"
| not_deleted: "deleteRouteForInstance E G (rt_DestinationCIDR r) w = (Err e, w') \<Longrightarrow>
    request_step E G (Vanished name r, w) (Idle, w')"
| forget: "request_step E G (Forgetting name, w) (Idle, cache_remove E name w)"

text \<open>\<open>Reconcile\<close> is a run of these steps.\<close>

lemma vanished_in_steps:
  assumes "aggregate_documented E"
    and "(case deleteRouteForInstance E G (rt_DestinationCIDR r) w of
            (Panic p, w1) \<Rightarrow> (Panic p, w1)
          | (x, w1) \<Rightarrow>
              (let errList = (case x of Err e \<Rightarrow> [e] | _ \<Rightarrow> []) in
               case new_aggregate E errList of
                 None \<Rightarrow> (Ok (), cache_remove E name w1)
               | Some aggrErr \<Rightarrow> (Err aggrErr, w1))) = (res, w')"
    and "\<not> is_panic res"
  shows "(request_step E G)\<^sup>*\<^sup>* (Vanished name r, w) (Idle, w')"
proof -
  have agg: "new_aggregate E [] = None" "new_aggregate E [x] \<noteq> None" for x
    using assms(1) by (auto simp: aggregate_documented_def)
  obtain d w1 where d: "deleteRouteForInstance E G (rt_DestinationCIDR r) w = (d, w1)" by force
  show ?thesis
  proof (cases d)
    case (Ok u)
    then have "w' = cache_remove E name w1" using assms(2) d agg(1) by auto
    then show ?thesis
      using request_step.route_deleted [of E G r w w1 name] request_step.forget [of E G name w1] d Ok
      by (metis (full_types) old.unit.exhaust r_into_rtranclp rtranclp.rtrancl_into_rtrancl)
  next
    case (Err x)
    then have "w' = w1" using assms(2) d agg(2) [of x] by auto
    then show ?thesis using request_step.not_deleted [of E G r w x w1 name] d Err by blast
  next
    case (Panic q)
    then show ?thesis using assms(2,3) d by auto
  qed
qed

lemma request_runs_in_steps:
  assumes "aggregate_documented E" "Reconcile E G True name w = (res, w')" "\<not> is_panic res"
  shows "(request_step E G)\<^sup>*\<^sup>* (Idle, w) (Idle, w')"
proof -
  obtain g w1 where g: "k_get E name w = (g, w1)" by force
  show ?thesis
  proof (cases g)
    case (Ok node)
    then have first: "request_step E G (Idle, w) (Syncing node, w1)" using g by (simp add: request_step.read_node)
    obtain s w2 where s: "syncCloudRoute E G node w1 = (s, w2)" by force
    then have "request_step E G (Syncing node, w1) (Idle, w')"
      using assms(2,3) g Ok
      by (cases s) (auto simp: Reconcile_def on_res_def intro: request_step.synced request_step.not_synced)
    with first show ?thesis by (meson r_into_rtranclp rtranclp.rtrancl_into_rtrancl)
  next
    case (Err e)
    show ?thesis
    proof (cases "is_not_found E e")
      case gone: True
      show ?thesis
      proof (cases "cache_get E name w1")
        case None
        then show ?thesis using assms(2) g Err gone request_step.not_cached [of E name w e w1 G]
          by (auto simp: Reconcile_def on_res_def)
      next
        case (Some r)
        then have first: "request_step E G (Idle, w) (Vanished name r, w1)"
          using g Err gone by (simp add: request_step.node_gone)
        have "(request_step E G)\<^sup>*\<^sup>* (Vanished name r, w1) (Idle, w')"
          by (rule vanished_in_steps [OF assms(1) _ assms(3)])
             (use assms(2) g Err gone Some in \<open>simp add: Reconcile_def on_res_def\<close>)
        with first show ?thesis by (rule converse_rtranclp_into_rtranclp)
      qed
    next
      case False
      then show ?thesis using assms(2) g Err request_step.no_node [of E name w e w1 G]
        by (auto simp: Reconcile_def on_res_def)
    qed
  next
    case (Panic q)
    then show ?thesis using assms(2,3) g by (auto simp: Reconcile_def on_res_def)
  qed
qed

section \<open>The threads and the users\<close>

text \<open>\<open>allowed w w'\<close> are the changes the users make.\<close>

inductive system_step ::
  "'w env \<Rightarrow> Globals \<Rightarrow> ('w \<Rightarrow> 'w \<Rightarrow> bool) \<Rightarrow> pass_state \<times> request_state \<times> 'w \<Rightarrow>
     pass_state \<times> request_state \<times> 'w \<Rightarrow> bool" for E G allowed where
  periodic: "pass_step E G (p, w) (p', w') \<Longrightarrow> system_step E G allowed (p, q, w) (p', q, w')"
| request: "request_step E G (q, w) (q', w') \<Longrightarrow> system_step E G allowed (p, q, w) (p, q', w')"
| user: "allowed w w' \<Longrightarrow> system_step E G allowed (p, q, w) (p, q, w')"

lemma passes_in_system:
  "(pass_step E G)\<^sup>*\<^sup>* (p, w) (p', w') \<Longrightarrow> (system_step E G allowed)\<^sup>*\<^sup>* (p, q, w) (p', q, w')"
  by (induction rule: rtranclp_induct2) (auto intro: rtranclp.rtrancl_into_rtrancl system_step.periodic)

lemma requests_in_system:
  "(request_step E G)\<^sup>*\<^sup>* (q, w) (q', w') \<Longrightarrow> (system_step E G allowed)\<^sup>*\<^sup>* (p, q, w) (p, q', w')"
  by (induction rule: rtranclp_induct2) (auto intro: rtranclp.rtrancl_into_rtrancl system_step.request)

lemma system_mono:
  assumes "(system_step E G allowed)\<^sup>*\<^sup>* s s'" "\<And>w w'. allowed w w' \<Longrightarrow> allowed' w w'"
  shows "(system_step E G allowed')\<^sup>*\<^sup>* s s'"
  using assms(1)
proof (rule rtranclp_mono [THEN predicate2D, rotated])
  show "system_step E G allowed \<le> system_step E G allowed'"
  proof (rule predicate2I)
    fix s s'
    assume "system_step E G allowed s s'"
    then show "system_step E G allowed' s s'"
      by (cases rule: system_step.cases) (use assms(2) in \<open>auto intro: system_step.intros\<close>)
  qed
qed

section \<open>A pass alone\<close>

lemma delete_conflicts_never_fails: "fst (delete_conflicts E G nodes rs w) \<noteq> Err e"
  by (induction rs arbitrary: w) (auto simp: on_res_def split: prod.splits res.splits)

lemma add_routes_never_fails: "fst (add_routes E G rs nodes w) \<noteq> Err e"
proof (induction nodes arbitrary: w)
  case (Cons m nodes)
  have one: "fst (add_routes E G rs [m] w) \<noteq> Err e" for w
    by (auto simp: on_res_def split: prod.splits res.splits)
  show ?case
    unfolding add_routes_Cons [of E G rs m nodes]
    using one [of w] Cons.IH by (auto simp: on_res_def split: prod.splits res.splits)
qed simp

lemma sync_to_end:
  assumes "ListRoutes E G w = (Ok rs, w1)" "syncRoutes E G nodes w = (res, w')" "\<not> is_panic res"
  shows "(pass_step E G)\<^sup>*\<^sup>* (Listing nodes, w) (Adding rs [], w')"
proof -
  obtain d w2 where d: "delete_conflicts E G nodes rs w1 = (d, w2)" by force
  obtain a w3 where a: "add_routes E G rs nodes w2 = (a, w3)" by force
  have d_ok: "d = Ok ()"
    using delete_conflicts_never_fails [of E G nodes rs w1] assms d
    by (cases d) (auto simp: syncRoutes_def on_res_def)
  then have a_ok: "a = Ok ()" "w' = w3"
    using add_routes_never_fails [of E G rs nodes w2] assms d a
    by (cases a; auto simp: syncRoutes_def on_res_def)+
  have "pass_step E G (Listing nodes, w) (Deleting nodes rs rs, w1)"
    using assms(1) by (rule pass_step.list_routes)
  also have "(pass_step E G)\<^sup>*\<^sup>* (Deleting nodes rs rs, w1) (Deleting nodes rs [], w2)"
    using delete_steps [of E G nodes rs w1 w2 rs] d d_ok by simp
  also have "pass_step E G (Deleting nodes rs [], w2) (Adding rs nodes, w2)" by (rule pass_step.deleted)
  also have "(pass_step E G)\<^sup>*\<^sup>* (Adding rs nodes, w2) (Adding rs [], w')"
    using add_steps [of E G rs nodes w2 w'] a a_ok by simp
  finally show ?thesis .
qed

lemma sync_in_steps:
  assumes "syncRoutes E G nodes w = (res, w')" "\<not> is_panic res"
  shows "(pass_step E G)\<^sup>*\<^sup>* (Listing nodes, w) (Waiting, w')"
proof -
  obtain l w1 where l: "ListRoutes E G w = (l, w1)" by force
  show ?thesis
  proof (cases l)
    case (Ok rs)
    then have "(pass_step E G)\<^sup>*\<^sup>* (Listing nodes, w) (Adding rs [], w')"
      using l by (intro sync_to_end [OF _ assms]) simp
    then show ?thesis using pass_step.added by (rule rtranclp.rtrancl_into_rtrancl)
  next
    case (Err e)
    then have "pass_step E G (Listing nodes, w) (Waiting, w')"
      using l assms(1) by (simp add: syncRoutes_def on_res_def pass_step.no_routes)
    then show ?thesis by blast
  next
    case (Panic q)
    then show ?thesis using assms l by (auto simp: syncRoutes_def on_res_def)
  qed
qed

lemma pass_in_steps:
  assumes "reconcileForCluster E G w = (Ok (), w')"
  shows "(pass_step E G)\<^sup>*\<^sup>* (Waiting, w) (Waiting, w')"
proof -
  obtain res w1 where l: "NodeList E w = (res, w1)" by force
  show ?thesis
  proof (cases res)
    case (Ok nodes)
    obtain s w2 where s: "syncRoutes E G nodes w1 = (s, w2)" by force
    then have "\<not> is_panic s" "w2 = w'"
      using assms l Ok by (cases s; simp add: reconcileForCluster_def on_res_def)+
    then have "(pass_step E G)\<^sup>*\<^sup>* (Listing nodes, w1) (Waiting, w')" using sync_in_steps [OF s] by simp
    moreover have "pass_step E G (Waiting, w) (Listing nodes, w1)" using l Ok by (simp add: pass_step.list_nodes)
    ultimately show ?thesis by (rule converse_rtranclp_into_rtranclp [rotated])
  next
    case (Err e)
    then have "pass_step E G (Waiting, w) (Waiting, w')"
      using assms l by (simp add: reconcileForCluster_def on_res_def pass_step.no_nodes)
    then show ?thesis by blast
  next
    case (Panic q)
    then show ?thesis using assms l by (simp add: reconcileForCluster_def on_res_def)
  qed
qed

section \<open>Invariants of the system\<close>

locale system_invariant =
  fixes E :: "'w env" and G :: Globals and allowed :: "'w \<Rightarrow> 'w \<Rightarrow> bool"
    and I :: "pass_state \<Rightarrow> request_state \<Rightarrow> 'w \<Rightarrow> bool"
  assumes pass_keeps: "I p q w \<Longrightarrow> pass_step E G (p, w) (p', w') \<Longrightarrow> I p' q w'"
    and request_keeps: "I p q w \<Longrightarrow> request_step E G (q, w) (q', w') \<Longrightarrow> I p q' w'"
    and user_keeps: "I p q w \<Longrightarrow> allowed w w' \<Longrightarrow> I p q w'"
begin

lemma step_keeps: "system_step E G allowed (p, q, w) (p', q', w') \<Longrightarrow> I p q w \<Longrightarrow> I p' q' w'"
  by (erule system_step.cases) (use pass_keeps request_keeps user_keeps in blast)+

lemma reachable:
  assumes "(system_step E G allowed)\<^sup>*\<^sup>* (p, q, w) (p', q', w')" "I p q w"
  shows "I p' q' w'"
  using assms(1)
proof (induction "(p', q', w')" arbitrary: p' q' w' rule: rtranclp_induct)
  case base
  then show ?case using assms(2) by simp
next
  case (step s)
  then show ?case using step_keeps by (cases s) blast
qed

end

section \<open>Property\<close>


section \<open>Witnesses\<close>

lemma pass_steps:
  assumes "ref_ok G w"
  shows "(pass_step ref_env G)\<^sup>*\<^sup>* (Waiting, w) (Waiting, pass G w)"
proof (rule pass_in_steps)
  obtain w' where "syncRoutes ref_env G (managed w) w = (Ok (), w')"
    by (rule ref.sync_routes_ok [OF assms])
  then show "reconcileForCluster ref_env G w = (Ok (), pass G w)"
    by (simp add: pass_def reconcileForCluster_def NodeList_def on_res_def managed_def)
qed

lemma demo_reconcile: "Reconcile ref_env demo_globals True ''gone'' (demo_cloud rs) = (Ok (), demo_cloud rs)"
  by (simp add: Reconcile_def on_res_def demo_cloud_def ten_node_facts has_reason_def)


end
