(* ===== verification/Route_Guard.thy ===== *)
theory Route_Guard
  imports Thread_Steps
begin

text \<open>
  What keeps the route of a CIDR, stated once for every reason a route can have to stay: the nodes are such that no
  pass deletes it and no request removes it. The locale \<open>route_guard\<close> is the contract of such a reason; it is
  interpreted for the network of a node (theory Interleaving) and for a route that no node takes part in (theory
  Orphans).
\<close>

section \<open>States\<close>

text \<open>
  Every node is \<open>safe\<close> for the CIDR; only the \<open>holders\<close>, names of present nodes, may have the CIDR cached.
\<close>

definition only_cached_by :: "string set \<Rightarrow> string \<Rightarrow> Cloud \<Rightarrow> bool" where
  "only_cached_by holders cidr w \<longleftrightarrow>
     (\<forall>k r. map_of (cl_cache w) k = Some r \<longrightarrow> rt_DestinationCIDR r = cidr \<longrightarrow> k \<in> holders)"

definition guarded :: "Globals \<Rightarrow> string \<Rightarrow> string set \<Rightarrow> (Node \<Rightarrow> bool) \<Rightarrow> Cloud \<Rightarrow> bool" where
  "guarded G cidr holders safe w \<longleftrightarrow> ref_ok G w \<and> distinct (map nd_Name (cl_nodes w)) \<and>
     holders \<subseteq> nd_Name ` set (cl_nodes w) \<and> list_all safe (cl_nodes w) \<and> only_cached_by holders cidr w"

text \<open>What a pass and a request hold does no harm to the route \<open>r\<close>.\<close>

fun pass_safe :: "string \<Rightarrow> (Node \<Rightarrow> bool) \<Rightarrow> Route \<Rightarrow> pass_state \<Rightarrow> bool" where
  "pass_safe cidr safe r Waiting = True"
| "pass_safe cidr safe r (Listing nodes) = list_all safe nodes"
| "pass_safe cidr safe r (Deleting nodes rs rest) =
     (list_all safe nodes \<and> (\<forall>x \<in> set rest. rt_DestinationCIDR x = cidr \<longrightarrow> x = r))"
| "pass_safe cidr safe r (Adding rs nodes) = list_all safe nodes"

fun request_safe :: "string \<Rightarrow> (Node \<Rightarrow> bool) \<Rightarrow> request_state \<Rightarrow> bool" where
  "request_safe cidr safe Idle = True"
| "request_safe cidr safe (Syncing node) = safe node"
| "request_safe cidr safe (Vanished k r) = (rt_DestinationCIDR r \<noteq> cidr)"
| "request_safe cidr safe (Forgetting k) = True"

definition protected ::
  "Globals \<Rightarrow> string \<Rightarrow> string set \<Rightarrow> (Node \<Rightarrow> bool) \<Rightarrow> Route \<Rightarrow> pass_state \<Rightarrow> request_state \<Rightarrow> Cloud \<Rightarrow> bool" where
  "protected G cidr holders safe r p q w \<longleftrightarrow> guarded G cidr holders safe w \<and> ref_table w cidr = Some r \<and>
     pass_safe cidr safe r p \<and> request_safe cidr safe q"

text \<open>The route of the CIDR stays as it is, or a missing one is created for the instance \<open>i\<close>.\<close>

definition grows :: "string \<Rightarrow> Route option \<Rightarrow> Route option \<Rightarrow> bool" where
  "grows i t t' \<longleftrightarrow> t' = t \<or> t = None \<and> (\<exists>r. t' = Some r \<and> rt_InstanceId r = i)"

text \<open>The nodes stay the same but for conditions other than \<open>Ready\<close>.\<close>

definition same_views :: "Cloud \<Rightarrow> Cloud \<Rightarrow> bool" where
  "same_views w w' \<longleftrightarrow> map node_view (cl_nodes w') = map node_view (cl_nodes w)"

lemma same_views_refl [simp]: "same_views w w" "same_views w (w'\<lparr>cl_events := e\<rparr>) = same_views w w'"
  "same_views w (w'\<lparr>cl_cache := c\<rparr>) = same_views w w'"
  by (simp_all add: same_views_def)

lemma grows_refl [simp]: "grows i t t"
  by (simp add: grows_def)

lemma grows_Some [simp]: "grows i (Some r) t \<longleftrightarrow> t = Some r"
  by (auto simp: grows_def)

lemma guarded_frame [simp]:
  "guarded G cidr holders safe (w\<lparr>cl_events := e\<rparr>) = guarded G cidr holders safe w"
  by (simp add: guarded_def only_cached_by_def)

lemma guarded_nodes: "guarded G cidr holders safe w \<Longrightarrow> list_all safe (cl_nodes w)"
  by (simp add: guarded_def)

section \<open>What the operations leave of nodes and cache\<close>

lemma update_condition_frame:
  assumes "distinct (map nd_Name (cl_nodes w))" and w'_def: "w' = snd (update_condition ref_env node b w)"
  shows "cl_cache w' = cl_cache w" "map node_view (cl_nodes w') = map node_view (cl_nodes w)"
    "distinct (map nd_Name (cl_nodes w'))"
proof -
  have "keeps (\<lambda>w. cl_cache w = cl_cache w0) (update_condition ref_env node b)" for w0 :: Cloud
    by (intro keeps_update_condition) (simp_all add: keeps_def tick_def split: option.split)
  then show "cl_cache w' = cl_cache w" unfolding keeps_def w'_def by blast
  have "nodes_fixed (map node_view (cl_nodes w)) w" using assms(1) by (simp add: nodes_fixed_def)
  then have "nodes_fixed (map node_view (cl_nodes w)) w'"
    using fixed_update_condition unfolding keeps_def w'_def by blast
  then show "map node_view (cl_nodes w') = map node_view (cl_nodes w)" "distinct (map nd_Name (cl_nodes w'))"
    by (simp_all add: nodes_fixed_def)
qed

text \<open>Adding a route leaves the nodes alone and caches at most one route, that of the CIDR, for the node.\<close>

lemma add_cluster:
  assumes "ref_ok G w" "c \<noteq> ''''"
  shows "\<exists>res w'. addRouteForNode ref_env G c m rs w = (res, w') \<and> cl_nodes w' = cl_nodes w \<and>
    (cl_cache w' = cl_cache w \<or> (\<exists>x. rt_DestinationCIDR x = c \<and> cl_cache w' = (nd_Name m, x) # cl_cache w))"
proof (cases "getNodeInstanceId m = ''''")
  case True
  then show ?thesis by (simp add: addRouteForNode_def)
next
  case False
  have "\<exists>f. findRoute ref_env G c rs w = (Ok f, w) \<and> (\<forall>x. f = Some x \<longrightarrow> rt_DestinationCIDR x = c)"
    using assms ref_FindRoute [of G w c] ref.tbl_cidr [OF assms(1)]
    by (auto simp: findRoute_def ref_ok_def find_Some_iff)
  then obtain f where f: "findRoute ref_env G c rs w = (Ok f, w)" "\<And>x. f = Some x \<Longrightarrow> rt_DestinationCIDR x = c"
    by blast
  obtain x w1 where c: "createRouteForInstance ref_env G (getNodeInstanceId m) c w = (Ok (Some x), w1)"
    "ref_at G (cl_nodes w) (cl_cache w) w1" "ref_table w1 c = Some x"
    using api.create_ensures [OF ref_at_now [OF assms(1)]] by blast
  then have "rt_DestinationCIDR x = c" by (blast intro: api.tbl_cidr)
  then show ?thesis
    using f c(1,2) False
    by (cases f) (simp_all add: addRouteForNode_def on_res_def Let_def cache_and_return_def ref_at_def)
qed

lemma list_nodes_result: "NodeList ref_env w = (res, w') \<Longrightarrow> res = Ok (managed w) \<and> w' = w"
  by (auto simp: NodeList_def on_res_def managed_def)

lemma all_managed: "list_all P (cl_nodes w) \<Longrightarrow> list_all P (managed w)"
  by (auto simp: managed_def list_all_iff)

lemma list_routes_result:
  assumes "ref_ok G w" "ListRoutes ref_env G w = (res, w')"
  shows "res = Ok (collect_routes (cl_routes w)) \<and> w' = w"
  using assms ref_ListRoutes [of G w] by (auto simp: ref_ok_def)

lemma listed_route: "ref_ok G w \<Longrightarrow> x \<in> set (collect_routes (cl_routes w)) \<Longrightarrow> ref_table w (rt_DestinationCIDR x) = Some x"
  using ref_collect [of G w x] by (simp add: ref_ok_def)

section \<open>The contract of a guard\<close>

locale route_guard =
  fixes cidr i :: string and holders :: "string set" and safe :: "Node \<Rightarrow> bool"
  assumes safe_view: "node_view a = node_view b \<Longrightarrow> safe a = safe b"
    and safe_own: "safe m \<Longrightarrow> getIPv4RouteForNode m = Ok (k, cidr) \<Longrightarrow> nd_Name m \<in> holders \<and> getNodeInstanceId m = i"
    and no_conflict: "list_all safe nodes \<Longrightarrow> rt_DestinationCIDR r = cidr \<Longrightarrow> rt_InstanceId r = i \<Longrightarrow>
      \<not> conflictWithNodes r nodes"
begin

lemma safe_views:
  assumes "map node_view ms = map node_view ns"
  shows "list_all safe ms = list_all safe ns" "nd_Name ` set ms = nd_Name ` set ns"
proof -
  have same: "list_all2 (\<lambda>a b. node_view a = node_view b) ms ns"
    using assms by (simp add: list_all2_conv_all_nth list_eq_iff_nth_eq)
  then show "list_all safe ms = list_all safe ns"
  proof (induction rule: list_all2_induct)
    case (Cons a as b bs)
    then show ?case using safe_view [of a b] by simp
  qed simp
  from same show "nd_Name ` set ms = nd_Name ` set ns"
  proof (induction rule: list_all2_induct)
    case (Cons a as b bs)
    then show ?case using node_view_same(1) [of a b] by simp
  qed simp
qed

lemma guarded_update:
  assumes "guarded G cidr holders safe w" "update_condition ref_env node b w = (q, w')"
  shows "guarded G cidr holders safe w' \<and> ref_table w' = ref_table w \<and> same_views w w'"
proof -
  have w': "w' = snd (update_condition ref_env node b w)" using assms(2) by simp
  have w: "ref_ok G w" "distinct (map nd_Name (cl_nodes w))" using assms(1) by (simp_all add: guarded_def)
  note frame = update_condition_frame [OF w(2) w']
  have "ref_ok G w' \<and> ref_table w' = ref_table w" using ref.conditionD [OF w(1), of node b] w' by simp
  then show ?thesis
    using assms(1) frame safe_views [OF frame(2)] by (simp add: guarded_def only_cached_by_def same_views_def)
qed

lemma guarded_add:
  assumes w: "guarded G cidr holders safe w" and c: "c \<noteq> ''''" "c = cidr \<Longrightarrow> nd_Name m \<in> holders \<and> getNodeInstanceId m = i"
    and a: "addRouteForNode ref_env G c m rs w = (res, w')"
  shows "guarded G cidr holders safe w' \<and> grows i (ref_table w cidr) (ref_table w' cidr) \<and> same_views w w'"
proof -
  have ok: "ref_ok G w" using w by (simp add: guarded_def)
  have k: "cl_nodes w' = cl_nodes w"
    "cl_cache w' = cl_cache w \<or> (\<exists>x. rt_DestinationCIDR x = c \<and> cl_cache w' = (nd_Name m, x) # cl_cache w)"
    using add_cluster [OF ok c(1), of m rs] a by auto
  have t: "ref_ok G w'" "ref_table w' = ref_table w \<or> route_ensured (ref_table w) c (getNodeInstanceId m) (ref_table w')"
    using ref.add_changes [OF ok c(1), of m rs] a by auto
  have "grows i (ref_table w cidr) (ref_table w' cidr)"
    using t(2) c(2) by (cases "c = cidr") (auto simp: grows_def route_ensured_def split: option.splits)
  moreover have "only_cached_by holders cidr w'"
    using k(2) w c(2) by (auto simp: guarded_def only_cached_by_def split: if_splits)
  ultimately show ?thesis using w k(1) t(1) by (simp add: guarded_def same_views_def)
qed

lemma guarded_sync:
  assumes w: "guarded G cidr holders safe w" and m: "safe m"
    and s: "syncCloudRoute ref_env G m w = (res, w')"
  shows "guarded G cidr holders safe w' \<and> grows i (ref_table w cidr) (ref_table w' cidr) \<and> same_views w w'"
proof -
  obtain q1 u1 where u1: "update_condition ref_env m False w = (q1, u1)" by force
  note upd = guarded_update [OF w u1]
  show ?thesis
  proof (cases "getIPv4RouteForNode m")
    case (Ok p)
    obtain k c where p: "p = (k, c)" by force
    show ?thesis
    proof (cases "c = ''''")
      case True
      then show ?thesis using Ok p w s upd u1
        by (cases "needSyncRoute m"; cases q1) (auto simp: syncCloudRoute_def on_res_def)
    next
      case False
      have "c = cidr \<Longrightarrow> nd_Name m \<in> holders \<and> getNodeInstanceId m = i"
        using safe_own [OF m] Ok p by blast
      note a = guarded_add [OF w False this]
      obtain res1 w1 where r: "addRouteForNode ref_env G c m [] w = (res1, w1)" by force
      then have w1: "guarded G cidr holders safe w1" "grows i (ref_table w cidr) (ref_table w1 cidr)" "same_views w w1" using a by simp_all
      have v: "same_views w u" if "same_views w1 u" for u using w1(3) that by (simp add: same_views_def)
      obtain q2 u2 where u2: "update_condition ref_env m False w1 = (q2, u2)" by force
      obtain q3 u3 where u3: "update_condition ref_env m True w1 = (q3, u3)" by force
      show ?thesis
        using Ok p False r w s w1 v u2 u3 guarded_update [OF w1(1) u2] guarded_update [OF w1(1) u3]
        by (cases "needSyncRoute m"; cases res1; cases q2)
           (auto simp: syncCloudRoute_def Let_def on_res_def split: option.splits)
    qed
  next
    case (Err e)
    then show ?thesis using w s upd u1
      by (cases "needSyncRoute m"; cases q1) (auto simp: syncCloudRoute_def on_res_def)
  next
    case (Panic q)
    then show ?thesis using w s by (auto simp: syncCloudRoute_def split: if_splits)
  qed
qed

lemma guarded_delete:
  assumes w: "guarded G cidr holders safe w"
  shows "\<exists>w'. deleteRouteForInstance ref_env G c w = (Ok (), w') \<and> guarded G cidr holders safe w' \<and>
    ref_table w' = (ref_table w)(c := None) \<and> same_views w w'"
proof -
  have "ref_ok G w" using w by (simp add: guarded_def)
  then obtain w' where "deleteRouteForInstance ref_env G c w = (Ok (), w')"
    "ref_at G (cl_nodes w) (cl_cache w) w'" "ref_table w' = (ref_table w)(c := None)"
    using api.delete_clears [OF ref_at_now] by blast
  then show ?thesis using w by (auto simp: guarded_def ref_at_def only_cached_by_def same_views_def)
qed

lemma guarded_request:
  assumes w: "guarded G cidr holders safe w" and "request_step ref_env G (q, w) (q', w')" "request_safe cidr safe q"
  shows "guarded G cidr holders safe w' \<and> request_safe cidr safe q' \<and> grows i (ref_table w cidr) (ref_table w' cidr) \<and> same_views w w'"
  using assms(2)
proof (cases rule: request_step.cases)
  case (read_node who node)
  then have "w' = w" "node \<in> set (cl_nodes w)" by (auto simp: find_Some_iff split: option.splits)
  then show ?thesis using w read_node guarded_nodes [OF w] by (simp add: list_all_iff)
next
  case (no_node who e)
  then show ?thesis using w by (simp split: option.splits)
next
  case (node_gone who e r)
  then have "w' = w" "who \<notin> nd_Name ` set (cl_nodes w)" by (auto simp: find_None_iff split: option.splits)
  then show ?thesis using w node_gone by (auto simp: guarded_def only_cached_by_def)
next
  case (not_cached who e)
  then show ?thesis using w by (simp split: option.splits)
next
  case (synced node)
  then show ?thesis using guarded_sync [OF w _ synced(3)] assms(3) by simp
next
  case (not_synced node e)
  then show ?thesis using guarded_sync [OF w, of node] assms(3) by auto
next
  case (route_deleted r who)
  then show ?thesis using guarded_delete [OF w, of "rt_DestinationCIDR r"] assms(3) by auto
next
  case (not_deleted r e who)
  then show ?thesis using guarded_delete [OF w, of "rt_DestinationCIDR r"] by auto
next
  case (forget who)
  then show ?thesis using w by (simp add: guarded_def only_cached_by_def map_of_filter_key)
qed

lemma guarded_add_routes:
  assumes w: "guarded G cidr holders safe w" and s: "safe m"
    and a: "add_routes ref_env G rs [m] w = (res, w')"
  shows "guarded G cidr holders safe w' \<and> grows i (ref_table w cidr) (ref_table w' cidr) \<and> same_views w w'"
proof (cases "needSyncRoute m \<and> (\<exists>k c. getIPv4RouteForNode m = Ok (k, c) \<and> c \<noteq> '''')")
  case True
  then obtain k c where m: "needSyncRoute m" "getIPv4RouteForNode m = Ok (k, c)" "c \<noteq> ''''" by blast
  have "c = cidr \<Longrightarrow> nd_Name m \<in> holders \<and> getNodeInstanceId m = i" using safe_own [OF s] m(2) by auto
  note add = guarded_add [OF w m(3) this]
  obtain res1 w1 where r: "addRouteForNode ref_env G c m rs w = (res1, w1)" by force
  then have w1: "guarded G cidr holders safe w1" "grows i (ref_table w cidr) (ref_table w1 cidr)" "same_views w w1" using add by simp_all
  obtain q w2 where u: "update_condition ref_env m True w1 = (q, w2)" by force
  have "same_views w u" if "same_views w1 u" for u using w1(3) that by (simp add: same_views_def)
  then show ?thesis using guarded_update [OF w1(1) u] m r u w1 a by (cases res1; cases q) (auto simp: on_res_def)
next
  case False
  then show ?thesis using w a by (auto split: res.splits if_splits)
qed


text \<open>The right route stays: a pass deletes only what conflicts, and the route does not.\<close>

lemma protected_pass:
  assumes "pass_step ref_env G (p, w) (p', w')" "protected G cidr holders safe r p q w" "rt_InstanceId r = i"
  shows "protected G cidr holders safe r p' q w'"
proof -
  have w: "guarded G cidr holders safe w" "ref_table w cidr = Some r" "ref_ok G w" "pass_safe cidr safe r p"
    using assms(2) by (simp_all add: protected_def guarded_def)
  have r: "rt_DestinationCIDR r = cidr" using ref.tbl_cidr [OF w(3,2)] .
  have "guarded G cidr holders safe w' \<and> ref_table w' cidr = Some r \<and> pass_safe cidr safe r p'"
    using assms(1)
  proof (cases rule: pass_step.cases)
    case (list_nodes nodes)
    then show ?thesis using list_nodes_result w all_managed [OF guarded_nodes [OF w(1)]] by fastforce
  next
    case (no_nodes e)
    then show ?thesis using list_nodes_result by blast
  next
    case (list_routes rs nodes)
    then show ?thesis using list_routes_result [OF w(3)] listed_route [OF w(3)] w by auto
  next
    case (no_routes e nodes)
    then show ?thesis using list_routes_result [OF w(3)] by blast
  next
    case (delete nodes x rs rest)
    show ?thesis
    proof (cases "conflictWithNodes x nodes")
      case True
      then have "rt_DestinationCIDR x \<noteq> cidr" using no_conflict [OF _ r assms(3), of nodes] w(4) delete by auto
      then show ?thesis
        using guarded_delete [OF w(1), of "rt_DestinationCIDR x"] True delete w by (auto simp: on_res_def)
    next
      case False
      then show ?thesis using delete w by auto
    qed
  next
    case (deleted nodes rs)
    then show ?thesis using w by simp
  next
    case (add rs node nodes)
    then show ?thesis using guarded_add_routes [OF w(1) _ add(3)] w(2,4) by simp
  next
    case (added rs)
    then show ?thesis using w by simp
  qed
  then show ?thesis using assms(2) by (simp add: protected_def)
qed

lemma protected_request:
  assumes "request_step ref_env G (q, w) (q', w')" "protected G cidr holders safe r p q w"
  shows "protected G cidr holders safe r p q' w'"
  using guarded_request [OF _ assms(1)] assms(2) by (simp add: protected_def)

lemma protected_user:
  assumes "protected G cidr holders safe r p q w"
    and "guarded G cidr holders safe w \<longrightarrow> guarded G cidr holders safe w' \<and> ref_table w' cidr = ref_table w cidr"
  shows "protected G cidr holders safe r p q w'"
  using assms by (simp add: protected_def)

end

text \<open>So the route is there in every state of the system, whatever the users do that keeps the guard.\<close>

locale guarded_route = route_guard cidr "rt_InstanceId r" holders safe
  for cidr :: string and r :: Route and holders :: "string set" and safe :: "Node \<Rightarrow> bool"

sublocale guarded_route \<subseteq> route: system_invariant ref_env G
    "\<lambda>w w'. guarded G cidr holders safe w \<longrightarrow> guarded G cidr holders safe w' \<and> ref_table w' cidr = ref_table w cidr"
    "protected G cidr holders safe r"
  for G
  by unfold_locales (use protected_pass protected_request protected_user in blast)+

end
