(* ===== verification/Interleaving.thy ===== *)
theory Interleaving
  imports Route_Guard
begin

text \<open>
  The route of a node under every interleaving of the threads and the users: the interpretation of the guard for a
  network that one node owns.
\<close>

section \<open>A network and its owner\<close>

text \<open>
  The node \<open>name\<close> with the instance \<open>i\<close> owns the network \<open>n\<close>, whose text is \<open>cidr\<close>: the other nodes are apart from it.
\<close>

definition safe_nodes :: "IPNet \<Rightarrow> string \<Rightarrow> string \<Rightarrow> string \<Rightarrow> Node list \<Rightarrow> bool" where
  "safe_nodes n cidr name i nodes \<longleftrightarrow>
     list_all (\<lambda>m. nd_Name m = name \<and> getIPv4RouteForNode m = Ok (Some n, cidr) \<and> getNodeInstanceId m = i
        \<or> nd_Name m \<noteq> name \<and> apart n m) nodes"

definition owns :: "IPNet \<Rightarrow> string \<Rightarrow> string \<Rightarrow> string \<Rightarrow> Cloud \<Rightarrow> bool" where
  "owns n cidr name i w \<longleftrightarrow> distinct (map nd_Name (cl_nodes w)) \<and> name \<in> nd_Name ` set (cl_nodes w) \<and>
     safe_nodes n cidr name i (cl_nodes w)"

definition only_own_cached :: "string \<Rightarrow> string \<Rightarrow> Cloud \<Rightarrow> bool" where
  "only_own_cached cidr name w \<longleftrightarrow>
     (\<forall>k r. map_of (cl_cache w) k = Some r \<longrightarrow> rt_DestinationCIDR r = cidr \<longrightarrow> k = name)"

text \<open>The same for one node, with what it says about the CIDR of the others.\<close>

definition own_safe :: "IPNet \<Rightarrow> string \<Rightarrow> string \<Rightarrow> string \<Rightarrow> Node \<Rightarrow> bool" where
  "own_safe n cidr name i m \<longleftrightarrow> length (ipn_Mask n) = 4 \<and> (\<exists>node. getIPv4RouteForNode node = Ok (Some n, cidr)) \<and>
     (nd_Name m = name \<and> getIPv4RouteForNode m = Ok (Some n, cidr) \<and> getNodeInstanceId m = i
        \<or> nd_Name m \<noteq> name \<and> apart n m)"

interpretation own: route_guard cidr i "{name}" "own_safe n cidr name i"
  for n cidr name i
proof (unfold_locales, goal_cases)
  case (1 a b)
  then show ?case by (simp add: own_safe_def node_view_same [OF 1])
next
  case (2 m k)
  then obtain node where "getIPv4RouteForNode node = Ok (Some n, cidr)" by (auto simp: own_safe_def)
  then have "\<not> apart n m" using apart_other_cidr 2 by (auto simp: own_safe_def)
  then show ?case using 2(1) by (simp add: own_safe_def)
next
  case (3 nodes r)
  show ?case
  proof (cases nodes)
    case (Cons m ms)
    then obtain node where node: "getIPv4RouteForNode node = Ok (Some n, cidr)" "length (ipn_Mask n) = 4"
      using 3(1) by (auto simp: own_safe_def)
    show ?thesis
      by (rule own_routes_safe [OF node 3(2)]) (use 3 in \<open>auto simp: own_safe_def list_all_iff\<close>)
  qed simp
qed

interpretation own_route: guarded_route cidr r "{name}" "own_safe n cidr name (rt_InstanceId r)"
  for n cidr name r
  by unfold_locales

lemma own_nodes:
  assumes "length (ipn_Mask n) = 4" "owns n cidr name i w"
  shows "list_all (own_safe n cidr name i) (cl_nodes w)"
proof -
  obtain node where "getIPv4RouteForNode node = Ok (Some n, cidr)"
    using assms(2) unfolding owns_def safe_nodes_def list_all_iff by blast
  then show ?thesis using assms by (auto simp: owns_def safe_nodes_def own_safe_def list_all_iff)
qed

lemma owned:
  assumes "ref_ok G w" "length (ipn_Mask n) = 4" "owns n cidr name i w" "only_own_cached cidr name w"
  shows "guarded G cidr {name} (own_safe n cidr name i) w"
  using assms own_nodes [OF assms(2,3)]
  by (auto simp: guarded_def owns_def only_own_cached_def only_cached_by_def)

section \<open>Properties\<close>

text \<open>
  What users may do: they change nodes and other routes, as long as the node keeps its name, its network and its
  instance, and no other node takes part of the network.
\<close>

definition others_change :: "IPNet \<Rightarrow> string \<Rightarrow> string \<Rightarrow> string \<Rightarrow> Globals \<Rightarrow> Cloud \<Rightarrow> Cloud \<Rightarrow> bool" where
  "others_change n cidr name i G w w' \<longleftrightarrow>
     ref_ok G w' \<and> ref_table w' cidr = ref_table w cidr \<and> owns n cidr name i w' \<and> cl_cache w' = cl_cache w"

lemma others_guarded:
  assumes "length (ipn_Mask n) = 4" "others_change n cidr name i G w w'"
    and "guarded G cidr {name} (own_safe n cidr name i) w"
  shows "guarded G cidr {name} (own_safe n cidr name i) w' \<and> ref_table w' cidr = ref_table w cidr"
  using assms own_nodes [OF assms(1), of cidr name i w']
  by (auto simp: others_change_def guarded_def owns_def only_cached_by_def)


section \<open>Witnesses\<close>

lemma demo_owns: "owns ten_net ''10.0.0.0/8'' ''n1'' ''i-1'' (demo_cloud rs)"
  by (simp add: owns_def safe_nodes_def demo_cloud_def ten_node_facts ten_node_net)


end
