(* ===== verification/Settling.thy ===== *)
theory Settling
  imports Interleaving
begin

text \<open>
  The synchronisation converges while the worker handles requests and users change other nodes and routes: after two
  passes have run to their end, however they were interrupted, the node has its route and keeps it.
\<close>

abbreviation own_guarded :: "Globals \<Rightarrow> IPNet \<Rightarrow> string \<Rightarrow> string \<Rightarrow> string \<Rightarrow> Cloud \<Rightarrow> bool" where
  "own_guarded G n cidr name i \<equiv> guarded G cidr {name} (own_safe n cidr name i)"

section \<open>Runs with their completed passes\<close>

fun completes :: "pass_state \<Rightarrow> pass_state \<Rightarrow> bool" where
  "completes (Adding rs []) Waiting = True"
| "completes p p' = False"

inductive run ::
  "'w env \<Rightarrow> Globals \<Rightarrow> ('w \<Rightarrow> 'w \<Rightarrow> bool) \<Rightarrow> pass_state \<times> request_state \<times> 'w \<Rightarrow>
     nat \<Rightarrow> pass_state \<times> request_state \<times> 'w \<Rightarrow> bool" for E G allowed s where
  start: "run E G allowed s 0 s"
| step: "run E G allowed s k (p, q, w) \<Longrightarrow> system_step E G allowed (p, q, w) (p', q', w') \<Longrightarrow>
    run E G allowed s (if completes p p' then Suc k else k) (p', q', w')"

section \<open>What a pass holds\<close>

text \<open>The node needs its route, and the nodes a pass has listed say so.\<close>

definition listed :: "string \<Rightarrow> Node list \<Rightarrow> bool" where
  "listed name nodes \<longleftrightarrow> (\<exists>m \<in> set nodes. nd_Name m = name \<and> needSyncRoute m)"

fun lists_safe :: "IPNet \<Rightarrow> string \<Rightarrow> string \<Rightarrow> string \<Rightarrow> pass_state \<Rightarrow> bool" where
  "lists_safe n cidr name i Waiting = True"
| "lists_safe n cidr name i (Listing nodes) = (list_all (own_safe n cidr name i) nodes \<and> listed name nodes)"
| "lists_safe n cidr name i (Deleting nodes rs rest) = (list_all (own_safe n cidr name i) nodes \<and> listed name nodes)"
| "lists_safe n cidr name i (Adding rs nodes) = list_all (own_safe n cidr name i) nodes"

definition free_of :: "string \<Rightarrow> Route list \<Rightarrow> bool" where
  "free_of cidr rs \<longleftrightarrow> (\<forall>x \<in> set rs. rt_DestinationCIDR x \<noteq> cidr)"

text \<open>The pass still has to delete the wrong route \<open>x\<close>.\<close>

fun deletes_later :: "Route \<Rightarrow> pass_state \<Rightarrow> bool" where
  "deletes_later x (Deleting nodes rs rest) = (x \<in> set rest \<and> distinct (map rt_DestinationCIDR rest))"
| "deletes_later x (Adding rs nodes) = False"
| "deletes_later x p = True"

text \<open>The pass deletes no route of the CIDR any more.\<close>

fun spares :: "string \<Rightarrow> pass_state \<Rightarrow> bool" where
  "spares cidr (Deleting nodes rs rest) = free_of cidr rest"
| "spares cidr p = True"

text \<open>The pass listed no route of the CIDR, so it creates the route of the node.\<close>

fun adds_later :: "string \<Rightarrow> string \<Rightarrow> pass_state \<Rightarrow> bool" where
  "adds_later cidr name (Deleting nodes rs rest) = (free_of cidr rs \<and> free_of cidr rest)"
| "adds_later cidr name (Adding rs nodes) = (free_of cidr rs \<and> listed name nodes)"
| "adds_later cidr name p = True"

section \<open>The stages\<close>

text \<open>A wrong route, no route, no route in the way of a pass, the right route.\<close>

definition common :: "Globals \<Rightarrow> IPNet \<Rightarrow> string \<Rightarrow> string \<Rightarrow> string \<Rightarrow> pass_state \<times> request_state \<times> Cloud \<Rightarrow> bool" where
  "common G n cidr name i = (\<lambda>(p, q, w).
     own_guarded G n cidr name i w \<and> listed name (cl_nodes w) \<and> lists_safe n cidr name i p \<and> request_safe cidr (own_safe n cidr name i) q)"

definition wrong_route :: "string \<Rightarrow> string \<Rightarrow> pass_state \<times> request_state \<times> Cloud \<Rightarrow> bool" where
  "wrong_route cidr i = (\<lambda>(p, q, w). \<exists>x. ref_table w cidr = Some x \<and> rt_InstanceId x \<noteq> i \<and> deletes_later x p)"

definition no_route :: "string \<Rightarrow> pass_state \<times> request_state \<times> Cloud \<Rightarrow> bool" where
  "no_route cidr = (\<lambda>(p, q, w). ref_table w cidr = None \<and> spares cidr p)"

definition pending_route :: "string \<Rightarrow> string \<Rightarrow> pass_state \<times> request_state \<times> Cloud \<Rightarrow> bool" where
  "pending_route cidr name = (\<lambda>(p, q, w). ref_table w cidr = None \<and> spares cidr p \<and> adds_later cidr name p)"

definition right_route :: "IPNet \<Rightarrow> string \<Rightarrow> string \<Rightarrow> string \<Rightarrow> pass_state \<times> request_state \<times> Cloud \<Rightarrow> bool" where
  "right_route n cidr name i = (\<lambda>(p, q, w).
     \<exists>r. ref_table w cidr = Some r \<and> rt_InstanceId r = i \<and> pass_safe cidr (own_safe n cidr name (rt_InstanceId r)) r p)"

definition stage :: "IPNet \<Rightarrow> string \<Rightarrow> string \<Rightarrow> string \<Rightarrow> nat \<Rightarrow> pass_state \<times> request_state \<times> Cloud \<Rightarrow> bool" where
  "stage n cidr name i k s \<longleftrightarrow> right_route n cidr name i s \<or>
     k = 0 \<and> (wrong_route cidr i s \<or> no_route cidr s) \<or> k = 1 \<and> pending_route cidr name s"

section \<open>What every step keeps\<close>

lemma listed_views: "same_views w w' \<Longrightarrow> listed name (cl_nodes w) \<Longrightarrow> listed name (cl_nodes w')"
proof -
  assume v: "same_views w w'" and "listed name (cl_nodes w)"
  then obtain m where m: "m \<in> set (cl_nodes w)" "nd_Name m = name" "needSyncRoute m" by (auto simp: listed_def)
  then have "node_view m \<in> set (map node_view (cl_nodes w'))" using v by (simp add: same_views_def)
  then obtain m' where "m' \<in> set (cl_nodes w')" "node_view m = node_view m'" by auto
  then show ?thesis using m node_view_same(1,3) [of m m'] by (auto simp: listed_def)
qed

lemma listed_managed: "listed name (cl_nodes w) \<Longrightarrow> listed name (managed w)"
  by (auto simp: listed_def managed_def needSyncRoute_def split: if_splits)

lemma common_pass:
  assumes "pass_step ref_env G (p, w) (p', w')" "common G n cidr name i (p, q, w)"
  shows "common G n cidr name i (p', q, w')"
proof -
  have w: "own_guarded G n cidr name i w" "listed name (cl_nodes w)" "lists_safe n cidr name i p" "ref_ok G w"
    using assms(2) by (simp_all add: common_def guarded_def)
  have "own_guarded G n cidr name i w' \<and> listed name (cl_nodes w') \<and> lists_safe n cidr name i p'"
    using assms(1)
  proof (cases rule: pass_step.cases)
    case (list_nodes nodes)
    then show ?thesis
      using list_nodes_result w all_managed [OF guarded_nodes [OF w(1)]] listed_managed [OF w(2)] by fastforce
  next
    case (no_nodes e)
    then show ?thesis using list_nodes_result by blast
  next
    case (list_routes rs nodes)
    then show ?thesis using list_routes_result [OF w(4)] w by auto
  next
    case (no_routes e nodes)
    then show ?thesis using list_routes_result [OF w(4)] by blast
  next
    case (delete nodes x rs rest)
    then show ?thesis
      using own.guarded_delete [OF w(1), of "rt_DestinationCIDR x"] w listed_views [of w w' name]
      by (cases "conflictWithNodes x nodes") (auto simp: on_res_def)
  next
    case (deleted nodes rs)
    then show ?thesis using w by simp
  next
    case (add rs node nodes)
    then have "own_safe n cidr name i node" "lists_safe n cidr name i p'" using w by simp_all
    then show ?thesis using own.guarded_add_routes [OF w(1) _ add(3)] listed_views w(2) by blast
  next
    case (added rs)
    then show ?thesis using w by simp
  qed
  then show ?thesis using assms(2) by (simp add: common_def)
qed

lemma common_request:
  assumes "request_step ref_env G (q, w) (q', w')" "common G n cidr name i (p, q, w)"
  shows "common G n cidr name i (p, q', w') \<and> grows i (ref_table w cidr) (ref_table w' cidr)"
  using own.guarded_request [OF _ assms(1), where n = n and cidr = cidr and name = name and i = i] assms(2) listed_views [of w w' name]
  by (simp add: common_def)

section \<open>From stage to stage\<close>

text \<open>A new route is safe from the pass when the pass deletes no route of the CIDR.\<close>

lemma pass_safe_fresh: "lists_safe n cidr name (rt_InstanceId r) p \<Longrightarrow> spares cidr p \<Longrightarrow> pass_safe cidr (own_safe n cidr name (rt_InstanceId r)) r p"
  by (cases p) (auto simp: free_of_def)

lemma new_route:
  assumes "grows i None (ref_table w' cidr)" "lists_safe n cidr name i p" "spares cidr p"
  shows "ref_table w' cidr = None \<or> right_route n cidr name i (p, q, w')"
  using assms pass_safe_fresh by (auto simp: grows_def right_route_def)

lemma stage_grows:
  assumes "stage n cidr name i k (p, q, w)" "grows i (ref_table w cidr) (ref_table w' cidr)" "lists_safe n cidr name i p"
  shows "stage n cidr name i k (p, q', w')"
proof -
  have "right_route n cidr name i (p, q, w) \<Longrightarrow> right_route n cidr name i (p, q', w')"
    "wrong_route cidr i (p, q, w) \<Longrightarrow> wrong_route cidr i (p, q', w')"
    using assms(2) by (auto simp: right_route_def wrong_route_def)
  moreover have "ref_table w cidr = None \<Longrightarrow> spares cidr p \<Longrightarrow> ref_table w' cidr = None \<or> right_route n cidr name i (p, q', w')"
    using new_route [OF _ assms(3), of w' q'] assms(2) by simp
  ultimately show ?thesis
    using assms(1) by (auto simp: stage_def no_route_def pending_route_def)
qed

lemma right_pass:
  assumes "pass_step ref_env G (p, w) (p', w')" "common G n cidr name i (p, q, w)" "right_route n cidr name i (p, q, w)"
  shows "right_route n cidr name i (p', q, w')"
proof -
  obtain r where r: "ref_table w cidr = Some r" "rt_InstanceId r = i" "pass_safe cidr (own_safe n cidr name (rt_InstanceId r)) r p"
    using assms(3) by (auto simp: right_route_def)
  then have "protected G cidr {name} (own_safe n cidr name (rt_InstanceId r)) r p q w"
    using assms(2) by (simp add: protected_def common_def)
  from own.protected_pass [OF assms(1) this refl] show ?thesis
    using r(2) by (auto simp: right_route_def protected_def)
qed

lemma collect_distinct:
  "distinct (map rst_DestinationCIDR rs) \<Longrightarrow> distinct (map rt_DestinationCIDR (collect_routes rs))"
proof (induction rs)
  case (Cons r rs)
  have "rt_DestinationCIDR x \<in> rst_DestinationCIDR ` set rs" if "x \<in> set (collect_routes rs)" for x
    using that by (induction rs) (auto split: if_splits)
  then show ?case using Cons by fastforce
qed simp

text \<open>What \<open>own_safe\<close> says of the node itself.\<close>

lemma own_self:
  assumes "own_safe n cidr name i m" "nd_Name m = name"
  shows "getIPv4RouteForNode m = Ok (Some n, cidr)" "length (ipn_Mask n) = 4" "getNodeInstanceId m = i"
  using assms by (auto simp: own_safe_def)

text \<open>The wrong route: the pass lists it, and deletes it when it comes to it.\<close>

lemma delete_effect:
  assumes "own_guarded G n cidr name i w" "delete_conflicts ref_env G nodes [x] w = (Ok (), w')"
  shows "ref_table w' = (if conflictWithNodes x nodes then (ref_table w)(rt_DestinationCIDR x := None) else ref_table w)"
  using assms(2) own.guarded_delete [OF assms(1), of "rt_DestinationCIDR x"] by (auto simp: on_res_def split: if_splits)

lemma wrong_conflicts:
  assumes "list_all (own_safe n cidr name i) nodes" "listed name nodes"
    and "rt_DestinationCIDR x = cidr" "rt_InstanceId x \<noteq> i"
  shows "conflictWithNodes x nodes"
proof -
  obtain m where m: "m \<in> set nodes" "nd_Name m = name" using assms(2) by (auto simp: listed_def)
  then have own: "own_safe n cidr name i m" using assms(1) by (simp add: list_all_iff)
  from own_wrong_conflicts [OF own_self(1) [OF this m(2)] _ m(1) assms(3)] own_self [OF own m(2)] show ?thesis
    using assms(4) by simp
qed

lemma wrong_pass:
  assumes "pass_step ref_env G (p, w) (p', w')" "common G n cidr name i (p, q, w)" "wrong_route cidr i (p, q, w)"
    and "cidr \<noteq> ''0.0.0.0/0''"
  shows "\<not> completes p p' \<and> (wrong_route cidr i (p', q, w') \<or> no_route cidr (p', q, w'))"
proof -
  obtain x where x: "ref_table w cidr = Some x" "rt_InstanceId x \<noteq> i" "deletes_later x p"
    using assms(3) by (auto simp: wrong_route_def)
  have w: "own_guarded G n cidr name i w" "lists_safe n cidr name i p" "ref_ok G w"
    using assms(2) by (simp_all add: common_def guarded_def)
  have c: "rt_DestinationCIDR x = cidr" using ref.tbl_cidr [OF w(3) x(1)] .
  from assms(1) show ?thesis
  proof (cases rule: pass_step.cases)
    case (list_nodes nodes)
    then show ?thesis using list_nodes_result x by (auto simp: wrong_route_def)
  next
    case (no_nodes e)
    then show ?thesis using list_nodes_result by blast
  next
    case (list_routes rs nodes)
    then have "rs = collect_routes (cl_routes w)" "w' = w" using list_routes_result [OF w(3)] by auto
    then have "x \<in> set rs" "distinct (map rt_DestinationCIDR rs)"
      using ref_collect [of G w x] collect_distinct w(3) x(1) c assms(4) by (simp_all add: ref_ok_def ref_up_def)
    then show ?thesis using list_routes \<open>w' = w\<close> x by (auto simp: wrong_route_def)
  next
    case (no_routes e nodes)
    then show ?thesis using list_routes_result [OF w(3)] by blast
  next
    case (delete nodes y rs rest)
    note table = delete_effect [OF w(1) delete(3)]
    have p: "x \<in> set (y # rest)" "distinct (map rt_DestinationCIDR (y # rest))" using delete x(3) by auto
    show ?thesis
    proof (cases "y = x")
      case True
      have "list_all (own_safe n cidr name i) nodes" "listed name nodes" using w(2) delete by simp_all
      then have "conflictWithNodes y nodes" unfolding True using c x(2) by (rule wrong_conflicts)
      moreover have "rt_DestinationCIDR y \<notin> rt_DestinationCIDR ` set rest" using p(2) by simp
      then have "free_of cidr rest" unfolding free_of_def True c by (metis imageI)
      ultimately show ?thesis using table True c delete by (simp add: no_route_def)
    next
      case False
      then have "rt_DestinationCIDR y \<noteq> cidr" using p c by force
      then show ?thesis using table False p x delete by (auto simp: wrong_route_def)
    qed
  qed (use x in auto)
qed

text \<open>No route: the pass leaves it so or adds the right one.\<close>

lemma no_route_pass:
  assumes "pass_step ref_env G (p, w) (p', w')" "common G n cidr name i (p, q, w)" "no_route cidr (p, q, w)"
  shows "no_route cidr (p', q, w') \<or> right_route n cidr name i (p', q, w')"
proof -
  have w: "own_guarded G n cidr name i w" "lists_safe n cidr name i p" "ref_ok G w"
    "lists_safe n cidr name i p'"
    using assms(2) common_pass [OF assms(1,2)] by (simp_all add: common_def guarded_def)
  have t: "ref_table w cidr = None" "spares cidr p" using assms(3) by (simp_all add: no_route_def)
  from assms(1) show ?thesis
  proof (cases rule: pass_step.cases)
    case (list_nodes nodes)
    then show ?thesis using list_nodes_result t by (auto simp: no_route_def)
  next
    case (no_nodes e)
    then show ?thesis using list_nodes_result by blast
  next
    case (list_routes rs nodes)
    then have "free_of cidr rs" using list_routes_result [OF w(3)] listed_route [OF w(3)] t(1) by (fastforce simp: free_of_def)
    then show ?thesis using list_routes list_routes_result [OF w(3)] t(1) by (auto simp: no_route_def)
  next
    case (no_routes e nodes)
    then show ?thesis using list_routes_result [OF w(3)] by blast
  next
    case (delete nodes y rs rest)
    then show ?thesis using delete_effect [OF w(1) delete(3)] t by (auto simp: no_route_def free_of_def)
  next
    case (deleted nodes rs)
    then show ?thesis using t by (simp add: no_route_def)
  next
    case (add rs node nodes)
    have "list_all (own_safe n cidr name i) (node # nodes)" using add w(2) by simp
    then have "grows i None (ref_table w' cidr)" using own.guarded_add_routes [OF w(1) _ add(3)] t(1) by simp
    then show ?thesis using new_route [OF _ w(4)] add by (auto simp: no_route_def)
  next
    case (added rs)
    then show ?thesis using t by (simp add: no_route_def)
  qed
qed

text \<open>No route, and none in the list of the pass: when the pass comes to the node it adds the route.\<close>

lemma add_own:
  assumes "own_guarded G n cidr name i w" "list_all (own_safe n cidr name i) [m]" "nd_Name m = name" "needSyncRoute m"
    and "free_of cidr rs" "i \<noteq> ''''" "add_routes ref_env G rs [m] w = (res, w')"
  shows "ref_table w' cidr \<noteq> None"
proof -
  have m: "getIPv4RouteForNode m = Ok (Some n, cidr)" "getNodeInstanceId m = i" "length (ipn_Mask n) = 4" "ref_ok G w"
    using assms(1-3) own_self by (auto simp: guarded_def)
  then show ?thesis
    using ref.add_routes_ensures [OF m(4), of rs "[m]"] own_string(3) [OF m(1,3)] assms(4-7)
    by (simp add: Let_def free_of_def del: add_routes.simps)
qed

lemma pending_pass:
  assumes "pass_step ref_env G (p, w) (p', w')" "common G n cidr name i (p, q, w)" "pending_route cidr name (p, q, w)"
    and "i \<noteq> ''''"
  shows "\<not> completes p p' \<and> pending_route cidr name (p', q, w') \<or> right_route n cidr name i (p', q, w')"
proof -
  have w: "own_guarded G n cidr name i w" "lists_safe n cidr name i p" "ref_ok G w"
    using assms(2) by (simp_all add: common_def guarded_def)
  have t: "no_route cidr (p, q, w)" "adds_later cidr name p" "ref_table w cidr = None"
    using assms(3) by (simp_all add: pending_route_def no_route_def)
  note rest = no_route_pass [OF assms(1,2) t(1)]
  have pend: "pending_route cidr name (p', q, w')" if "no_route cidr (p', q, w')" "adds_later cidr name p'"
    using that by (simp add: pending_route_def no_route_def)
  from assms(1) show ?thesis
  proof (cases rule: pass_step.cases)
    case (list_routes rs nodes)
    then have "free_of cidr rs" using list_routes_result [OF w(3)] listed_route [OF w(3)] t(3) by (fastforce simp: free_of_def)
    then show ?thesis using list_routes rest pend by auto
  next
    case (delete nodes y rs more)
    then show ?thesis using rest pend t(2) by (auto simp: free_of_def)
  next
    case (deleted nodes rs)
    then show ?thesis using rest pend t(2) w(2) by auto
  next
    case (add rs node nodes)
    show ?thesis
    proof (cases "nd_Name node = name \<and> needSyncRoute node")
      case True
      have "list_all (own_safe n cidr name i) [node]" "free_of cidr rs"
        using add w(2) t(2) by (simp_all add: safe_nodes_def)
      then have "ref_table w' cidr \<noteq> None" using add_own [OF w(1)] True assms(4) add(3) by blast
      then show ?thesis using rest by (auto simp: no_route_def)
    next
      case False
      then show ?thesis using add rest pend t(2) by (auto simp: listed_def)
    qed
  next
    case (added rs)
    then show ?thesis using t(2) by (simp add: listed_def)
  qed (use rest pend list_nodes_result list_routes_result [OF w(3)] in auto)
qed

lemma stage_pass:
  assumes "pass_step ref_env G (p, w) (p', w')" "common G n cidr name i (p, q, w)" "stage n cidr name i k (p, q, w)"
    and "cidr \<noteq> ''0.0.0.0/0''" "i \<noteq> ''''"
  shows "stage n cidr name i (if completes p p' then Suc k else k) (p', q, w')"
proof -
  have "completes p p' \<Longrightarrow> no_route cidr (p', q, w') \<Longrightarrow> pending_route cidr name (p', q, w')"
    by (cases "(p, p')" rule: completes.cases) (simp_all add: no_route_def pending_route_def)
  then show ?thesis
    using right_pass [OF assms(1,2)] wrong_pass [OF assms(1,2) _ assms(4)] no_route_pass [OF assms(1,2)]
      pending_pass [OF assms(1,2) _ assms(5)] assms(3)
    by (auto simp: stage_def)
qed

section \<open>Property\<close>

text \<open>The users also leave the node in need of its route.\<close>

definition others_change_needed :: "IPNet \<Rightarrow> string \<Rightarrow> string \<Rightarrow> string \<Rightarrow> Globals \<Rightarrow> Cloud \<Rightarrow> Cloud \<Rightarrow> bool" where
  "others_change_needed n cidr name i G w w' \<longleftrightarrow> others_change n cidr name i G w w' \<and> listed name (cl_nodes w')"


section \<open>Witness\<close>

text \<open>A run can complete any number of passes.\<close>

lemma run_pass_steps:
  "(pass_step E G)\<^sup>*\<^sup>* (p, w) (p', w') \<Longrightarrow> run E G allowed s k (p, q, w) \<Longrightarrow> \<exists>j \<ge> k. run E G allowed s j (p', q, w')"
proof (induction rule: rtranclp_induct2)
  case (step p1 w1 p2 w2)
  then obtain j where "j \<ge> k" "run E G allowed s j (p1, q, w1)" by blast
  from run.step [OF this(2) system_step.periodic [OF step(2)]] \<open>j \<ge> k\<close> show ?case
    by (metis (full_types) le_Suc_eq)
qed blast

lemma run_pass:
  assumes "ref_ok G w" "run ref_env G allowed s k (Waiting, q, w)"
  shows "\<exists>j > k. run ref_env G allowed s j (Waiting, q, pass G w)"
proof -
  obtain rs w0 w' where sync: "ListRoutes ref_env G w = (Ok rs, w0)" "syncRoutes ref_env G (managed w) w = (Ok (), w')"
    by (rule ref.sync_routes_ok [OF assms(1)])
  have "w' = pass G w"
    using sync(2) by (simp add: pass_def reconcileForCluster_def NodeList_def on_res_def managed_def)
  then have "(pass_step ref_env G)\<^sup>*\<^sup>* (Listing (managed w), w) (Adding rs [], pass G w)"
    using sync_to_end [OF sync] by simp
  moreover have "pass_step ref_env G (Waiting, w) (Listing (managed w), w)"
    by (rule pass_step.list_nodes) (simp add: NodeList_def on_res_def managed_def)
  ultimately have "(pass_step ref_env G)\<^sup>*\<^sup>* (Waiting, w) (Adding rs [], pass G w)"
    by (rule converse_rtranclp_into_rtranclp [rotated])
  from run_pass_steps [OF this assms(2)] obtain j where
    "j \<ge> k" "run ref_env G allowed s j (Adding rs [], q, pass G w)" by blast
  from run.step [OF this(2) system_step.periodic [OF pass_step.added]] this(1) show ?thesis
    by (intro exI [of _ "Suc j"]) simp
qed


end
