(* ===== verification/Orphans.thy ===== *)
theory Orphans
  imports Route_Guard
begin

text \<open>
  A route that no node takes part in: none has its CIDR, none conflicts with it. The controller leaves it alone. This
  holds for the routes that users make for other machines of the VPC, and for those whose node was deleted while no
  controller was running, so that no cache knows them.
\<close>

section \<open>Nodes that have nothing to do with a route\<close>

definition foreign :: "Route \<Rightarrow> Node \<Rightarrow> bool" where
  "foreign r m \<longleftrightarrow> \<not> conflictWithNodes r [m] \<and>
     (case getIPv4RouteForNode m of Ok (_, c) \<Rightarrow> c \<noteq> rt_DestinationCIDR r | _ \<Rightarrow> True)"

text \<open>A route conflicts with a list of nodes when it conflicts with one of them; only its CIDR and instance count.\<close>

lemma conflict_Cons: "conflictWithNodes r (m # nodes) \<longleftrightarrow> conflictWithNodes r [m] \<or> conflictWithNodes r nodes"
  by (auto split: res.splits if_splits prod.splits)

lemma conflict_iff: "conflictWithNodes r nodes \<longleftrightarrow> (\<exists>m \<in> set nodes. conflictWithNodes r [m])"
proof (induction nodes)
  case (Cons m nodes)
  then show ?case using conflict_Cons [of r m nodes] by auto
qed simp

lemma conflict_same:
  "rt_DestinationCIDR r = rt_DestinationCIDR x \<Longrightarrow> rt_InstanceId r = rt_InstanceId x \<Longrightarrow>
     conflictWithNodes r nodes = conflictWithNodes x nodes"
  by (induction nodes) (auto split: res.splits)

interpretation orphan: route_guard "rt_DestinationCIDR r" "rt_InstanceId r" "{}" "foreign r"
  for r
proof (unfold_locales, goal_cases)
  case (1 a b)
  then show ?case by (simp add: foreign_def node_view_same [OF 1] cong: res.case_cong)
next
  case (2 m k)
  then show ?case by (simp add: foreign_def)
next
  case (3 nodes x)
  then show ?case using conflict_same [of x r nodes] conflict_iff [of r nodes] by (auto simp: foreign_def list_all_iff)
qed

interpretation orphan_route: guarded_route "rt_DestinationCIDR r" r "{}" "foreign r"
  for r
  by unfold_locales

section \<open>Property\<close>

text \<open>
  What users may do: they change nodes and other routes, as long as no node comes to have to do with the route. Names of
  nodes are unique.
\<close>

definition left_alone :: "Route \<Rightarrow> Globals \<Rightarrow> Cloud \<Rightarrow> bool" where
  "left_alone r G w \<longleftrightarrow> ref_ok G w \<and> distinct (map nd_Name (cl_nodes w)) \<and> list_all (foreign r) (cl_nodes w)"

definition others_leave :: "Route \<Rightarrow> Globals \<Rightarrow> Cloud \<Rightarrow> Cloud \<Rightarrow> bool" where
  "others_leave r G w w' \<longleftrightarrow> left_alone r G w' \<and> cl_cache w' = cl_cache w \<and>
     ref_table w' (rt_DestinationCIDR r) = ref_table w (rt_DestinationCIDR r)"

text \<open>
  C4 The controller never removes or replaces a route that no node has to do with and no cache entry names, under every
  interleaving of its passes and requests and of the users. So a user's route for another machine is safe, and the
  route of a node deleted while no controller was running stays for ever.
\<close>

theorem foreign_route_stays:
  assumes "left_alone r G w" "only_cached_by {} cidr w" "ref_table w cidr = Some r"
    and "(system_step ref_env G (others_leave r G))\<^sup>*\<^sup>* (Waiting, Idle, w) (p, q, w')"
  shows "ref_table w' cidr = Some r"
proof -
  have cidr: "cidr = rt_DestinationCIDR r" using ref.tbl_cidr assms(1,3) by (auto simp: left_alone_def)
  let ?guarded = "guarded G cidr {} (foreign r)"
  have "?guarded v \<longrightarrow> ?guarded v' \<and> ref_table v' cidr = ref_table v cidr" if "others_leave r G v v'" for v v'
    using that by (auto simp: cidr others_leave_def left_alone_def guarded_def only_cached_by_def)
  from system_mono [OF assms(4) this] have run:
    "(system_step ref_env G (\<lambda>v v'. ?guarded v \<longrightarrow> ?guarded v' \<and> ref_table v' cidr = ref_table v cidr))\<^sup>*\<^sup>*
      (Waiting, Idle, w) (p, q, w')" .
  have "protected G cidr {} (foreign r) r Waiting Idle w"
    using assms(1-3) by (simp add: protected_def guarded_def left_alone_def)
  from orphan_route.route.reachable [OF run [unfolded cidr] this [unfolded cidr]] show ?thesis
    by (simp add: protected_def cidr)
qed

section \<open>Witness\<close>

lemma parse_eleven: "ParseCIDR ''11.0.0.0/8'' = Ok (IPv4 11 0 0 0, \<lparr>ipn_IP = [11, 0, 0, 0], ipn_Mask = [255, 0, 0, 0]\<rparr>)"
proof -
  have "mask_bytes 4 8 = [255, 0, 0, 0]" by code_simp
  then show ?thesis using ParseCIDR_dotted [of 8 11 0 0 0] by (simp add: dotted_def dec_eval)
qed

lemma eleven_foreign: "foreign (to_route (demo_route ''11.0.0.0/8'' ''i-9'')) ten_node"
proof -
  have "\<not> IPNet_Contains ten_net [11, 0, 0, 0]" by code_simp
  then have "containsRoute (Some ten_net) ''11.0.0.0/8'' = Ok (False, False)"
    by (simp add: containsRoute_def ten_net_string parse_eleven)
  then show ?thesis by (simp add: foreign_def ten_node_net)
qed

theorem foreign_route_stays_witness:
  "ref_table (pass demo_globals (demo_cloud [demo_route ''11.0.0.0/8'' ''i-9''])) ''11.0.0.0/8''
     = Some (to_route (demo_route ''11.0.0.0/8'' ''i-9''))"
proof -
  let ?w = "demo_cloud [demo_route ''11.0.0.0/8'' ''i-9'']"
  have "left_alone (to_route (demo_route ''11.0.0.0/8'' ''i-9'')) demo_globals ?w" "only_cached_by {} ''11.0.0.0/8'' ?w"
    using demo_ok(2) eleven_foreign by (simp_all add: left_alone_def only_cached_by_def demo_cloud_def)
  then show ?thesis
    by (rule foreign_route_stays [OF _ _ demo_route_there passes_in_system [OF pass_steps [OF demo_ok(2)]]])
qed

end
