(* ===== verification/Progress.thy ===== *)
theory Progress
  imports Route_Guard
begin

text \<open>
  Neither thread of the controller comes to a state from which its own steps do not lead back to rest: no panic, no
  step that is not enabled, whatever the other thread and the users have done.
\<close>

section \<open>A request ends\<close>

lemma condition_fine:
  assumes "ref_ok G w"
  obtains r w' where "update_condition ref_env node b w = (r, w')" "\<not> is_panic r" "ref_ok G w'"
proof -
  obtain r w' where u: "update_condition ref_env node b w = (r, w')" by force
  then have "ref_ok G w'" using ref.conditionD [OF assms, of node b] by simp
  moreover have "\<not> is_panic r" using ref.condition_calm [of node b w] u by (cases r) auto
  ultimately show thesis using that u by blast
qed

lemma add_fine:
  assumes "ref_ok G w" "cidr \<noteq> ''''"
  obtains r w' where "addRouteForNode ref_env G cidr node rs w = (r, w')" "\<not> is_panic r" "ref_ok G w'"
  using ref.add_changes [OF assms, of node rs] by blast

lemma sync_fine:
  assumes "ref_ok G w"
  shows "\<exists>r w'. syncCloudRoute ref_env G node w = (r, w') \<and> \<not> is_panic r \<and> ref_ok G w'"
proof (cases "needSyncRoute node")
  case True
  obtain r0 w0 where c0: "update_condition ref_env node False w = (r0, w0)" "\<not> is_panic r0" "ref_ok G w0"
    by (rule condition_fine [OF assms])
  show ?thesis
  proof (cases "\<exists>n cidr. getIPv4RouteForNode node = Ok (n, cidr) \<and> cidr \<noteq> ''''")
    case False
    then show ?thesis
      using True c0 getIPv4RouteForNode_calm [of node]
      by (cases "getIPv4RouteForNode node"; cases r0) (auto simp: syncCloudRoute_def on_res_def)
  next
    case net: True
    then obtain n cidr where n: "getIPv4RouteForNode node = Ok (n, cidr)" "cidr \<noteq> ''''" by blast
    obtain r1 w1 where a: "addRouteForNode ref_env G cidr node [] w = (r1, w1)" "\<not> is_panic r1" "ref_ok G w1"
      by (rule add_fine [OF assms n(2)])
    obtain r2 w2 where c2: "update_condition ref_env node False w1 = (r2, w2)" "\<not> is_panic r2" "ref_ok G w2"
      by (rule condition_fine [OF a(3)])
    obtain r3 w3 where c3: "update_condition ref_env node True w1 = (r3, w3)" "\<not> is_panic r3" "ref_ok G w3"
      by (rule condition_fine [OF a(3)])
    show ?thesis
      using True n a c2 c3
      by (cases r1; cases r2) (auto simp: syncCloudRoute_def Let_def on_res_def split: option.splits)
  qed
qed (use assms in \<open>simp add: syncCloudRoute_def\<close>)

lemma delete_fine:
  assumes "ref_ok G w"
  obtains w' where "deleteRouteForInstance ref_env G cidr w = (Ok (), w')" "ref_ok G w'"
  using ref.delete_clears [OF assms, of cidr] by blast

lemma finish_request:
  assumes "ref_ok G w"
  shows "\<exists>w'. (request_step ref_env G)\<^sup>*\<^sup>* (q, w) (Idle, w')"
proof (cases q)
  case (Syncing node)
  obtain r w' where "syncCloudRoute ref_env G node w = (r, w')" "\<not> is_panic r" using sync_fine [OF assms] by blast
  then show ?thesis using Syncing by (cases r) (auto intro: request_step.synced request_step.not_synced)
next
  case (Vanished name r)
  obtain w' where "deleteRouteForInstance ref_env G (rt_DestinationCIDR r) w = (Ok (), w')"
    by (rule delete_fine [OF assms])
  then have "request_step ref_env G (Vanished name r, w) (Forgetting name, w')" by (rule request_step.route_deleted)
  then show ?thesis using request_step.forget Vanished by (meson converse_rtranclp_into_rtranclp r_into_rtranclp)
qed (auto intro: request_step.forget)

section \<open>A pass ends\<close>

lemma finish_adding:
  assumes "ref_ok G w"
  shows "\<exists>w'. (pass_step ref_env G)\<^sup>*\<^sup>* (Adding rs nodes, w) (Waiting, w')"
proof -
  obtain w' where "add_routes ref_env G rs nodes w = (Ok (), w')"
    using ref.add_routes_ensures [OF assms, of rs nodes] unfolding Let_def by blast
  then have "(pass_step ref_env G)\<^sup>*\<^sup>* (Adding rs nodes, w) (Adding rs [], w')" by (rule add_steps)
  then have "(pass_step ref_env G)\<^sup>*\<^sup>* (Adding rs nodes, w) (Waiting, w')"
    using pass_step.added by (rule rtranclp.rtrancl_into_rtrancl)
  then show ?thesis ..
qed

lemma finish_deleting:
  assumes "ref_ok G w"
  shows "\<exists>w'. (pass_step ref_env G)\<^sup>*\<^sup>* (Deleting nodes rs rest, w) (Waiting, w')"
proof -
  obtain w1 where w1: "delete_conflicts ref_env G nodes rest w = (Ok (), w1)" "ref_ok G w1"
    using ref.delete_conflicts_clears [OF assms, of nodes rest] by blast
  obtain w2 where "(pass_step ref_env G)\<^sup>*\<^sup>* (Adding rs nodes, w1) (Waiting, w2)"
    using finish_adding [OF w1(2)] by blast
  then have "(pass_step ref_env G)\<^sup>*\<^sup>* (Deleting nodes rs [], w1) (Waiting, w2)"
    using pass_step.deleted by (rule converse_rtranclp_into_rtranclp [rotated])
  with delete_steps [OF w1(1)] have "(pass_step ref_env G)\<^sup>*\<^sup>* (Deleting nodes rs rest, w) (Waiting, w2)"
    by (rule rtranclp_trans)
  then show ?thesis ..
qed

lemma finish_pass:
  assumes "ref_ok G w"
  shows "\<exists>w'. (pass_step ref_env G)\<^sup>*\<^sup>* (p, w) (Waiting, w')"
proof (cases p)
  case (Listing nodes)
  have "pass_step ref_env G (Listing nodes, w) (Deleting nodes (collect_routes (cl_routes w)) (collect_routes (cl_routes w)), w)"
    using ref_ListRoutes [of G w] assms by (intro pass_step.list_routes) (simp add: ref_ok_def)
  moreover obtain w' where "(pass_step ref_env G)\<^sup>*\<^sup>*
      (Deleting nodes (collect_routes (cl_routes w)) (collect_routes (cl_routes w)), w) (Waiting, w')"
    using finish_deleting [OF assms] by blast
  ultimately have "(pass_step ref_env G)\<^sup>*\<^sup>* (Listing nodes, w) (Waiting, w')" by (rule converse_rtranclp_into_rtranclp)
  then show ?thesis using Listing by blast
qed (use finish_adding finish_deleting assms in blast)+

section \<open>The cloud stays in order\<close>

lemma request_keeps_ok:
  assumes "request_step ref_env G (q, w) (q', w')" "ref_ok G w"
  shows "ref_ok G w'"
  using assms(1)
proof (cases rule: request_step.cases)
  case (synced node)
  then show ?thesis using sync_fine [OF assms(2), of node] by auto
next
  case (not_synced node e)
  then show ?thesis using sync_fine [OF assms(2), of node] by auto
next
  case (route_deleted r name)
  then show ?thesis using ref.delete_clears [OF assms(2), of "rt_DestinationCIDR r"] by auto
next
  case (not_deleted r e name)
  then show ?thesis using ref.delete_clears [OF assms(2), of "rt_DestinationCIDR r"] by auto
qed (use assms(2) in \<open>auto split: option.splits\<close>)

lemma pass_keeps_ok:
  assumes "pass_step ref_env G (p, w) (p', w')" "ref_ok G w"
  shows "ref_ok G w'"
  using assms(1)
proof (cases rule: pass_step.cases)
  case (delete nodes r rs rest)
  then show ?thesis using ref.delete_conflicts_clears [OF assms(2), of nodes "[r]"] by auto
next
  case (add rs node nodes)
  then show ?thesis using ref.add_routes_ensures [OF assms(2), of rs "[node]"] by (auto simp: Let_def)
qed (use assms(2) list_nodes_result list_routes_result [OF assms(2)] in auto)

interpretation in_order: system_invariant ref_env G "\<lambda>_ w'. ref_ok G w'" "\<lambda>_ _ w. ref_ok G w"
  for G
  by unfold_locales (use pass_keeps_ok request_keeps_ok in blast)+

section \<open>Property\<close>



end
