(* ===== verification/Table_Refinement.thy ===== *)
theory Table_Refinement
  imports Reference_Run
begin

text \<open>
  The abstract specification of \<open>pkg/ksyun\<close> and the simulation that its operations, run down to the HTTP
  requests, implement it: to the controller the cloud is a finite map from CIDRs to instances.
\<close>

section \<open>The specification\<close>

datatype call = Find string | List_all | Create string string | Delete string

datatype outcome =
    Found "string option"
  | Listed "(string \<times> string) set"
  | Created
  | Duplicate
  | Deleted
  | Failed

type_synonym routing = "string \<Rightarrow> string option"

fun spec_step :: "call \<Rightarrow> routing \<Rightarrow> outcome \<times> routing" where
  "spec_step (Find cidr) t = (Found (t cidr), t)"
| "spec_step List_all t = (Listed {(c, i). c \<noteq> ''0.0.0.0/0'' \<and> t c = Some i}, t)"
| "spec_step (Create i cidr) t = (if t cidr = None then (Created, t(cidr := Some i)) else (Duplicate, t))"
| "spec_step (Delete cidr) t = (Deleted, t(cidr := None))"

fun runs :: "('c \<Rightarrow> 's \<Rightarrow> 'o \<times> 's) \<Rightarrow> 'c list \<Rightarrow> 's \<Rightarrow> 'o list \<times> 's" where
  "runs f [] s = ([], s)"
| "runs f (c # cs) s = (case f c s of (x, s1) \<Rightarrow> case runs f cs s1 of (xs, s2) \<Rightarrow> (x # xs, s2))"

section \<open>The calls of the program\<close>

text \<open>What the controller tells apart of an answer; a duplicate is known by the text of its error.\<close>

fun api_step :: "'w env \<Rightarrow> Globals \<Rightarrow> call \<Rightarrow> 'w \<Rightarrow> outcome \<times> 'w" where
  "api_step E G (Find cidr) w =
     (case FindRoute E G cidr w of (Ok r, w) \<Rightarrow> (Found (map_option rt_InstanceId r), w) | (_, w) \<Rightarrow> (Failed, w))"
| "api_step E G List_all w =
     (case ListRoutes E G w of
        (Ok rs, w) \<Rightarrow> (Listed ((\<lambda>r. (rt_DestinationCIDR r, rt_InstanceId r)) ` set rs), w) | (_, w) \<Rightarrow> (Failed, w))"
| "api_step E G (Create i cidr) w =
     (case CreateRoute E G i cidr w of
        (Ok _, w) \<Rightarrow> (Created, w)
      | (Err e, w) \<Rightarrow> (if str_contains (error_text e) same_with_a_route then Duplicate else Failed, w)
      | (_, w) \<Rightarrow> (Failed, w))"
| "api_step E G (Delete cidr) w =
     (case DeleteRoute E G cidr w of (Ok _, w) \<Rightarrow> (Deleted, w) | (_, w) \<Rightarrow> (Failed, w))"

definition routing_of :: "table \<Rightarrow> routing" where
  "routing_of t cidr = map_option rt_InstanceId (t cidr)"

section \<open>The simulation\<close>

context vpc_api
begin

lemma step_refines:
  assumes "up w"
  shows "\<exists>w'. api_step E G c w = (fst (spec_step c (routing_of (tbl w))), w') \<and> up w' \<and>
    routing_of (tbl w') = snd (spec_step c (routing_of (tbl w)))"
proof (cases c)
  case (Find cidr)
  then show ?thesis using find_ok [OF assms, of cidr] by (auto simp: routing_of_def)
next
  case List_all
  obtain rs w' where l: "ListRoutes E G w = (Ok rs, w')" "up w'" "tbl w' = tbl w"
    "\<And>r. r \<in> set rs \<longleftrightarrow> rt_DestinationCIDR r \<noteq> ''0.0.0.0/0'' \<and> tbl w (rt_DestinationCIDR r) = Some r"
    using list_ok [OF assms] by blast
  have "(\<lambda>r. (rt_DestinationCIDR r, rt_InstanceId r)) ` set rs
      = {(c, i). c \<noteq> ''0.0.0.0/0'' \<and> routing_of (tbl w) c = Some i}"
    using l(4) tbl_cidr [OF assms] by (auto simp: routing_of_def image_iff)
  then show ?thesis using l List_all by simp
next
  case (Create i cidr)
  show ?thesis
  proof (cases "tbl w cidr")
    case None
    then show ?thesis using Create create_new [OF assms None, of i] by (auto simp: routing_of_def fun_eq_iff)
  next
    case (Some r)
    then show ?thesis using Create create_duplicate [OF assms Some, of i] by (auto simp: routing_of_def)
  qed
next
  case (Delete cidr)
  then show ?thesis using delete_ok [OF assms, of cidr] by (auto simp: routing_of_def fun_eq_iff)
qed

lemma runs_refine:
  "up w \<Longrightarrow> \<exists>w'. runs (api_step E G) cs w = (fst (runs spec_step cs (routing_of (tbl w))), w') \<and> up w' \<and>
    routing_of (tbl w') = snd (runs spec_step cs (routing_of (tbl w)))"
proof (induction cs arbitrary: w)
  case (Cons c cs)
  obtain w1 where w1: "api_step E G c w = (fst (spec_step c (routing_of (tbl w))), w1)" "up w1"
    "routing_of (tbl w1) = snd (spec_step c (routing_of (tbl w)))" using step_refines [OF Cons.prems] by blast
  from Cons.IH [OF w1(2)] show ?case using w1 by (auto split: prod.splits)
qed simp

end

section \<open>Property\<close>

text \<open>
  C6 The operations of \<open>pkg/ksyun\<close> refine the specification: any sequence of calls, run against the cloud down
  to the HTTP requests, gives the answers of the abstract map and leaves the routes of the abstract map.
\<close>

theorem api_refines_routing:
  assumes "ref_ok G w"
  shows "fst (runs (api_step ref_env G) cs w) = fst (runs spec_step cs (routing_of (ref_table w))) \<and>
    routing_of (ref_table (snd (runs (api_step ref_env G) cs w))) = snd (runs spec_step cs (routing_of (ref_table w)))"
  using ref.runs_refine [OF assms, of cs] by auto

theorem api_refines_routing_witness:
  "fst (runs (api_step ref_env demo_globals)
      [Create ''i-1'' ''10.0.0.0/8'', Create ''i-2'' ''10.0.0.0/8'', Find ''10.0.0.0/8'', Delete ''10.0.0.0/8'',
       Find ''10.0.0.0/8''] (demo_cloud []))
     = [Created, Duplicate, Found (Some ''i-1''), Deleted, Found None]"
  unfolding api_refines_routing [OF demo_ok(1), THEN conjunct1] by (simp add: routing_of_def demo_table)

end
