(* ===== verification/Attempts.thy ===== *)
theory Attempts
  imports World
begin

text \<open>
  The attempt strategy of \<open>pkg/util/attempt.go\<close>: a caller makes attempts while \<open>Next\<close> returns true. Times and
  durations are numbers of one unit. \<open>clk\<close> reads \<open>time.Now()\<close>, \<open>slp\<close> is \<open>time.Sleep\<close>.
\<close>

section \<open>The code\<close>

record AttemptStrategy =
  as_Total :: int
  as_Delay :: int
  as_Min :: int

record Attempt =
  at_strategy :: AttemptStrategy
  at_last :: int
  at_end :: int
  at_force :: bool
  at_count :: int

definition Start :: "('w \<Rightarrow> int \<times> 'w) \<Rightarrow> AttemptStrategy \<Rightarrow> 'w \<Rightarrow> Attempt \<times> 'w" where
  "Start clk s w =
     (let (t, w) = clk w in
      (\<lparr>at_strategy = s, at_last = t, at_end = t + as_Total s, at_force = True, at_count = 0\<rparr>, w))"

definition nextSleep :: "Attempt \<Rightarrow> int \<Rightarrow> int" where
  "nextSleep a t =
     (let sleep = as_Delay (at_strategy a) - (t - at_last a) in if sleep < 0 then 0 else sleep)"

definition Next :: "('w \<Rightarrow> int \<times> 'w) \<Rightarrow> (int \<Rightarrow> 'w \<Rightarrow> 'w) \<Rightarrow> Attempt \<Rightarrow> 'w \<Rightarrow> bool \<times> Attempt \<times> 'w" where
  "Next clk slp a w =
     (let (t, w) = clk w; sleep = nextSleep a t in
      if \<not> at_force a \<and> \<not> t + sleep < at_end a \<and> as_Min (at_strategy a) \<le> at_count a then (False, a, w)
      else
        (let a = a\<lparr>at_force := False\<rparr>;
             (t, w) = (if sleep > 0 \<and> at_count a > 0 then clk (slp sleep w) else (t, w))
         in (True, a\<lparr>at_count := at_count a + 1, at_last := t\<rparr>, w)))"

definition HasNext :: "('w \<Rightarrow> int \<times> 'w) \<Rightarrow> Attempt \<Rightarrow> 'w \<Rightarrow> bool \<times> Attempt \<times> 'w" where
  "HasNext clk a w =
     (if at_force a \<or> as_Min (at_strategy a) > at_count a then (True, a, w)
      else
        (let (t, w) = clk w in
         if t + nextSleep a t < at_end a then (True, a\<lparr>at_force := True\<rparr>, w) else (False, a, w)))"

section \<open>The use of an attempt\<close>

text \<open>A clock does not run backwards, and a sleep lasts at least as long as asked for.\<close>

definition clock_documented :: "('w \<Rightarrow> int \<times> 'w) \<Rightarrow> (int \<Rightarrow> 'w \<Rightarrow> 'w) \<Rightarrow> bool" where
  "clock_documented clk slp \<longleftrightarrow>
     (\<forall>w. fst (clk w) \<le> fst (clk (snd (clk w)))) \<and> (\<forall>d w. fst (clk w) + d \<le> fst (clk (slp d w)))"

text \<open>
  A caller starts, asks for attempts and whether there will be another, and between these lets time pass.
\<close>

inductive attempted :: "('w \<Rightarrow> int \<times> 'w) \<Rightarrow> (int \<Rightarrow> 'w \<Rightarrow> 'w) \<Rightarrow> AttemptStrategy \<Rightarrow> Attempt \<Rightarrow> 'w \<Rightarrow> bool"
  for clk slp s where
  start: "Start clk s w = (a, w') \<Longrightarrow> attempted clk slp s a w'"
| work: "attempted clk slp s a w \<Longrightarrow> fst (clk w) \<le> fst (clk w') \<Longrightarrow> attempted clk slp s a w'"
| asked: "attempted clk slp s a w \<Longrightarrow> HasNext clk a w = (b, a', w') \<Longrightarrow> attempted clk slp s a' w'"
| tried: "attempted clk slp s a w \<Longrightarrow> Next clk slp a w = (b, a', w') \<Longrightarrow> attempted clk slp s a' w'"

section \<open>Facts\<close>

lemma nextSleep_due: "at_last a + as_Delay (at_strategy a) \<le> t + nextSleep a t"
  by (simp add: nextSleep_def Let_def)

text \<open>
  The attempts are a delay apart: the last one is late by all the delays before it. A forced attempt is the first
  or was still in time.
\<close>

definition paced :: "AttemptStrategy \<Rightarrow> int \<Rightarrow> Attempt \<Rightarrow> bool" where
  "paced s t a \<longleftrightarrow> at_strategy a = s \<and> 0 \<le> at_count a \<and> at_last a \<le> t \<and>
     at_end a - as_Total s + (if at_count a = 0 then 0 else (at_count a - 1) * as_Delay s) \<le> at_last a \<and>
     (at_count a = 0 \<longrightarrow> at_force a) \<and>
     (at_force a \<and> 0 < at_count a \<longrightarrow> at_last a + as_Delay s < at_end a) \<and>
     (at_count a \<le> 1 \<or> at_count a \<le> as_Min s \<or> (at_count a - 1) * as_Delay s < as_Total s)"

lemma paced_HasNext:
  assumes "paced s t a" "HasNext clk a w = (b, a', w')" 
  shows "paced s t a'"
  using assms nextSleep_due [of a "fst (clk w)"]
  by (auto simp: HasNext_def paced_def Let_def split: prod.splits if_splits)

lemma paced_step:
  assumes "paced s t a" "at_count a = 0 \<or> at_last a + as_Delay s \<le> t'" "t \<le> t'" "t' \<le> t''"
    and "at_count a = 0 \<or> at_last a + as_Delay s < at_end a \<or> at_count a < as_Min s"
  shows "paced s t'' (a\<lparr>at_force := False, at_count := at_count a + 1, at_last := t'\<rparr>)"
proof (cases "at_count a = 0")
  case True
  then show ?thesis using assms by (simp add: paced_def)
next
  case False
  have "at_count a * as_Delay s = (at_count a - 1) * as_Delay s + as_Delay s"
    by (simp add: algebra_simps)
  then show ?thesis using assms False by (auto simp: paced_def)
qed

lemma paced_Next:
  assumes "clock_documented clk slp" "paced s (fst (clk w)) a" "Next clk slp a w = (b, a', w')"
  shows "paced s (fst (clk w')) a'"
proof -
  obtain t w1 where t: "clk w = (t, w1)" by force
  have mono: "fst (clk u) \<le> fst (clk (snd (clk u)))" "fst (clk u) + d \<le> fst (clk (slp d u))" for u d
    using assms(1) by (auto simp: clock_documented_def)
  have t1: "t \<le> fst (clk w1)" using mono(1) [of w] t by simp
  have strategy: "at_strategy a = s" using assms(2) by (simp add: paced_def)
  note due = nextSleep_due [of a t, unfolded strategy]
  define sleep where "sleep = nextSleep a t"
  have pos: "0 \<le> sleep" by (simp add: sleep_def nextSleep_def Let_def)
  show ?thesis
  proof (cases "b")
    case False
    then have "a' = a" "w' = w1" using assms(3) t by (auto simp: Next_def Let_def split: if_splits prod.splits)
    then show ?thesis using assms(2) t t1 by (simp add: paced_def)
  next
    case True
    then have go: "at_force a \<or> t + sleep < at_end a \<or> at_count a < as_Min s"
      using assms(3) t strategy by (auto simp: Next_def Let_def sleep_def split: if_splits prod.splits)
    obtain t' w2 where t': "(if sleep > 0 \<and> at_count a > 0 then clk (slp sleep w1) else (t, w1)) = (t', w2)" by force
    have a': "a' = a\<lparr>at_force := False, at_count := at_count a + 1, at_last := t'\<rparr>" "w' = w2"
      using assms(3) True t t' go strategy by (auto simp: Next_def Let_def sleep_def split: if_splits prod.splits)
    have "t \<le> t' \<and> t' \<le> fst (clk w2) \<and> (at_count a = 0 \<or> at_last a + as_Delay s \<le> t')"
    proof (cases "sleep > 0 \<and> at_count a > 0")
      case True
      then have c: "clk (slp sleep w1) = (t', w2)" using t' by simp
      then have "t' \<le> fst (clk w2)" using mono(1) [of "slp sleep w1"] by simp
      moreover have "t + sleep \<le> t'" using mono(2) [of w1 sleep] c t1 by simp
      ultimately show ?thesis using pos due unfolding sleep_def [symmetric] by linarith
    next
      case False
      then have "t' = t" "w2 = w1" using t' by auto
      moreover have "0 \<le> at_count a" using assms(2) by (simp add: paced_def)
      ultimately show ?thesis using False pos due t1 unfolding sleep_def [symmetric] by auto
    qed
    moreover have "at_count a = 0 \<or> at_last a + as_Delay s < at_end a \<or> at_count a < as_Min s"
      using go due assms(2) unfolding sleep_def [symmetric] by (auto simp: paced_def)
    ultimately show ?thesis unfolding a' using assms(2) t by (intro paced_step) auto
  qed
qed

lemma attempted_paced:
  assumes "clock_documented clk slp" "attempted clk slp s a w"
  shows "paced s (fst (clk w)) a"
  using assms(2)
proof induction
  case (start w a w')
  then show ?case
    using assms(1) by (auto simp: Start_def paced_def clock_documented_def split: prod.splits) (metis fst_conv snd_conv)
next
  case (work a w w')
  then show ?case by (simp add: paced_def)
next
  case (asked a w b a' w')
  have "fst (clk w) \<le> fst (clk w')"
    using asked(2) assms(1) by (auto simp: HasNext_def clock_documented_def Let_def split: prod.splits if_splits) (metis fst_conv snd_conv)+
  then show ?case using paced_HasNext [OF asked.IH asked(2)] by (simp add: paced_def)
next
  case (tried a w b a' w')
  then show ?case using paced_Next [OF assms(1)] by blast
qed

section \<open>Properties\<close>

text \<open>
  C37 When \<open>HasNext\<close> returns true, the following \<open>Next\<close> returns true, however much time has passed in between.
\<close>

theorem HasNext_guarantees:
  assumes "HasNext clk a w = (True, a', w')"
  shows "fst (Next clk slp a' w'')"
  using assms by (auto simp: HasNext_def Next_def Let_def split: prod.splits if_splits)

theorem HasNext_guarantees_witness:
  "fst (Next (\<lambda>t. (t, t + 1)) (+) \<lparr>at_strategy = \<lparr>as_Total = 10, as_Delay = 3, as_Min = 0\<rparr>, at_last = 0,
     at_end = 10, at_force = True, at_count = 1\<rparr> 100)"
  by (rule HasNext_guarantees [where w = 2 and clk = "\<lambda>t. (t, t + 1)"
        and a = "\<lparr>at_strategy = \<lparr>as_Total = 10, as_Delay = 3, as_Min = 0\<rparr>, at_last = 0,
     at_end = 10, at_force = False, at_count = 1\<rparr>"])
     (simp add: HasNext_def nextSleep_def)

text \<open>
  C36 The attempts end: in any use of an attempt with a positive delay, no more attempts are made than one, the
  minimum, or the number of delays that begin within the total time, whichever is the largest.
\<close>

theorem attempts_bounded:
  assumes "clock_documented clk slp" "attempted clk slp s a w" "0 < as_Delay s"
  shows "at_count a \<le> max 1 (max (as_Min s) ((as_Total s + as_Delay s - 1) div as_Delay s))"
proof (cases "at_count a \<le> 1 \<or> at_count a \<le> as_Min s")
  case False
  then have "(at_count a - 1) * as_Delay s < as_Total s"
    using attempted_paced [OF assms(1,2)] by (simp add: paced_def)
  then have "at_count a * as_Delay s \<le> as_Total s + as_Delay s - 1" by (simp add: algebra_simps)
  then have "at_count a \<le> (as_Total s + as_Delay s - 1) div as_Delay s"
    using assms(3) by (metis mult.commute zdiv_mono1 nonzero_mult_div_cancel_left less_irrefl)
  then show ?thesis by simp
qed auto

theorem attempts_bounded_witness:
  "at_count (fst (snd (Next (\<lambda>t. (t, t + 1)) (\<lambda>d t. t + d)
     (fst (Start (\<lambda>t. (t, t + 1)) \<lparr>as_Total = 10, as_Delay = 3, as_Min = 0\<rparr> 5)) (6 :: int)))) \<le> 4"
proof -
  let ?clk = "\<lambda>t :: int. (t, t + 1)" and ?slp = "\<lambda>d t :: int. t + d"
    and ?s = "\<lparr>as_Total = 10, as_Delay = 3, as_Min = 0\<rparr>"
  obtain a w where a: "Start ?clk ?s 5 = (a, w)" "w = 6" by (simp add: Start_def)
  obtain b a' w' where n: "Next ?clk ?slp a w = (b, a', w')" by (metis surj_pair)
  have "attempted ?clk ?slp ?s a' w'"
    using attempted.tried [OF attempted.start [OF a(1)] n] .
  moreover have "clock_documented ?clk ?slp" by (simp add: clock_documented_def)
  ultimately have "at_count a' \<le> 4" using attempts_bounded [of ?clk ?slp ?s a' w'] by simp
  then show ?thesis using a n by simp
qed

end
