(* ===== verification/Util_Misc.thy ===== *)
theory Util_Misc
  imports World
begin

text \<open>
  The helpers of \<open>pkg/util/util.go\<close> but for \<open>AesDecrypt\<close> (theory Aes_Text), the conversions of \<open>types/route.go\<close> and \<open>types/vpc.go\<close>, and the name of the
  server in \<open>kophttp.go\<close>.
\<close>

section \<open>Names\<close>

record NamespacedName =
  nn_Namespace :: string
  nn_Name :: string

text \<open>An object is given by its namespace and name.\<close>

definition NamespacedName_of :: "string \<times> string \<Rightarrow> NamespacedName" where
  "NamespacedName_of obj = \<lparr>nn_Namespace = fst obj, nn_Name = snd obj\<rparr>"

definition Key :: "string \<times> string \<Rightarrow> string" where
  "Key obj = fst obj @ ''/'' @ snd obj"

section \<open>Maps\<close>

fun merge_one :: "(string \<times> string) list \<Rightarrow> (string \<times> string) list \<Rightarrow> (string \<times> string) list" where
  "merge_one ret [] = ret"
| "merge_one ret ((k, v) # m) = merge_one (if map_of ret k = None then (k, v) # ret else ret) m"

definition MergeStringMap :: "(string \<times> string) list list \<Rightarrow> (string \<times> string) list" where
  "MergeStringMap maps = foldl merge_one [] maps"

section \<open>Retrying\<close>

text \<open>\<open>poll\<close> is \<open>wait.PollImmediate\<close>: it calls the condition until it is true or has an error.\<close>

definition retry_cond :: "(gerror \<Rightarrow> bool) \<Rightarrow> ('w, unit) eff \<Rightarrow> ('w, bool) eff" where
  "retry_cond retryable fn =
     on_res fn (\<lambda>_ w. (Ok True, w)) (\<lambda>err w. if retryable err then (Ok False, w) else (Err err, w))"

definition RetryImmediateOnError ::
  "(int \<Rightarrow> int \<Rightarrow> ('w, bool) eff \<Rightarrow> ('w, unit) eff) \<Rightarrow> int \<Rightarrow> int \<Rightarrow> (gerror \<Rightarrow> bool) \<Rightarrow> ('w, unit) eff \<Rightarrow> ('w, unit) eff" where
  "RetryImmediateOnError poll interval timeout retryable fn = poll interval timeout (retry_cond retryable fn)"

section \<open>Slices\<close>

definition fold_char :: "char \<Rightarrow> char" where
  "fold_char c = (let k = (of_char c :: nat) in if 65 \<le> k \<and> k \<le> 90 then char_of (k + 32) else c)"

text \<open>\<open>strings.EqualFold\<close> for ASCII text.\<close>

definition EqualFold :: "string \<Rightarrow> string \<Rightarrow> bool" where
  "EqualFold s t = (map fold_char s = map fold_char t)"

definition IsStringSliceEqual :: "string list \<Rightarrow> string list \<Rightarrow> bool" where
  "IsStringSliceEqual s1 s2 =
     (if length s1 \<noteq> length s2 then False else list_all (\<lambda>i. list_ex (\<lambda>j. EqualFold i j) s2) s1)"

section \<open>The version of the cluster\<close>

text \<open>
  The discovery client, \<open>version.ParseGeneric\<close> and \<open>AtLeast\<close> are parameters. A minimum that cannot be parsed is only
  logged: \<open>AtLeast\<close> is called with a nil version and panics.
\<close>

definition ClusterVersionAtLeast ::
  "('w, string) eff \<Rightarrow> (string \<Rightarrow> 'v res) \<Rightarrow> ('v \<Rightarrow> 'v \<Rightarrow> bool) \<Rightarrow> string \<Rightarrow> ('w, bool) eff" where
  "ClusterVersionAtLeast server_version ParseGeneric at_least minimum =
     on_res server_version
       (\<lambda>serverVersion w.
          case ParseGeneric serverVersion of
            Err err \<Rightarrow>
              (Err (ErrorString (''unexpected error parsing running Kubernetes version, '' @ error_text err)), w)
          | Panic p \<Rightarrow> (Panic p, w)
          | Ok runningVersion \<Rightarrow>
              (case ParseGeneric minimum of
                 Ok least \<Rightarrow> (Ok (at_least runningVersion least), w)
               | Err err \<Rightarrow> (Panic ''runtime error: invalid memory address or nil pointer dereference'', w)
               | Panic p \<Rightarrow> (Panic p, w)))
       (\<lambda>err w. (Err (ErrorString (''get server version: '' @ error_text err)), w))"

text \<open>An error of \<open>json.MarshalIndent\<close> (a parameter) is printed; the bytes are nil then.\<close>

definition PrettyJson :: "('a \<Rightarrow> string res) \<Rightarrow> 'a \<Rightarrow> string" where
  "PrettyJson MarshalIndent obj = (case MarshalIndent obj of Ok b \<Rightarrow> b | _ \<Rightarrow> '''')"

section \<open>Conversions of the API's types\<close>

record OldRoute =
  or_Id :: string
  or_DomainId :: string
  or_InstanceId :: string
  or_InstanceType :: string
  or_Ip :: string
  or_Mask :: int

definition ConRoute :: "OldRoute \<Rightarrow> RouteSetType" where
  "ConRoute r = \<lparr>rst_RouteId = or_Id r, rst_VpcId = or_DomainId r, rst_RouteType = or_InstanceType r,
     rst_DestinationCIDR = or_Ip r @ ''/'' @ dec_int (or_Mask r), rst_NextHopset = []\<rparr>"

fun con_loop :: "OldRoute list \<Rightarrow> RouteSetType list \<Rightarrow> RouteSetType list" where
  "con_loop [] rss = rss"
| "con_loop (route # routes) rss =
     con_loop routes (rss @ [\<lparr>rst_RouteId = or_Id route, rst_VpcId = or_DomainId route,
       rst_RouteType = or_InstanceType route,
       rst_DestinationCIDR = or_Ip route @ ''/'' @ dec_int (or_Mask route), rst_NextHopset = []\<rparr>])"

definition ConRoutes :: "OldRoute list \<Rightarrow> RouteSetType list" where
  "ConRoutes routes = con_loop routes []"

record Domain =
  dm_Name :: string
  dm_Id :: string
  dm_Ip :: string
  dm_Mask :: int

record OldVpc =
  ov_VpcId :: string
  ov_VpcName :: string
  ov_CidrBlock :: string

definition ConVpc :: "Domain \<Rightarrow> OldVpc" where
  "ConVpc d = \<lparr>ov_VpcId = dm_Id d, ov_VpcName = dm_Name d, ov_CidrBlock = dm_Ip d @ ''/'' @ dec_int (dm_Mask d)\<rparr>"

section \<open>Facts\<close>

lemma merge_one_map: "map_of (merge_one ret m) = map_of m ++ map_of ret"
proof (induction ret m rule: merge_one.induct)
  case (2 ret k v m)
  then show ?case
    by (auto simp: fun_eq_iff map_add_def split: option.splits)
qed simp

text \<open>The first map that has a key decides: merging is addition of maps from the right.\<close>

lemma merge_from: "map_of (foldl merge_one ret maps) = foldr (\<lambda>m f. f ++ map_of m) maps Map.empty ++ map_of ret"
  by (induction maps arbitrary: ret) (simp_all add: merge_one_map)

lemma MergeStringMap_first:
  "map_of (MergeStringMap (m # ms)) = map_of (MergeStringMap ms) ++ map_of m"
  by (simp add: MergeStringMap_def merge_from merge_one_map)

lemma ConRoutes_map: "ConRoutes routes = map ConRoute routes"
proof -
  have "con_loop routes rss = rss @ map ConRoute routes" for rss
    by (induction routes rss rule: con_loop.induct) (simp_all add: ConRoute_def)
  then show ?thesis by (simp add: ConRoutes_def)
qed

text \<open>A minimum that is no version is a panic, once the version of the server is known.\<close>

lemma ClusterVersionAtLeast_bad_minimum:
  assumes "server_version w = (Ok v, w')" "parse v = Ok running" "parse minimum = Err e"
  shows "is_panic (fst (ClusterVersionAtLeast server_version parse at_least minimum w))"
  using assms by (simp add: ClusterVersionAtLeast_def on_res_def)

text \<open>The comparison of slices as sets of one side only: repetitions make it asymmetric.\<close>

lemma IsStringSliceEqual_asymmetric:
  "IsStringSliceEqual [''a'', ''a''] [''a'', ''b'']" "\<not> IsStringSliceEqual [''a'', ''b''] [''a'', ''a'']"
  by (simp_all add: IsStringSliceEqual_def EqualFold_def fold_char_def)

lemma IsStringSliceEqual_distinct:
  assumes "distinct (map (map fold_char) s1)" "IsStringSliceEqual s1 s2"
  shows "IsStringSliceEqual s2 s1"
proof -
  let ?f = "map fold_char"
  have len: "length s1 = length s2" and sub: "?f ` set s1 \<subseteq> ?f ` set s2"
    using assms(2) by (auto simp: IsStringSliceEqual_def EqualFold_def list_all_iff list_ex_iff split: if_splits)
  have "card (?f ` set s2) \<le> length s2" by (metis card_length length_map set_map)
  also have "\<dots> = card (?f ` set s1)" using assms(1) len by (metis distinct_card length_map set_map)
  finally have "?f ` set s1 = ?f ` set s2" using sub by (intro card_seteq) auto
  then show ?thesis
    using len by (auto simp: IsStringSliceEqual_def EqualFold_def list_all_iff list_ex_iff set_eq_iff image_iff)
qed

end
