(* ===== verification/Aes.thy ===== *)
theory Aes
  imports Prelude
begin

text \<open>
  The block cipher AES (FIPS 197) of Go's package \<open>crypto/aes\<close>, for keys of 16, 24 and 32 bytes, and the proof that
  decryption of a block inverts its encryption. A block is a list of 16 bytes, column after column.
\<close>

type_synonym octet = "8 word"
unbundle bit_operations_syntax

section \<open>The steps of a round\<close>

definition sbox :: "octet list" where
  "sbox = [
    0x63, 0x7c, 0x77, 0x7b, 0xf2, 0x6b, 0x6f, 0xc5, 0x30, 0x01, 0x67, 0x2b, 0xfe, 0xd7, 0xab, 0x76,
    0xca, 0x82, 0xc9, 0x7d, 0xfa, 0x59, 0x47, 0xf0, 0xad, 0xd4, 0xa2, 0xaf, 0x9c, 0xa4, 0x72, 0xc0,
    0xb7, 0xfd, 0x93, 0x26, 0x36, 0x3f, 0xf7, 0xcc, 0x34, 0xa5, 0xe5, 0xf1, 0x71, 0xd8, 0x31, 0x15,
    0x04, 0xc7, 0x23, 0xc3, 0x18, 0x96, 0x05, 0x9a, 0x07, 0x12, 0x80, 0xe2, 0xeb, 0x27, 0xb2, 0x75,
    0x09, 0x83, 0x2c, 0x1a, 0x1b, 0x6e, 0x5a, 0xa0, 0x52, 0x3b, 0xd6, 0xb3, 0x29, 0xe3, 0x2f, 0x84,
    0x53, 0xd1, 0x00, 0xed, 0x20, 0xfc, 0xb1, 0x5b, 0x6a, 0xcb, 0xbe, 0x39, 0x4a, 0x4c, 0x58, 0xcf,
    0xd0, 0xef, 0xaa, 0xfb, 0x43, 0x4d, 0x33, 0x85, 0x45, 0xf9, 0x02, 0x7f, 0x50, 0x3c, 0x9f, 0xa8,
    0x51, 0xa3, 0x40, 0x8f, 0x92, 0x9d, 0x38, 0xf5, 0xbc, 0xb6, 0xda, 0x21, 0x10, 0xff, 0xf3, 0xd2,
    0xcd, 0x0c, 0x13, 0xec, 0x5f, 0x97, 0x44, 0x17, 0xc4, 0xa7, 0x7e, 0x3d, 0x64, 0x5d, 0x19, 0x73,
    0x60, 0x81, 0x4f, 0xdc, 0x22, 0x2a, 0x90, 0x88, 0x46, 0xee, 0xb8, 0x14, 0xde, 0x5e, 0x0b, 0xdb,
    0xe0, 0x32, 0x3a, 0x0a, 0x49, 0x06, 0x24, 0x5c, 0xc2, 0xd3, 0xac, 0x62, 0x91, 0x95, 0xe4, 0x79,
    0xe7, 0xc8, 0x37, 0x6d, 0x8d, 0xd5, 0x4e, 0xa9, 0x6c, 0x56, 0xf4, 0xea, 0x65, 0x7a, 0xae, 0x08,
    0xba, 0x78, 0x25, 0x2e, 0x1c, 0xa6, 0xb4, 0xc6, 0xe8, 0xdd, 0x74, 0x1f, 0x4b, 0xbd, 0x8b, 0x8a,
    0x70, 0x3e, 0xb5, 0x66, 0x48, 0x03, 0xf6, 0x0e, 0x61, 0x35, 0x57, 0xb9, 0x86, 0xc1, 0x1d, 0x9e,
    0xe1, 0xf8, 0x98, 0x11, 0x69, 0xd9, 0x8e, 0x94, 0x9b, 0x1e, 0x87, 0xe9, 0xce, 0x55, 0x28, 0xdf,
    0x8c, 0xa1, 0x89, 0x0d, 0xbf, 0xe6, 0x42, 0x68, 0x41, 0x99, 0x2d, 0x0f, 0xb0, 0x54, 0xbb, 0x16]"

definition inv_sbox :: "octet list" where
  "inv_sbox = [
    0x52, 0x09, 0x6a, 0xd5, 0x30, 0x36, 0xa5, 0x38, 0xbf, 0x40, 0xa3, 0x9e, 0x81, 0xf3, 0xd7, 0xfb,
    0x7c, 0xe3, 0x39, 0x82, 0x9b, 0x2f, 0xff, 0x87, 0x34, 0x8e, 0x43, 0x44, 0xc4, 0xde, 0xe9, 0xcb,
    0x54, 0x7b, 0x94, 0x32, 0xa6, 0xc2, 0x23, 0x3d, 0xee, 0x4c, 0x95, 0x0b, 0x42, 0xfa, 0xc3, 0x4e,
    0x08, 0x2e, 0xa1, 0x66, 0x28, 0xd9, 0x24, 0xb2, 0x76, 0x5b, 0xa2, 0x49, 0x6d, 0x8b, 0xd1, 0x25,
    0x72, 0xf8, 0xf6, 0x64, 0x86, 0x68, 0x98, 0x16, 0xd4, 0xa4, 0x5c, 0xcc, 0x5d, 0x65, 0xb6, 0x92,
    0x6c, 0x70, 0x48, 0x50, 0xfd, 0xed, 0xb9, 0xda, 0x5e, 0x15, 0x46, 0x57, 0xa7, 0x8d, 0x9d, 0x84,
    0x90, 0xd8, 0xab, 0x00, 0x8c, 0xbc, 0xd3, 0x0a, 0xf7, 0xe4, 0x58, 0x05, 0xb8, 0xb3, 0x45, 0x06,
    0xd0, 0x2c, 0x1e, 0x8f, 0xca, 0x3f, 0x0f, 0x02, 0xc1, 0xaf, 0xbd, 0x03, 0x01, 0x13, 0x8a, 0x6b,
    0x3a, 0x91, 0x11, 0x41, 0x4f, 0x67, 0xdc, 0xea, 0x97, 0xf2, 0xcf, 0xce, 0xf0, 0xb4, 0xe6, 0x73,
    0x96, 0xac, 0x74, 0x22, 0xe7, 0xad, 0x35, 0x85, 0xe2, 0xf9, 0x37, 0xe8, 0x1c, 0x75, 0xdf, 0x6e,
    0x47, 0xf1, 0x1a, 0x71, 0x1d, 0x29, 0xc5, 0x89, 0x6f, 0xb7, 0x62, 0x0e, 0xaa, 0x18, 0xbe, 0x1b,
    0xfc, 0x56, 0x3e, 0x4b, 0xc6, 0xd2, 0x79, 0x20, 0x9a, 0xdb, 0xc0, 0xfe, 0x78, 0xcd, 0x5a, 0xf4,
    0x1f, 0xdd, 0xa8, 0x33, 0x88, 0x07, 0xc7, 0x31, 0xb1, 0x12, 0x10, 0x59, 0x27, 0x80, 0xec, 0x5f,
    0x60, 0x51, 0x7f, 0xa9, 0x19, 0xb5, 0x4a, 0x0d, 0x2d, 0xe5, 0x7a, 0x9f, 0x93, 0xc9, 0x9c, 0xef,
    0xa0, 0xe0, 0x3b, 0x4d, 0xae, 0x2a, 0xf5, 0xb0, 0xc8, 0xeb, 0xbb, 0x3c, 0x83, 0x53, 0x99, 0x61,
    0x17, 0x2b, 0x04, 0x7e, 0xba, 0x77, 0xd6, 0x26, 0xe1, 0x69, 0x14, 0x63, 0x55, 0x21, 0x0c, 0x7d]"

definition sub_bytes :: "octet list \<Rightarrow> octet list" where "sub_bytes = map (\<lambda>b. sbox ! unat b)"
definition inv_sub_bytes :: "octet list \<Rightarrow> octet list" where "inv_sub_bytes = map (\<lambda>b. inv_sbox ! unat b)"

definition shift_rows :: "octet list \<Rightarrow> octet list" where
  "shift_rows s = map (\<lambda>i. s ! i) [0, 5, 10, 15, 4, 9, 14, 3, 8, 13, 2, 7, 12, 1, 6, 11]"

definition inv_shift_rows :: "octet list \<Rightarrow> octet list" where
  "inv_shift_rows s = map (\<lambda>i. s ! i) [0, 13, 10, 7, 4, 1, 14, 11, 8, 5, 2, 15, 12, 9, 6, 3]"

text \<open>The product with x in GF(2^8).\<close>

definition xtime :: "octet \<Rightarrow> octet" where
  "xtime b = push_bit 1 b XOR (if bit b 7 then 0x1b else 0)"

fun mix_columns :: "octet list \<Rightarrow> octet list" where
  "mix_columns (a # b # c # d # s) =
     (xtime a XOR (xtime b XOR b) XOR c XOR d) #
     (a XOR xtime b XOR (xtime c XOR c) XOR d) #
     (a XOR b XOR xtime c XOR (xtime d XOR d)) #
     ((xtime a XOR a) XOR b XOR c XOR xtime d) # mix_columns s"
| "mix_columns s = s"

definition mul9 :: "octet \<Rightarrow> octet" where "mul9 b = xtime (xtime (xtime b)) XOR b"
definition mul11 :: "octet \<Rightarrow> octet" where "mul11 b = xtime (xtime (xtime b)) XOR xtime b XOR b"
definition mul13 :: "octet \<Rightarrow> octet" where "mul13 b = xtime (xtime (xtime b)) XOR xtime (xtime b) XOR b"
definition mul14 :: "octet \<Rightarrow> octet" where "mul14 b = xtime (xtime (xtime b)) XOR xtime (xtime b) XOR xtime b"

fun inv_mix_columns :: "octet list \<Rightarrow> octet list" where
  "inv_mix_columns (a # b # c # d # s) =
     (mul14 a XOR mul11 b XOR mul13 c XOR mul9 d) #
     (mul9 a XOR mul14 b XOR mul11 c XOR mul13 d) #
     (mul13 a XOR mul9 b XOR mul14 c XOR mul11 d) #
     (mul11 a XOR mul13 b XOR mul9 c XOR mul14 d) # inv_mix_columns s"
| "inv_mix_columns s = s"

definition xor_bytes :: "octet list \<Rightarrow> octet list \<Rightarrow> octet list" where "xor_bytes = map2 (XOR)"

section \<open>The rounds\<close>

fun enc_rounds :: "octet list list \<Rightarrow> octet list \<Rightarrow> octet list" where
  "enc_rounds [] s = s"
| "enc_rounds [k] s = xor_bytes k (shift_rows (sub_bytes s))"
| "enc_rounds (k # ks) s = enc_rounds ks (xor_bytes k (mix_columns (shift_rows (sub_bytes s))))"

fun dec_rounds :: "octet list list \<Rightarrow> octet list \<Rightarrow> octet list" where
  "dec_rounds [] s = s"
| "dec_rounds [k] s = inv_sub_bytes (inv_shift_rows (xor_bytes k s))"
| "dec_rounds (k # ks) s = inv_sub_bytes (inv_shift_rows (inv_mix_columns (xor_bytes k (dec_rounds ks s))))"

section \<open>The round keys\<close>

text \<open>\<open>nk\<close> is the number of words of the key. The round constant is the power of x.\<close>

definition next_word :: "nat \<Rightarrow> octet list list \<Rightarrow> octet list" where
  "next_word nk ws =
     (let i = length ws;
          t = last ws;
          t = (if i mod nk = 0 then xor_bytes (sub_bytes (tl t @ [hd t])) [(xtime ^^ (i div nk - 1)) 1, 0, 0, 0]
               else if nk > 6 \<and> i mod nk = 4 then sub_bytes t else t)
      in xor_bytes (ws ! (i - nk)) t)"

fun expand_words :: "nat \<Rightarrow> nat \<Rightarrow> octet list list \<Rightarrow> octet list list" where
  "expand_words 0 nk ws = ws"
| "expand_words (Suc n) nk ws = expand_words n nk (ws @ [next_word nk ws])"

fun chunks :: "nat \<Rightarrow> nat \<Rightarrow> 'a list \<Rightarrow> 'a list list" where
  "chunks 0 k xs = []"
| "chunks (Suc n) k xs = take k xs # chunks n k (drop k xs)"

definition round_keys :: "octet list \<Rightarrow> octet list list" where
  "round_keys key =
     (let nk = length key div 4
      in map concat (chunks (nk + 7) 4 (expand_words (4 * (nk + 7) - nk) nk (chunks nk 4 key))))"

definition encrypt_block :: "octet list \<Rightarrow> octet list \<Rightarrow> octet list" where
  "encrypt_block key s = (case round_keys key of [] \<Rightarrow> s | k # ks \<Rightarrow> enc_rounds ks (xor_bytes k s))"

definition decrypt_block :: "octet list \<Rightarrow> octet list \<Rightarrow> octet list" where
  "decrypt_block key s = (case round_keys key of [] \<Rightarrow> s | k # ks \<Rightarrow> xor_bytes k (dec_rounds ks s))"

section \<open>Decryption inverts encryption\<close>

lemma inv_sbox_table: "map (\<lambda>x. inv_sbox ! unat x) sbox = map of_nat [0..<256]"
  by code_simp

lemma sbox_length: "length sbox = 256"
  by code_simp

lemma inv_sbox_sbox: "inv_sbox ! unat (sbox ! unat b) = b"
proof -
  have b: "unat b < 256" using unsigned_less [of b, where 'a = nat] by simp
  then have "map (\<lambda>x. inv_sbox ! unat x) sbox ! unat b = inv_sbox ! unat (sbox ! unat b)"
    by (simp add: sbox_length)
  then show ?thesis using b by (simp add: inv_sbox_table del: upt.simps)
qed

lemma inv_sub_bytes [simp]: "inv_sub_bytes (sub_bytes s) = s"
  by (simp add: inv_sub_bytes_def sub_bytes_def inv_sbox_sbox map_idI)

lemma sub_bytes_length [simp]: "length (sub_bytes s) = length s"
  by (simp add: sub_bytes_def)

lemma block_nths: "length s = 16 \<Longrightarrow> map (\<lambda>i. s ! i) [0, 1, 2, 3, 4, 5, 6, 7, 8, 9, 10, 11, 12, 13, 14, 15] = s"
  by (auto simp: numeral_eq_Suc length_Suc_conv)

lemma inv_shift_rows [simp]: "length s = 16 \<Longrightarrow> inv_shift_rows (shift_rows s) = s"
  using block_nths [of s] by (simp add: inv_shift_rows_def shift_rows_def)

lemma shift_rows_length [simp]: "length (shift_rows s) = 16"
  by (simp add: shift_rows_def)

lemma xtime_xor: "xtime (a XOR b) = xtime a XOR xtime b"
  by (rule bit_word_eqI) (auto simp: xtime_def bit_simps)

lemma inv_mix_columns [simp]: "inv_mix_columns (mix_columns s) = s"
proof (induction s rule: mix_columns.induct)
  case (1 a b c d s)
  then show ?case
    by (simp add: mul9_def mul11_def mul13_def mul14_def xtime_xor xor.left_commute xor.commute xor.assoc)
qed simp_all

lemma mix_columns_length [simp]: "length (mix_columns s) = length s"
  by (induction s rule: mix_columns.induct) simp_all

lemma xor_bytes_length [simp]: "length (xor_bytes k s) = min (length k) (length s)"
  by (simp add: xor_bytes_def)

lemma xor_bytes_twice [simp]: "length k = length s \<Longrightarrow> xor_bytes k (xor_bytes k s) = s"
  by (induction k s rule: list_induct2) (simp_all add: xor_bytes_def flip: xor.assoc)

lemma rounds_inverse:
  "length s = 16 \<Longrightarrow> \<forall>k \<in> set ks. length k = 16 \<Longrightarrow> dec_rounds ks (enc_rounds ks s) = s"
  by (induction ks s rule: enc_rounds.induct) simp_all

lemma rounds_length: "length s = 16 \<Longrightarrow> \<forall>k \<in> set ks. length k = 16 \<Longrightarrow> length (enc_rounds ks s) = 16"
  by (induction ks s rule: enc_rounds.induct) simp_all

text \<open>Every round key is a block.\<close>

lemma chunks_elements: "n * k \<le> length xs \<Longrightarrow> y \<in> set (chunks n k xs) \<Longrightarrow> length y = k \<and> set y \<subseteq> set xs"
proof (induction n arbitrary: xs)
  case (Suc n)
  then have "n * k \<le> length (drop k xs)" by simp
  from Suc.IH [OF this] Suc.prems show ?case
    by (auto dest: in_set_takeD in_set_dropD)
qed simp

lemma chunks_length [simp]: "length (chunks n k xs) = n"
  by (induction n arbitrary: xs) simp_all

lemma next_word_length:
  assumes "\<forall>w \<in> set ws. length w = 4" "0 < nk" "nk \<le> length ws"
  shows "length (next_word nk ws) = 4"
proof -
  have "ws \<noteq> []" using assms by auto
  then have "length (last ws) = 4" "length (ws ! (length ws - nk)) = 4" using assms by simp_all
  then show ?thesis by (auto simp: next_word_def Let_def)
qed

lemma expand_words_words:
  "\<forall>w \<in> set ws. length w = 4 \<Longrightarrow> 0 < nk \<Longrightarrow> nk \<le> length ws \<Longrightarrow>
     (\<forall>w \<in> set (expand_words n nk ws). length w = 4) \<and> length (expand_words n nk ws) = length ws + n"
proof (induction n arbitrary: ws)
  case (Suc n)
  have "\<forall>w \<in> set (ws @ [next_word nk ws]). length w = 4" using Suc.prems next_word_length by auto
  from Suc.IH [OF this] Suc.prems show ?case by simp
qed simp

lemma concat_length: "\<forall>x \<in> set xs. length x = k \<Longrightarrow> length (concat xs) = k * length xs"
  by (induction xs) simp_all

lemma round_keys_blocks:
  assumes "length key \<in> {16, 24, 32}" "k \<in> set (round_keys key)"
  shows "length k = 16"
proof -
  obtain nk where nk_def: "nk = length key div 4" by simp
  obtain ws where ws_def: "ws = expand_words (4 * (nk + 7) - nk) nk (chunks nk 4 key)" by simp
  have nk: "0 < nk" using assms(1) nk_def by auto
  have "nk * 4 \<le> length key" unfolding nk_def by (rule div_times_less_eq_dividend)
  then have "\<forall>w \<in> set (chunks nk 4 key). length w = 4" using chunks_elements by blast
  from expand_words_words [OF this nk] have ws: "\<forall>w \<in> set ws. length w = 4" "length ws = (nk + 7) * 4"
    by (simp_all add: ws_def)
  obtain q where q: "q \<in> set (chunks (nk + 7) 4 ws)" "k = concat q"
    using assms(2) by (auto simp: round_keys_def Let_def ws_def nk_def)
  have "length q = 4" "set q \<subseteq> set ws" using chunks_elements [OF _ q(1)] ws(2) by simp_all
  moreover have "\<forall>w \<in> set q. length w = 4" using calculation(2) ws(1) by blast
  ultimately show ?thesis using concat_length [of q 4] q(2) by simp
qed

lemma decrypt_encrypt_block:
  assumes "length key \<in> {16, 24, 32}" "length s = 16"
  shows "decrypt_block key (encrypt_block key s) = s" "length (encrypt_block key s) = 16"
proof -
  have "\<forall>k \<in> set (round_keys key). length k = 16" using round_keys_blocks [OF assms(1)] by blast
  then show "decrypt_block key (encrypt_block key s) = s" "length (encrypt_block key s) = 16"
    using assms(2) rounds_inverse rounds_length
    by (auto simp: decrypt_block_def encrypt_block_def split: list.splits)
qed

end
