(* ===== verification/Aes_Text.thy ===== *)
theory Aes_Text
  imports Aes
begin

text \<open>
  \<open>AesDecrypt\<close> and \<open>PKCS7UnPadding\<close> of \<open>pkg/util/util.go\<close>, over the packages \<open>encoding/base64\<close> and \<open>crypto/cipher\<close>
  (CBC) and the block cipher of theory Aes.
\<close>

section \<open>Base64\<close>

definition b64_alphabet :: string where
  "b64_alphabet = ''ABCDEFGHIJKLMNOPQRSTUVWXYZabcdefghijklmnopqrstuvwxyz0123456789+/''"

definition b64_decode_map :: "char \<Rightarrow> nat option" where
  "b64_decode_map c = (let i = length (takeWhile (\<lambda>x. x \<noteq> c) b64_alphabet) in if i < 64 then Some i else None)"

text \<open>Three bytes from four characters of six bits.\<close>

definition quantum :: "nat \<Rightarrow> nat \<Rightarrow> nat \<Rightarrow> nat \<Rightarrow> octet list" where
  "quantum i j k l =
     (let v = i * 262144 + j * 4096 + k * 64 + l in [of_nat (v div 65536), of_nat (v div 256), of_nat v])"

text \<open>
  \<open>DecodeString\<close> returns what it has decoded up to the first error, and \<open>AesDecrypt\<close> ignores the error: decoding stops
  at a character outside the alphabet, at padding, and at an incomplete group.
\<close>

fun decode_quanta :: "string \<Rightarrow> octet list" where
  "decode_quanta (a # b # c # d # rest) =
     (case (b64_decode_map a, b64_decode_map b) of
        (Some i, Some j) \<Rightarrow>
          (case (b64_decode_map c, b64_decode_map d) of
             (Some k, Some l) \<Rightarrow> quantum i j k l @ decode_quanta rest
           | (Some k, None) \<Rightarrow> if d = CHR ''='' then take 2 (quantum i j k 0) else []
           | (None, _) \<Rightarrow> if c = CHR ''='' \<and> d = CHR ''='' then take 1 (quantum i j 0 0) else [])
      | _ \<Rightarrow> [])"
| "decode_quanta _ = []"

text \<open>Line breaks are skipped.\<close>

definition base64_decode :: "string \<Rightarrow> octet list" where
  "base64_decode s = decode_quanta (filter (\<lambda>c. c \<noteq> CHR 0x0A \<and> c \<noteq> CHR 0x0D) s)"

section \<open>Decryption\<close>

fun cbc_blocks :: "(octet list \<Rightarrow> octet list) \<Rightarrow> octet list \<Rightarrow> octet list list \<Rightarrow> octet list" where
  "cbc_blocks blk iv [] = []"
| "cbc_blocks blk iv (c # cs) = xor_bytes iv (blk c) @ cbc_blocks blk c cs"

definition CryptBlocks :: "octet list \<Rightarrow> octet list \<Rightarrow> octet list \<Rightarrow> octet list res" where
  "CryptBlocks key iv src =
     (if length src mod 16 \<noteq> 0 then Panic ''crypto/cipher: input not full blocks''
      else Ok (cbc_blocks (decrypt_block key) iv (chunks (length src div 16) 16 src)))"

definition PKCS7UnPadding :: "octet list \<Rightarrow> octet list res" where
  "PKCS7UnPadding origData =
     (let n = length origData in
      if n = 0 then Panic ''runtime error: index out of range [-1]''
      else
        (let unpadding = unat (origData ! (n - 1)) in
         if unpadding > n then Panic ''runtime error: slice bounds out of range''
         else Ok (take (n - unpadding) origData)))"

definition bytes_of :: "string \<Rightarrow> octet list" where "bytes_of = map (\<lambda>c. of_nat (of_char c))"
definition string_of :: "octet list \<Rightarrow> string" where "string_of = map (\<lambda>b. char_of (unat b))"

text \<open>The error of \<open>NewCipher\<close> is ignored: with a key of another length the cipher is nil.\<close>

definition AesDecrypt :: "string \<Rightarrow> string \<Rightarrow> string res" where
  "AesDecrypt cryted key =
     (let crytedByte = base64_decode cryted;
          k = bytes_of key
      in if length k \<noteq> 16 \<and> length k \<noteq> 24 \<and> length k \<noteq> 32 then
           Panic ''runtime error: invalid memory address or nil pointer dereference''
         else
           (case CryptBlocks k (take 16 k) crytedByte of
              Ok orig \<Rightarrow>
                (case PKCS7UnPadding orig of
                   Ok orig \<Rightarrow> Ok (string_of orig)
                 | Err e \<Rightarrow> Err e
                 | Panic p \<Rightarrow> Panic p)
            | Err e \<Rightarrow> Err e
            | Panic p \<Rightarrow> Panic p))"

section \<open>Encryption, as its callers must do it\<close>

fun base64_encode :: "octet list \<Rightarrow> string" where
  "base64_encode (a # b # c # rest) =
     (let v = unat a * 65536 + unat b * 256 + unat c in
      [b64_alphabet ! (v div 262144), b64_alphabet ! (v div 4096 mod 64), b64_alphabet ! (v div 64 mod 64),
       b64_alphabet ! (v mod 64)] @ base64_encode rest)"
| "base64_encode [a, b] =
     (let v = unat a * 65536 + unat b * 256 in
      [b64_alphabet ! (v div 262144), b64_alphabet ! (v div 4096 mod 64), b64_alphabet ! (v div 64 mod 64), CHR ''=''])"
| "base64_encode [a] =
     (let v = unat a * 65536 in [b64_alphabet ! (v div 262144), b64_alphabet ! (v div 4096 mod 64), CHR ''='', CHR ''=''])"
| "base64_encode [] = ''''"

fun cbc_encrypt :: "(octet list \<Rightarrow> octet list) \<Rightarrow> octet list \<Rightarrow> octet list list \<Rightarrow> octet list list" where
  "cbc_encrypt enc iv [] = []"
| "cbc_encrypt enc iv (p # ps) = (let c = enc (xor_bytes iv p) in c # cbc_encrypt enc c ps)"

definition pad :: "octet list \<Rightarrow> octet list" where
  "pad bs = (let n = 16 - length bs mod 16 in bs @ replicate n (of_nat n))"

definition AesEncrypt :: "string \<Rightarrow> string \<Rightarrow> string" where
  "AesEncrypt s key =
     (let k = bytes_of key; bs = pad (bytes_of s)
      in base64_encode (concat (cbc_encrypt (encrypt_block k) (take 16 k) (chunks (length bs div 16) 16 bs))))"

section \<open>Decryption inverts encryption\<close>

lemma b64_length: "length b64_alphabet = 64"
  by (simp add: b64_alphabet_def)

lemma b64_table: "map b64_decode_map b64_alphabet = map Some [0..<64]"
  by code_simp

lemma b64_decode [simp]: "i < 64 \<Longrightarrow> b64_decode_map (b64_alphabet ! i) = Some i"
  using arg_cong [OF b64_table, of "\<lambda>xs. xs ! i"] by (simp add: b64_length del: upt.simps)

lemma b64_pad [simp]: "b64_decode_map CHR ''='' = None"
  by code_simp

lemma b64_no_break: "list_all (\<lambda>c. c \<noteq> CHR 0x0A \<and> c \<noteq> CHR 0x0D) b64_alphabet"
  by code_simp

lemma b64_char [simp]: "i < 64 \<Longrightarrow> b64_alphabet ! i \<noteq> CHR 0x0A" "i < 64 \<Longrightarrow> b64_alphabet ! i \<noteq> CHR 0x0D"
  using b64_no_break by (auto simp: list_all_length b64_length)

lemma octet_less: "unat (b :: octet) < 256"
  using unsigned_less [of b, where 'a = nat] by simp

lemma quantum_groups:
  assumes "v < 16777216"
  shows "quantum (v div 262144) (v div 4096 mod 64) (v div 64 mod 64) (v mod 64)
    = [of_nat (v div 65536), of_nat (v div 256), of_nat v]"
proof -
  have "v div 262144 * 64 + v div 4096 mod 64 = v div 4096" "v div 4096 * 64 + v div 64 mod 64 = v div 64"
    using div_mult_mod_eq [of "v div 4096" 64] div_mult_mod_eq [of "v div 64" 64]
    by (simp_all only: div_mult2_eq [symmetric]) simp_all
  then have "v div 262144 * 262144 + v div 4096 mod 64 * 4096 + v div 64 mod 64 * 64 + v mod 64 = v"
    using div_mult_mod_eq [of v 64] by linarith
  then show ?thesis by (simp add: quantum_def Let_def)
qed

lemma byte_of: "(of_nat (n * 256 + unat b) :: octet) = b"
proof -
  have "of_nat 256 = (0 :: octet)" using word_exp_length_eq_0 [where 'a = 8] by simp
  then show ?thesis by (simp only: of_nat_add of_nat_mult mult_zero_right add_0_left of_nat_unat ucast_id)
qed

lemma unat_of: "(of_nat (unat b) :: octet) = b"
  by simp

lemma group_bytes:
  fixes a b c :: octet
  defines "v \<equiv> unat a * 65536 + unat b * 256 + unat c"
  shows "v < 16777216" "[of_nat (v div 65536), of_nat (v div 256), of_nat v] = [a, b, c]"
proof -
  note less = octet_less [of a] octet_less [of b] octet_less [of c]
  then show "v < 16777216" by (simp add: v_def)
  have "v div 65536 = unat a" "v div 256 = unat a * 256 + unat b" using less by (simp_all add: v_def)
  moreover have "v = (unat a * 256 + unat b) * 256 + unat c" by (simp add: v_def)
  ultimately show "[of_nat (v div 65536), of_nat (v div 256), of_nat v] = [a, b, c]" by (simp only: byte_of unat_of simp_thms)
qed

lemma decode_groups:
  assumes "v < 16777216"
  shows "b64_decode_map (b64_alphabet ! (v div 262144)) = Some (v div 262144)"
  using assms by (intro b64_decode) (simp add: less_mult_imp_div_less)

lemma decode_group:
  assumes "v < 16777216"
  shows "decode_quanta (b64_alphabet ! (v div 262144) # b64_alphabet ! (v div 4096 mod 64) #
      b64_alphabet ! (v div 64 mod 64) # b64_alphabet ! (v mod 64) # rest)
    = [of_nat (v div 65536), of_nat (v div 256), of_nat v] @ decode_quanta rest"
  by (simp add: decode_groups [OF assms] quantum_groups [OF assms])

lemma decode_padded:
  assumes "v < 16777216" "v mod 64 = 0"
  shows "decode_quanta [b64_alphabet ! (v div 262144), b64_alphabet ! (v div 4096 mod 64),
      b64_alphabet ! (v div 64 mod 64), CHR ''=''] = [of_nat (v div 65536), of_nat (v div 256)]"
    and "v div 64 mod 64 = 0 \<Longrightarrow> decode_quanta [b64_alphabet ! (v div 262144), b64_alphabet ! (v div 4096 mod 64),
      CHR ''='', CHR ''=''] = [of_nat (v div 65536)]"
  using quantum_groups [OF assms(1)] assms(2) by (simp_all add: decode_groups [OF assms(1)])

lemma decode_encode: "decode_quanta (base64_encode bs) = bs"
proof (induction bs rule: base64_encode.induct)
  case (1 a b c rest)
  note g = group_bytes [of a b c]
  show ?case unfolding base64_encode.simps Let_def append.simps decode_group [OF g(1)] g(2) using 1 by simp
next
  case (2 a b)
  note g = group_bytes [of a b 0, unfolded unsigned_0 add_0_right]
  have "(unat a * 65536 + unat b * 256) mod 64 = 0" by (simp add: mod_add_eq [symmetric] mod_mult_right_eq [symmetric])
  then show ?case unfolding base64_encode.simps Let_def using decode_padded(1) [OF g(1)] g(2) by simp
next
  case (3 a)
  note g = group_bytes [of a 0 0, unfolded unsigned_0 add_0_right mult_zero_left]
  have "unat a * 65536 mod 64 = 0" "unat a * 65536 div 64 mod 64 = 0"
    by (simp_all add: mod_mult_right_eq [symmetric] div_mult_swap [symmetric])
  then show ?case unfolding base64_encode.simps Let_def using decode_padded(2) [OF g(1)] g(2) by simp
qed simp

lemma encode_no_break: "c \<in> set (base64_encode bs) \<Longrightarrow> c \<noteq> CHR 0x0A \<and> c \<noteq> CHR 0x0D"
proof (induction bs rule: base64_encode.induct)
  case (1 a b c rest)
  then show ?case using group_bytes(1) [of a b c] by (auto simp: Let_def less_mult_imp_div_less)
next
  case (2 a b)
  then show ?case using group_bytes(1) [of a b 0] by (auto simp: Let_def less_mult_imp_div_less)
next
  case (3 a)
  then show ?case using group_bytes(1) [of a 0 0] by (auto simp: Let_def less_mult_imp_div_less)
qed simp

lemma base64_roundtrip: "base64_decode (base64_encode bs) = bs"
proof -
  have "filter (\<lambda>c. c \<noteq> CHR 0x0A \<and> c \<noteq> CHR 0x0D) (base64_encode bs) = base64_encode bs"
    by (rule filter_True) (use encode_no_break in blast)
  then show ?thesis by (simp add: base64_decode_def decode_encode)
qed

lemma cbc_roundtrip:
  assumes "\<And>s. length s = 16 \<Longrightarrow> blk (enc s) = s \<and> length (enc s) = 16"
  shows "length iv = 16 \<Longrightarrow> \<forall>p \<in> set ps. length p = 16 \<Longrightarrow> cbc_blocks blk iv (cbc_encrypt enc iv ps) = concat ps"
proof (induction ps arbitrary: iv)
  case (Cons p ps)
  then show ?case using assms [of "xor_bytes iv p"] by (simp add: Let_def)
qed simp

lemma cbc_encrypt_blocks:
  assumes "\<And>s. length s = 16 \<Longrightarrow> length (enc s) = 16"
  shows "length iv = 16 \<Longrightarrow> \<forall>p \<in> set ps. length p = 16 \<Longrightarrow> c \<in> set (cbc_encrypt enc iv ps) \<Longrightarrow> length c = 16"
proof (induction ps arbitrary: iv)
  case (Cons p ps)
  then show ?case using assms [of "xor_bytes iv p"] by (auto simp: Let_def)
qed simp

lemma cbc_encrypt_length [simp]: "length (cbc_encrypt enc iv ps) = length ps"
  by (induction ps arbitrary: iv) (simp_all add: Let_def)

lemma chunks_concat: "\<forall>x \<in> set xs. length x = k \<Longrightarrow> chunks (length xs) k (concat xs) = xs"
  by (induction xs) simp_all

lemma concat_chunks: "length xs = n * k \<Longrightarrow> concat (chunks n k xs) = xs"
  by (induction n arbitrary: xs) simp_all

lemma CryptBlocks_encrypted:
  assumes "length k \<in> {16, 24, 32}" "length iv = 16" "length bs mod 16 = 0"
  shows "CryptBlocks k iv (concat (cbc_encrypt (encrypt_block k) iv (chunks (length bs div 16) 16 bs))) = Ok bs"
proof -
  obtain n where n: "length bs = n * 16" using assms(3) by (metis dvd_def mod_0_imp_dvd mult.commute)
  obtain ps where ps_def: "ps = chunks n 16 bs" by simp
  obtain cs where cs_def: "cs = cbc_encrypt (encrypt_block k) iv ps" by simp
  note blk = decrypt_encrypt_block [OF assms(1)]
  have "n * 16 \<le> length bs" using n by simp
  then have ps: "\<forall>p \<in> set ps. length p = 16" unfolding ps_def using chunks_elements by blast
  then have cs: "\<forall>c \<in> set cs. length c = 16" unfolding cs_def using cbc_encrypt_blocks [where enc = "encrypt_block k", OF blk(2) assms(2)] by blast
  have len: "length (concat cs) = 16 * length cs" by (rule concat_length [OF cs])
  have "cbc_blocks (decrypt_block k) iv cs = bs"
    using cbc_roundtrip [OF _ assms(2) ps, of "decrypt_block k" "encrypt_block k"] blk concat_chunks [OF n]
    by (simp add: cs_def ps_def)
  then have "CryptBlocks k iv (concat cs) = Ok bs" by (simp add: CryptBlocks_def len chunks_concat [OF cs])
  then show ?thesis by (simp add: cs_def ps_def n)
qed

text \<open>Padding is taken off again; without data it panics.\<close>

lemma PKCS7UnPadding_padded:
  assumes "0 < n" "n < 256"
  shows "PKCS7UnPadding (data @ replicate n (of_nat n)) = Ok data"
proof -
  have "length data + n - 1 = length data + (n - 1)" using assms by simp
  then have "(data @ replicate n (of_nat n)) ! (length data + n - 1) = (of_nat n :: octet)"
    using assms by (simp only: nth_append_length_plus) simp
  moreover have "unat (of_nat n :: octet) = n" using assms(2) by (simp add: unat_of_nat)
  ultimately show ?thesis using assms by (simp add: PKCS7UnPadding_def Let_def)
qed

lemma pad_length: "length (pad bs) mod 16 = 0" "PKCS7UnPadding (pad bs) = Ok bs"
proof -
  have n: "0 < 16 - length bs mod 16" "16 - length bs mod 16 < 256" by simp_all
  show "length (pad bs) mod 16 = 0" by (simp add: pad_def) presburger
  show "PKCS7UnPadding (pad bs) = Ok bs" unfolding pad_def Let_def by (rule PKCS7UnPadding_padded [OF n])
qed

lemma string_bytes: "string_of (bytes_of s) = s"
proof -
  have "unat (of_nat (of_char c) :: octet) = of_char c" for c by (simp add: unat_of_nat)
  then have "char_of (unat (of_nat (of_char c) :: octet)) = c" for c by (simp only: char_of_char)
  then show ?thesis by (simp add: string_of_def bytes_of_def map_idI)
qed

section \<open>The round trip\<close>

text \<open>
  A text encrypted with AES in CBC mode, with PKCS 7 padding and the first 16 bytes of the key as initial vector,
  and written in base64, is decrypted to itself, for every key of 16, 24 or 32 bytes and whatever bytes the text holds.
\<close>

lemma AesDecrypt_roundtrip:
  assumes "length key = 16 \<or> length key = 24 \<or> length key = 32"
  shows "AesDecrypt (AesEncrypt s key) key = Ok s"
proof -
  let ?k = "bytes_of key" and ?bs = "pad (bytes_of s)"
  let ?cs = "cbc_encrypt (encrypt_block ?k) (take 16 ?k) (chunks (length ?bs div 16) 16 ?bs)"
  have key: "length ?k \<in> {16, 24, 32}" using assms by (simp add: bytes_of_def)
  then have iv: "length (take 16 ?k) = 16" by auto
  have "CryptBlocks ?k (take 16 ?k) (concat ?cs) = Ok ?bs"
    by (rule CryptBlocks_encrypted [OF key iv pad_length(1)])
  then show ?thesis
    using key pad_length(2) [of "bytes_of s"]
    by (auto simp: AesDecrypt_def AesEncrypt_def Let_def base64_roundtrip string_bytes)
qed

lemma AesDecrypt_example:
  "AesDecrypt (AesEncrypt ''secret'' ''0123456789abcdef'') ''0123456789abcdef'' = Ok ''secret''"
  by (rule AesDecrypt_roundtrip) simp

text \<open>It returns an error in no case: what it cannot decrypt is a panic.\<close>

lemma AesDecrypt_fails_by_panic: "AesDecrypt cryted key \<noteq> Err e"
  by (simp add: AesDecrypt_def CryptBlocks_def PKCS7UnPadding_def Let_def split: res.split)

lemma AesDecrypt_bad_key:
  "length key \<notin> {16, 24, 32} \<Longrightarrow> is_panic (AesDecrypt cryted key)"
  by (simp add: AesDecrypt_def bytes_of_def)

end
