(* ===== verification/Tun_Device.thy ===== *)
theory Tun_Device
  imports Prelude
begin

text \<open>
  \<open>pkg/util/ip/tun_posix.go\<close>: opening a tunnel device. The file system and the system call are parameters; the kernel
  may change the name in the request, and \<open>OpenTun\<close> returns what it finds there.
\<close>

definition tunDevice :: string where "tunDevice = ''/dev/net/tun''"
definition ifnameSize :: nat where "ifnameSize = 16"

record ifreqFlags =
  IfrnName :: string
  IfruFlags :: "16 word"

definition TUNSETIFF :: "64 word" where "TUNSETIFF = 0x400454ca"
definition IFF_TUN :: "16 word" where "IFF_TUN = 1"
definition IFF_NO_PI :: "16 word" where "IFF_NO_PI = 0x1000"

unbundle bit_operations_syntax

text \<open>The system call answers with an error number, zero for success, and the request as the kernel leaves it.\<close>

type_synonym ('f, 'w) ioctl_call = "'f \<Rightarrow> 64 word \<Rightarrow> ifreqFlags \<Rightarrow> 'w \<Rightarrow> 64 word \<times> ifreqFlags \<times> 'w"

definition ioctl ::
  "('f, 'w) ioctl_call \<Rightarrow> (64 word \<Rightarrow> string) \<Rightarrow> 'f \<Rightarrow> 64 word \<Rightarrow> ifreqFlags \<Rightarrow> ('w, ifreqFlags) eff" where
  "ioctl syscall errno_text fd request argp w =
     (let (errno, arg, w') = syscall fd request argp w in
      if errno \<noteq> 0 then (Err (ErrorString (''ioctl failed with '' @ [CHR 0x27] @ errno_text errno @ [CHR 0x27])), w')
      else (Ok arg, w'))"

definition fromZeroTerm :: "string \<Rightarrow> string" where
  "fromZeroTerm s = rev (dropWhile (\<lambda>c. c = CHR 0x00) (rev s))"

text \<open>\<open>copy\<close> into all but the last byte of a name of zeros.\<close>

definition ifr_name :: "string \<Rightarrow> string" where
  "ifr_name name =
     (let src = take (ifnameSize - 1) (name @ [CHR 0x00]) in src @ replicate (ifnameSize - length src) (CHR 0x00))"

definition OpenTun ::
  "(string \<Rightarrow> ('w, 'f) eff) \<Rightarrow> ('f, 'w) ioctl_call \<Rightarrow> (64 word \<Rightarrow> string) \<Rightarrow> string \<Rightarrow> ('w, 'f \<times> string) eff" where
  "OpenTun open_file syscall errno_text name =
     on_res (open_file tunDevice)
       (\<lambda>tun. on_res (ioctl syscall errno_text tun TUNSETIFF
                 \<lparr>IfrnName = ifr_name name, IfruFlags = IFF_TUN OR IFF_NO_PI\<rparr>)
          (\<lambda>ifr w. (Ok (tun, fromZeroTerm (take ifnameSize (IfrnName ifr))), w))
          (\<lambda>err w. (Err err, w)))
       (\<lambda>err w. (Err err, w))"

section \<open>Facts\<close>

lemma ifr_name_length: "length (ifr_name name) = ifnameSize"
proof -
  have "length (take (ifnameSize - 1) s) + (ifnameSize - length (take (ifnameSize - 1) s)) = ifnameSize" for s :: string
    by (rule le_add_diff_inverse) (simp add: min_le_iff_disj)
  then show ?thesis unfolding ifr_name_def Let_def length_append length_replicate .
qed

lemma fromZeroTerm_padded:
  assumes "CHR 0x00 \<notin> set s"
  shows "fromZeroTerm (s @ replicate n (CHR 0x00)) = s"
proof -
  have "dropWhile (\<lambda>c. c = CHR 0x00) (replicate n (CHR 0x00) @ rev s) = dropWhile (\<lambda>c. c = CHR 0x00) (rev s)"
    by (induction n) simp_all
  moreover have "CHR 0x00 \<notin> set (rev s)" using assms by simp
  then have "dropWhile (\<lambda>c. c = CHR 0x00) (rev s) = rev s" by (cases "rev s") auto
  ultimately show ?thesis by (simp add: fromZeroTerm_def)
qed

text \<open>The kernel is asked for the first 15 bytes of the name.\<close>

lemma ifr_name_text:
  assumes "CHR 0x00 \<notin> set name"
  shows "\<exists>n. ifr_name name = take 15 name @ replicate n (CHR 0x00)"
proof (cases "length name < 15")
  case True
  then have "ifr_name name = take 15 name @ replicate (16 - length name) (CHR 0x00)"
    by (simp add: ifr_name_def ifnameSize_def Let_def min_def Suc_diff_le flip: replicate_Suc)
  then show ?thesis by blast
next
  case False
  then show ?thesis by (intro exI [of _ 1]) (simp add: ifr_name_def ifnameSize_def Let_def)
qed

text \<open>With a kernel that keeps the name the device has the first 15 bytes of it.\<close>

lemma OpenTun_name:
  assumes "open_file tunDevice w = (Ok f, w1)" "\<And>r a. syscall f r a w1 = (0, a, w2)" "CHR 0x00 \<notin> set name"
  shows "OpenTun open_file syscall errno_text name w = (Ok (f, take 15 name), w2)"
proof -
  obtain n where n: "ifr_name name = take 15 name @ replicate n (CHR 0x00)" using ifr_name_text [OF assms(3)] by blast
  have "CHR 0x00 \<notin> set (take 15 name)" using assms(3) by (auto dest: in_set_takeD)
  moreover have "take ifnameSize (ifr_name name) = ifr_name name" by (simp add: ifr_name_length)
  ultimately have "fromZeroTerm (take ifnameSize (ifr_name name)) = take 15 name"
    using fromZeroTerm_padded [of "take 15 name" n] n by simp
  then show ?thesis using assms(1,2) by (simp add: OpenTun_def ioctl_def on_res_def)
qed

text \<open>When the call fails the file stays open: nobody has it.\<close>

lemma OpenTun_leaks:
  assumes "open_file tunDevice w = (Ok f, w1)" "\<And>r a. syscall f r a w1 = (errno, a, w2)" "errno \<noteq> 0"
  shows "\<exists>e. OpenTun open_file syscall errno_text name w = (Err e, w2)"
  using assms by (simp add: OpenTun_def ioctl_def on_res_def)

end
