(* ===== verification/Iface.thy ===== *)
theory Iface
  imports Net_Facts
begin

text \<open>
  Interfaces and their addresses: \<open>pkg/util/ip/iface.go\<close>. What the kernel answers (\<open>netlink.AddrList\<close>,
  \<open>netlink.RouteList\<close>, \<open>net.Interfaces\<close>, \<open>net.InterfaceByIndex\<close>) is an argument.
\<close>

section \<open>Kinds of addresses in Go's net package\<close>

definition IP_Equal :: "ip \<Rightarrow> ip \<Rightarrow> bool" where
  "IP_Equal ip x =
     (if length ip = length x then ip = x
      else if length ip = 4 \<and> length x = 16 then take 12 x = v4InV6Prefix \<and> ip = drop 12 x
      else if length ip = 16 \<and> length x = 4 then take 12 ip = v4InV6Prefix \<and> drop 12 ip = x
      else False)"

definition IsUnspecified :: "ip \<Rightarrow> bool" where
  "IsUnspecified ip = (IP_Equal ip (IPv4 0 0 0 0) \<or> IP_Equal ip (replicate 16 0))"

definition IsLoopback :: "ip \<Rightarrow> bool" where
  "IsLoopback ip = (if To4 ip \<noteq> [] then To4 ip ! 0 = 127 else IP_Equal ip (replicate 15 0 @ [1]))"

definition IsMulticast :: "ip \<Rightarrow> bool" where
  "IsMulticast ip = (if To4 ip \<noteq> [] then and (To4 ip ! 0) 0xF0 = 0xE0 else length ip = 16 \<and> ip ! 0 = 0xFF)"

definition IsLinkLocalUnicast :: "ip \<Rightarrow> bool" where
  "IsLinkLocalUnicast ip =
     (if To4 ip \<noteq> [] then To4 ip ! 0 = 169 \<and> To4 ip ! 1 = 254
      else length ip = 16 \<and> ip ! 0 = 0xFE \<and> and (ip ! 1) 0xC0 = 0x80)"

definition IsGlobalUnicast :: "ip \<Rightarrow> bool" where
  "IsGlobalUnicast ip =
     ((length ip = 4 \<or> length ip = 16) \<and> \<not> IP_Equal ip (IPv4 255 255 255 255) \<and> \<not> IsUnspecified ip \<and>
      \<not> IsLoopback ip \<and> \<not> IsMulticast ip \<and> \<not> IsLinkLocalUnicast ip)"

section \<open>The code\<close>

record Interface =
  if_Index :: int
  if_Name :: string

record KernelRoute =
  kr_Dst :: "IPNet option"
  kr_LinkIndex :: int

type_synonym addr_list = "int \<Rightarrow> ip list res"

definition getIfaceAddrs :: "addr_list \<Rightarrow> Interface \<Rightarrow> ip list res" where
  "getIfaceAddrs AddrList iface = AddrList (if_Index iface)"

definition no_address :: gerror where "no_address = ErrorString ''No IPv4 address found for given interface''"

fun prefer_global :: "ip \<Rightarrow> ip list \<Rightarrow> ip res" where
  "prefer_global ll [] = (if ll \<noteq> [] then Ok ll else Err no_address)"
| "prefer_global ll (addr # addrs) =
     (if To4 addr = [] then prefer_global ll addrs
      else if IsGlobalUnicast addr then Ok addr
      else if IsLinkLocalUnicast addr then prefer_global addr addrs
      else prefer_global ll addrs)"

definition GetIfaceIP4Addr :: "addr_list \<Rightarrow> Interface \<Rightarrow> ip res" where
  "GetIfaceIP4Addr AddrList iface =
     (case getIfaceAddrs AddrList iface of
        Ok addrs \<Rightarrow> prefer_global [] addrs
      | Err err \<Rightarrow> Err err
      | Panic p \<Rightarrow> Panic p)"

definition GetIfaceIP4AddrMatch :: "addr_list \<Rightarrow> Interface \<Rightarrow> ip \<Rightarrow> unit res" where
  "GetIfaceIP4AddrMatch AddrList iface matchAddr =
     (case getIfaceAddrs AddrList iface of
        Ok addrs \<Rightarrow>
          (if list_ex (\<lambda>addr. To4 addr \<noteq> [] \<and> IP_Equal (To4 addr) matchAddr) addrs then Ok () else Err no_address)
      | Err err \<Rightarrow> Err err
      | Panic p \<Rightarrow> Panic p)"

fun default_route :: "(int \<Rightarrow> Interface res) \<Rightarrow> KernelRoute list \<Rightarrow> Interface res" where
  "default_route byIndex [] = Err (ErrorString ''Unable to find default route'')"
| "default_route byIndex (route # routes) =
     (if (case kr_Dst route of None \<Rightarrow> True | Some dst \<Rightarrow> IPNet_String dst = ''0.0.0.0/0'') then
        (if kr_LinkIndex route \<le> 0 then Err (ErrorString ''Found default route but could not determine interface'')
         else byIndex (kr_LinkIndex route))
      else default_route byIndex routes)"

definition GetDefaultGatewayIface :: "KernelRoute list res \<Rightarrow> (int \<Rightarrow> Interface res) \<Rightarrow> Interface res" where
  "GetDefaultGatewayIface routes byIndex =
     (case routes of Ok rs \<Rightarrow> default_route byIndex rs | Err err \<Rightarrow> Err err | Panic p \<Rightarrow> Panic p)"

fun first_match :: "addr_list \<Rightarrow> ip \<Rightarrow> Interface list \<Rightarrow> Interface res" where
  "first_match AddrList ip [] = Err (ErrorString ''No interface with given IP found'')"
| "first_match AddrList ip (iface # ifaces) =
     (case GetIfaceIP4AddrMatch AddrList iface ip of
        Ok _ \<Rightarrow> Ok iface
      | Err _ \<Rightarrow> first_match AddrList ip ifaces
      | Panic p \<Rightarrow> Panic p)"

definition GetInterfaceByIP :: "Interface list res \<Rightarrow> addr_list \<Rightarrow> ip \<Rightarrow> Interface res" where
  "GetInterfaceByIP ifaces AddrList ip =
     (case ifaces of Ok is \<Rightarrow> first_match AddrList ip is | Err err \<Rightarrow> Err err | Panic p \<Rightarrow> Panic p)"

section \<open>Facts\<close>

text \<open>The first global address is taken, without one the last link-local address.\<close>

lemma prefer_global_spec:
  "prefer_global ll addrs =
     (case filter (\<lambda>a. To4 a \<noteq> [] \<and> IsGlobalUnicast a) addrs of
        a # _ \<Rightarrow> Ok a
      | [] \<Rightarrow>
          (let lls = filter (\<lambda>a. To4 a \<noteq> [] \<and> IsLinkLocalUnicast a) addrs in
           if lls \<noteq> [] then Ok (last lls) else if ll \<noteq> [] then Ok ll else Err no_address))"
proof (induction ll addrs rule: prefer_global.induct)
  case (2 ll a as)
  have "a \<noteq> []" if "To4 a \<noteq> []" using that by (auto simp: To4_def)
  then show ?case using 2 by (auto simp: Let_def split: list.splits)
qed simp

text \<open>So the address is IPv4, one of the interface, and neither loopback nor multicast.\<close>

lemma GetIfaceIP4Addr_Ok:
  assumes "AddrList (if_Index iface) = Ok addrs" "GetIfaceIP4Addr AddrList iface = Ok a"
  shows "a \<in> set addrs \<and> To4 a \<noteq> [] \<and> (IsGlobalUnicast a \<or> IsLinkLocalUnicast a)"
proof -
  have "prefer_global [] addrs = Ok a" using assms by (simp add: GetIfaceIP4Addr_def getIfaceAddrs_def)
  then consider "\<exists>as. filter (\<lambda>a. To4 a \<noteq> [] \<and> IsGlobalUnicast a) addrs = a # as"
    | "filter (\<lambda>a. To4 a \<noteq> [] \<and> IsLinkLocalUnicast a) addrs \<noteq> []"
      "a = last (filter (\<lambda>a. To4 a \<noteq> [] \<and> IsLinkLocalUnicast a) addrs)"
    unfolding prefer_global_spec by (auto simp: Let_def split: list.splits if_splits)
  then show ?thesis
  proof cases
    case 1
    then have "a \<in> set (filter (\<lambda>a. To4 a \<noteq> [] \<and> IsGlobalUnicast a) addrs)" by (metis list.set_intros(1))
    then show ?thesis by simp
  next
    case 2
    then have "a \<in> set (filter (\<lambda>a. To4 a \<noteq> [] \<and> IsLinkLocalUnicast a) addrs)" using last_in_set by blast
    then show ?thesis by simp
  qed
qed

text \<open>An interface is found exactly when one has the address; errors of single interfaces are skipped.\<close>

lemma first_match_Ok:
  "first_match AddrList ip ifaces = Ok i \<Longrightarrow> i \<in> set ifaces \<and> GetIfaceIP4AddrMatch AddrList i ip = Ok ()"
  by (induction AddrList ip ifaces rule: first_match.induct) (auto split: res.splits)

end
