(* ===== verification/Startup.thy ===== *)
theory Startup
  imports Route_Controller Server_Client
begin

text \<open>
  How the manager starts: \<open>cmd/manager/main.go\<close>, \<open>pkg/config\<close>, \<open>pkg/controller/controller.go\<close> and the construction
  of the reconciler in \<open>route_controller.go\<close>. The flag parser and controller-runtime are the fields of \<open>boot\<close>.
\<close>

section \<open>Configuration\<close>

text \<open>Durations are nanoseconds, \<open>QPS\<close> is given in thousandths.\<close>

definition Second :: int where "Second = 1000000000"
definition Minute :: int where "Minute = 60 * Second"

datatype flag = FStr string | FBool bool | FDur int | FMilli int | FInt int | FStrs "string list"

type_synonym flag_set = "(string \<times> flag) list"

record RuntimeConfig =
  rc_MetricsBindAddress :: string
  rc_HealthProbeBindAddress :: string
  rc_LeaderElect :: bool
  rc_LeaderElectLeaseDuration :: int
  rc_LeaderElectRenewDeadline :: int
  rc_LeaderElectRetryPeriod :: int
  rc_LeaderElectResourceLock :: string
  rc_LeaderElectResourceName :: string
  rc_LeaderElectResourceNamespace :: string
  rc_SyncPeriod :: int
  rc_QPS :: int
  rc_Burst :: int

record ControllerConfig =
  cc_RouteReconciliationPeriod :: int
  cc_Controllers :: "string list"
  cc_RuntimeConfig :: RuntimeConfig

text \<open>\<open>BindFlags\<close>: the flags with their defaults, and the configuration that the bound variables hold.\<close>

definition runtime_flags :: flag_set where
  "runtime_flags =
     [(''metrics-bind-addr'', FStr '':8080''), (''health-probe-bind-addr'', FStr '':10258''),
      (''kube-api-qps'', FMilli 20000), (''kube-api-burst'', FInt 30), (''leader-elect'', FBool True),
      (''leader-elect-lease-duration'', FDur (15 * Second)), (''leader-elect-renew-deadline'', FDur (10 * Second)),
      (''leader-elect-retry-period'', FDur (2 * Second)), (''leader-elect-resource-lock'', FStr ''leases''),
      (''leader-elect-resource-name'', FStr ''route-controller''),
      (''leader-elect-resource-namespace'', FStr ''kube-system''), (''sync-period'', FDur (60 * Minute))]"

definition controller_flags :: flag_set where
  "controller_flags = [(''controllers'', FStrs [''route'']), (''route-reconciliation-period'', FDur (5 * Minute))]
     @ runtime_flags"

definition str_of :: "flag \<Rightarrow> string" where "str_of f = (case f of FStr s \<Rightarrow> s | _ \<Rightarrow> '''')"
definition strs_of :: "flag \<Rightarrow> string list" where "strs_of f = (case f of FStrs s \<Rightarrow> s | _ \<Rightarrow> [])"
definition bool_of :: "flag \<Rightarrow> bool" where "bool_of f = (case f of FBool b \<Rightarrow> b | _ \<Rightarrow> False)"
definition num_of :: "flag \<Rightarrow> int" where "num_of f = (case f of FDur i \<Rightarrow> i | FMilli i \<Rightarrow> i | FInt i \<Rightarrow> i | _ \<Rightarrow> 0)"

definition bound_runtime :: "(string \<Rightarrow> flag) \<Rightarrow> RuntimeConfig" where
  "bound_runtime v = \<lparr>
     rc_MetricsBindAddress = str_of (v ''metrics-bind-addr''),
     rc_HealthProbeBindAddress = str_of (v ''health-probe-bind-addr''),
     rc_LeaderElect = bool_of (v ''leader-elect''),
     rc_LeaderElectLeaseDuration = num_of (v ''leader-elect-lease-duration''),
     rc_LeaderElectRenewDeadline = num_of (v ''leader-elect-renew-deadline''),
     rc_LeaderElectRetryPeriod = num_of (v ''leader-elect-retry-period''),
     rc_LeaderElectResourceLock = str_of (v ''leader-elect-resource-lock''),
     rc_LeaderElectResourceName = str_of (v ''leader-elect-resource-name''),
     rc_LeaderElectResourceNamespace = str_of (v ''leader-elect-resource-namespace''),
     rc_SyncPeriod = num_of (v ''sync-period''),
     rc_QPS = num_of (v ''kube-api-qps''),
     rc_Burst = num_of (v ''kube-api-burst'')\<rparr>"

definition bound_controller :: "(string \<Rightarrow> flag) \<Rightarrow> ControllerConfig" where
  "bound_controller v = \<lparr>
     cc_RouteReconciliationPeriod = num_of (v ''route-reconciliation-period''),
     cc_Controllers = strs_of (v ''controllers''),
     cc_RuntimeConfig = bound_runtime v\<rparr>"

definition Validate :: "ControllerConfig \<Rightarrow> ControllerConfig res" where
  "Validate cfg =
     Ok (if cc_RouteReconciliationPeriod cfg < 1 * Minute then cfg\<lparr>cc_RouteReconciliationPeriod := 1 * Minute\<rparr> else cfg)"

text \<open>\<open>parse\<close> is \<open>pflag\<close>: the values of the flags it was given, after reading the arguments.\<close>

definition LoadControllerConfig ::
  "(flag_set \<Rightarrow> string list \<Rightarrow> (string \<Rightarrow> flag) res) \<Rightarrow> string list \<Rightarrow> ControllerConfig res" where
  "LoadControllerConfig parse args =
     (case parse controller_flags args of
        Err err \<Rightarrow> Err err
      | Panic p \<Rightarrow> Panic p
      | Ok v \<Rightarrow> Validate (bound_controller v))"

record Options =
  op_MetricsBindAddress :: string
  op_HealthProbeBindAddress :: string
  op_LeaderElection :: bool
  op_LeaderElectionID :: string
  op_LeaderElectionResourceLock :: string
  op_LeaderElectionNamespace :: string
  op_LeaseDuration :: int
  op_RenewDeadline :: int
  op_RetryPeriod :: int
  op_SyncPeriod :: int

definition BuildRuntimeOptions :: "RuntimeConfig \<Rightarrow> Options" where
  "BuildRuntimeOptions rtCfg = \<lparr>
     op_MetricsBindAddress = rc_MetricsBindAddress rtCfg,
     op_HealthProbeBindAddress = rc_HealthProbeBindAddress rtCfg,
     op_LeaderElection = rc_LeaderElect rtCfg,
     op_LeaderElectionID = rc_LeaderElectResourceName rtCfg,
     op_LeaderElectionResourceLock = rc_LeaderElectResourceLock rtCfg,
     op_LeaderElectionNamespace = rc_LeaderElectResourceNamespace rtCfg,
     op_LeaseDuration = rc_LeaderElectLeaseDuration rtCfg,
     op_RenewDeadline = rc_LeaderElectRenewDeadline rtCfg,
     op_RetryPeriod = rc_LeaderElectRetryPeriod rtCfg,
     op_SyncPeriod = rc_SyncPeriod rtCfg\<rparr>"

section \<open>The reconciler and its controller\<close>

record ReconcileRoute =
  rr_reconcilePeriod :: int
  rr_configRoutes :: bool

definition defaultRouteReconciliationPeriod :: int where "defaultRouteReconciliationPeriod = 5 * Minute"

definition newReconciler :: ReconcileRoute where
  "newReconciler = \<lparr>rr_reconcilePeriod = defaultRouteReconciliationPeriod, rr_configRoutes = True\<rparr>"

record ControllerOptions =
  co_Reconciler :: ReconcileRoute
  co_MaxConcurrentReconciles :: nat
  co_RecoverPanic :: bool

text \<open>
  What start-up calls of controller-runtime. \<open>bt_go_until f period\<close> starts a goroutine that runs \<open>f\<close> now and every
  period; \<open>bt_manager\<close> gets the configured limits of the API client and the options.
\<close>

record ('w, 'c) boot =
  bt_parse :: "flag_set \<Rightarrow> string list \<Rightarrow> (string \<Rightarrow> flag) res"
  bt_manager :: "int \<Rightarrow> int \<Rightarrow> Options \<Rightarrow> ('w, unit) eff"
  bt_NewUnmanaged :: "string \<Rightarrow> ControllerOptions \<Rightarrow> ('w, 'c) eff"
  bt_Watch :: "'c \<Rightarrow> ('w, unit) eff"
  bt_Add :: "'c \<times> ReconcileRoute \<Rightarrow> ('w, unit) eff"
  bt_go_until :: "('w, unit) eff \<Rightarrow> int \<Rightarrow> 'w \<Rightarrow> 'w"
  bt_Start_controller :: "'c \<Rightarrow> ('w, unit) eff"
  bt_Start_manager :: "('w, unit) eff"

definition periodicalSync :: "('w, 'c) boot \<Rightarrow> 'w env \<Rightarrow> Globals \<Rightarrow> ReconcileRoute \<Rightarrow> 'w \<Rightarrow> 'w" where
  "periodicalSync B E G r = bt_go_until B (reconcileForCluster E G) (rr_reconcilePeriod r)"

definition controller_Start :: "('w, 'c) boot \<Rightarrow> 'w env \<Rightarrow> Globals \<Rightarrow> 'c \<times> ReconcileRoute \<Rightarrow> ('w, unit) eff" where
  "controller_Start B E G cr w =
     bt_Start_controller B (fst cr)
       (if rr_configRoutes (snd cr) then periodicalSync B E G (snd cr) w else w)"

definition add_controller :: "('w, 'c) boot \<Rightarrow> ReconcileRoute \<Rightarrow> ('w, unit) eff" where
  "add_controller B r =
     on_res (bt_NewUnmanaged B ''route-controller''
         \<lparr>co_Reconciler = r, co_MaxConcurrentReconciles = 1, co_RecoverPanic = True\<rparr>)
       (\<lambda>c. on_res (bt_Watch B c) (\<lambda>_. bt_Add B (c, r)) (\<lambda>err w. (Err err, w)))
       (\<lambda>err w. (Err err, w))"

definition Add :: "('w, 'c) boot \<Rightarrow> ('w, unit) eff" where
  "Add B = add_controller B newReconciler"

section \<open>The process\<close>

definition controllerMap :: "('w, 'c) boot \<Rightarrow> string \<Rightarrow> ('w, unit) eff option" where
  "controllerMap B = [''route'' \<mapsto> Add B]"

fun AddToManager :: "(string \<Rightarrow> ('w, unit) eff option) \<Rightarrow> string list \<Rightarrow> ('w, unit) eff" where
  "AddToManager cm [] w = (Ok (), w)"
| "AddToManager cm (cont # conts) w =
     (case cm cont of
        None \<Rightarrow> (Err (ErrorString (''cannot find controller '' @ cont)), w)
      | Some f \<Rightarrow> on_res f (\<lambda>_. AddToManager cm conts) (\<lambda>err w. (Err err, w)) w)"

text \<open>The exit code, after the manager has stopped.\<close>

definition manager_main :: "('w, 'c) boot \<Rightarrow> string list \<Rightarrow> ('w, nat) eff" where
  "manager_main B args =
     (case LoadControllerConfig (bt_parse B) args of
        Err _ \<Rightarrow> (\<lambda>w. (Ok 1, w))
      | Panic p \<Rightarrow> (\<lambda>w. (Panic p, w))
      | Ok cfg \<Rightarrow>
          on_res (bt_manager B (rc_QPS (cc_RuntimeConfig cfg)) (rc_Burst (cc_RuntimeConfig cfg))
              (BuildRuntimeOptions (cc_RuntimeConfig cfg)))
            (\<lambda>_. on_res (AddToManager (controllerMap B) (cc_Controllers cfg))
               (\<lambda>_. on_res (bt_Start_manager B) (\<lambda>_ w. (Ok 0, w)) (\<lambda>_ w. (Ok 1, w)))
               (\<lambda>_ w. (Ok 1, w)))
            (\<lambda>_ w. (Ok 1, w)))"

text \<open>
  Package \<open>ksyun\<close> is initialised before \<open>main\<close> runs: without a configuration of the network the process ends there.
\<close>

definition ksyun_init ::
  "(string \<Rightarrow> string) \<Rightarrow> (string \<Rightarrow> NeutronConfig res) \<Rightarrow> string \<Rightarrow> ('w, nat) eff \<Rightarrow> ('w, nat) eff" where
  "ksyun_init getenv unmarshal cipherKey main =
     (case GetNeutronConfig getenv unmarshal cipherKey of
        Ok _ \<Rightarrow> main
      | Err _ \<Rightarrow> (\<lambda>w. (Ok 1, w))
      | Panic p \<Rightarrow> (\<lambda>w. (Panic p, w)))"

section \<open>Facts\<close>

lemma Validate_period:
  "Validate cfg = Ok c \<Longrightarrow> Minute \<le> cc_RouteReconciliationPeriod c \<and>
     (Minute \<le> cc_RouteReconciliationPeriod cfg \<longrightarrow> c = cfg)"
  by (auto simp: Validate_def split: if_splits)

text \<open>Every listed controller has to be known, and nothing else can be added.\<close>

lemma AddToManager_Ok:
  "AddToManager (controllerMap B) conts w = (Ok (), w') \<Longrightarrow> set conts \<subseteq> {''route''}"
  by (induction conts arbitrary: w)
     (auto simp: controllerMap_def on_res_def split: option.splits prod.splits res.splits if_splits)

text \<open>
  The process ends with code 0 only if it has a configuration with a known source of keys, its arguments could be
  parsed, and every controller they list is known.
\<close>

lemma manager_exit_zero:
  assumes "ksyun_init getenv unmarshal key (manager_main B args) w = (Ok 0, w')"
  obtains c cfg where "unmarshal (getenv ''NET_CONF'') = Ok c" "getenv ''NET_CONF'' \<noteq> ''''"
    "nf_AkskType c = ''env'' \<or> nf_AkskType c = ''file''"
    "LoadControllerConfig (bt_parse B) args = Ok cfg" "set (cc_Controllers cfg) \<subseteq> {''route''}"
    "Minute \<le> cc_RouteReconciliationPeriod cfg"
proof -
  obtain c p where conf: "GetNeutronConfig getenv unmarshal key = Ok (c, p)" and m: "manager_main B args w = (Ok 0, w')"
    using assms by (auto simp: ksyun_init_def split: res.splits)
  obtain cfg where cfg: "LoadControllerConfig (bt_parse B) args = Ok cfg"
    using m by (auto simp: manager_main_def split: res.splits)
  obtain u v where "AddToManager (controllerMap B) (cc_Controllers cfg) u = (Ok (), v)"
    using m cfg by (auto simp: manager_main_def on_res_def split: res.splits prod.splits)
  from AddToManager_Ok [OF this] have "set (cc_Controllers cfg) \<subseteq> {''route''}" .
  moreover have "Minute \<le> cc_RouteReconciliationPeriod cfg"
    using cfg Validate_period by (auto simp: LoadControllerConfig_def split: res.splits)
  ultimately show thesis using that conf cfg by (auto simp: GetNeutronConfig_Ok)
qed

section \<open>Property\<close>

text \<open>
  C40 The flag \<open>route-reconciliation-period\<close> has no effect: the program runs in the same way whatever period is
  given, because the reconciler is made with the default and nothing reads the configured period.
\<close>

theorem manager_main_ignores_period:
  "manager_main (B\<lparr>bt_parse := \<lambda>fs args. map_res (\<lambda>v. v(''route-reconciliation-period'' := FDur period))
       (bt_parse B fs args)\<rparr>) args
     = manager_main B args"
proof -
  have add: "Add (B\<lparr>bt_parse := p\<rparr>) = Add B" for p by (simp add: Add_def add_controller_def)
  have cm: "controllerMap (B\<lparr>bt_parse := p\<rparr>) = controllerMap B" for p by (simp add: controllerMap_def add)
  show ?thesis
    by (cases "bt_parse B controller_flags args")
       (auto simp: manager_main_def LoadControllerConfig_def Validate_def bound_controller_def bound_runtime_def cm)
qed

end
