(* ===== verification/Go_Time.thy ===== *)
theory Go_Time
  imports Prelude
begin

text \<open>
  The calendar of Go's \<open>time\<close> package, as far as \<open>pkg/util/iso6801.go\<close> uses it: dates from days and back, by the
  cycles of 400, 100, 4 and 1 years that the library divides out. Days are counted from the first of January of year 1.
\<close>

section \<open>Dates\<close>

definition isLeap :: "int \<Rightarrow> bool" where
  "isLeap year = (year mod 4 = 0 \<and> (year mod 100 \<noteq> 0 \<or> year mod 400 = 0))"

definition daysBefore :: "int list" where
  "daysBefore = [0, 31, 59, 90, 120, 151, 181, 212, 243, 273, 304, 334, 365]"

definition month_day :: "bool \<Rightarrow> int \<Rightarrow> int \<times> int" where
  "month_day leap yday =
     (if leap \<and> yday = 31 + 29 - 1 then (2, 29)
      else
        (let d = (if leap \<and> yday > 31 + 29 - 1 then yday - 1 else yday);
             m = d div 31;
             end = daysBefore ! nat (m + 1)
         in if d \<ge> end then (m + 2, d - end + 1) else (m + 1, d - daysBefore ! nat m + 1)))"

definition civil :: "int \<Rightarrow> int \<times> int \<times> int" where
  "civil days =
     (let n400 = days div 146097; d = days mod 146097;
          n = d div 36524; n100 = n - n div 4; d = d - 36524 * n100;
          n4 = d div 1461; d = d - 1461 * n4;
          n = d div 365; n1 = n - n div 4; d = d - 365 * n1;
          year = 400 * n400 + 100 * n100 + 4 * n4 + n1 + 1
      in (year, month_day (isLeap year) d))"

definition days_of :: "int \<Rightarrow> int \<Rightarrow> int \<Rightarrow> int" where
  "days_of year month day =
     (let y = year - 1;
          n400 = y div 400; y = y mod 400;
          n100 = y div 100; y = y mod 100;
          n4 = y div 4; n1 = y mod 4;
          d = 146097 * n400 + 36524 * n100 + 1461 * n4 + 365 * n1 + daysBefore ! nat (month - 1)
      in (if isLeap year \<and> month \<ge> 3 then d + 1 else d) + day - 1)"

definition days_in :: "int \<Rightarrow> int \<Rightarrow> int" where
  "days_in month year =
     (if month = 2 \<and> isLeap year then 29 else daysBefore ! nat month - daysBefore ! nat (month - 1))"

section \<open>Facts\<close>

lemma place_value:
  fixes a b x :: int
  assumes "0 \<le> x" "x < b"
  shows "(b * a + x) div b = a" "(b * a + x) mod b = x"
  using assms by simp_all

text \<open>The division of the days into years.\<close>

lemma cycles:
  fixes d :: int
  assumes "0 \<le> d" "d < 146097"
  defines "n100 \<equiv> d div 36524 - d div 36524 div 4"
  defines "r \<equiv> d - 36524 * n100"
  defines "n4 \<equiv> r div 1461"
  defines "s \<equiv> r - 1461 * n4"
  defines "n1 \<equiv> s div 365 - s div 365 div 4"
  defines "t \<equiv> s - 365 * n1"
  shows "0 \<le> n100" "n100 \<le> 3" "0 \<le> n4" "n4 \<le> 24" "0 \<le> n1" "n1 \<le> 3" "0 \<le> t" "t \<le> 365"
    and "d = 36524 * n100 + 1461 * n4 + 365 * n1 + t"
    and "t = 365 \<Longrightarrow> n1 = 3 \<and> (n4 < 24 \<or> n100 = 3)"
proof -
  have n: "0 \<le> n100 \<and> n100 \<le> 3 \<and> 0 \<le> r \<and> r \<le> 36524 \<and> (n100 < 3 \<longrightarrow> r < 36524)"
  proof -
    have "d div 36524 \<in> {0..4}" using assms(1,2) by auto
    then have "d div 36524 \<in> {0, 1, 2, 3, 4}" by auto
    then show ?thesis using assms(1,2) unfolding r_def n100_def by auto
  qed
  then have q: "0 \<le> n4 \<and> n4 \<le> 24 \<and> 0 \<le> s \<and> s \<le> 1460 \<and> (n4 = 24 \<longrightarrow> s \<le> 1460 \<and> (n100 < 3 \<longrightarrow> s < 1460))"
    unfolding s_def n4_def by auto
  have y: "0 \<le> n1 \<and> n1 \<le> 3 \<and> 0 \<le> t \<and> t \<le> 365 \<and> (t = 365 \<longrightarrow> n1 = 3 \<and> s = 1460)"
  proof -
    have "s div 365 \<in> {0..4}" using q by auto
    then have "s div 365 \<in> {0, 1, 2, 3, 4}" by auto
    then show ?thesis using q unfolding t_def n1_def by auto
  qed
  show "0 \<le> n100" "n100 \<le> 3" "0 \<le> n4" "n4 \<le> 24" "0 \<le> n1" "n1 \<le> 3" "0 \<le> t" "t \<le> 365"
    using n q y by simp_all
  show "d = 36524 * n100 + 1461 * n4 + 365 * n1 + t" by (simp add: r_def s_def t_def)
  show "n1 = 3 \<and> (n4 < 24 \<or> n100 = 3)" if "t = 365" using that y q n by linarith
qed

lemma month_day_ok:
  assumes "0 \<le> yday" "yday < 365 \<or> leap \<and> yday = 365" "month_day leap yday = (m, d)"
  shows "1 \<le> m" "m \<le> 12" "1 \<le> d"
    "d \<le> (if m = 2 \<and> leap then 29 else daysBefore ! nat m - daysBefore ! nat (m - 1))"
    "daysBefore ! nat (m - 1) + (if leap \<and> m \<ge> 3 then 1 else 0) + d - 1 = yday"
proof -
  have "1 \<le> m \<and> m \<le> 12 \<and> 1 \<le> d \<and>
    d \<le> (if m = 2 \<and> leap then 29 else daysBefore ! nat m - daysBefore ! nat (m - 1)) \<and>
    daysBefore ! nat (m - 1) + (if leap \<and> m \<ge> 3 then 1 else 0) + d - 1 = yday"
  proof (cases "leap \<and> yday = 59")
    case True
    then show ?thesis using assms(3) by (simp add: month_day_def daysBefore_def)
  next
    case False
    define k where "k = (if leap \<and> yday > 59 then yday - 1 else yday)"
    have k: "0 \<le> k" "k \<le> 364" and y: "yday = (if leap \<and> 59 \<le> k then k + 1 else k)"
      using assms(1,2) False by (auto simp: k_def)
    have md: "(m, d) = (if k \<ge> daysBefore ! nat (k div 31 + 1) then (k div 31 + 2, k - daysBefore ! nat (k div 31 + 1) + 1)
        else (k div 31 + 1, k - daysBefore ! nat (k div 31) + 1))"
      using assms(3) False unfolding month_day_def k_def by (auto simp: Let_def split: if_splits)
    obtain q where q: "q = k div 31" "31 * q \<le> k" "k < 31 * q + 31" by simp
    then have "q \<in> set [0..11]" using k by simp
    moreover have "[0..11] = [0, 1, 2, 3, 4, 5, 6, 7, 8, 9, 10, 11 :: int]" by code_simp
    ultimately have "q = 0 \<or> q = 1 \<or> q = 2 \<or> q = 3 \<or> q = 4 \<or> q = 5 \<or> q = 6 \<or> q = 7 \<or> q = 8
        \<or> q = 9 \<or> q = 10 \<or> q = 11" by simp
    then show ?thesis
      unfolding y using md [folded q(1)] q(2,3) k(2)
      by (elim disjE) (simp add: daysBefore_def split: if_splits; linarith)+
  qed
  then show "1 \<le> m" "m \<le> 12" "1 \<le> d"
    "d \<le> (if m = 2 \<and> leap then 29 else daysBefore ! nat m - daysBefore ! nat (m - 1))"
    "daysBefore ! nat (m - 1) + (if leap \<and> m \<ge> 3 then 1 else 0) + d - 1 = yday" by simp_all
qed

text \<open>A date is valid and gives its day back.\<close>

lemma civil_days:
  assumes "civil days = (year, month, day)"
  shows "days_of year month day = days" "1 \<le> month" "month \<le> 12" "1 \<le> day" "day \<le> days_in month year"
proof -
  define d where "d = days mod 146097"
  define n100 where "n100 = d div 36524 - d div 36524 div 4"
  define r where "r = d - 36524 * n100"
  define n4 where "n4 = r div 1461"
  define s where "s = r - 1461 * n4"
  define n1 where "n1 = s div 365 - s div 365 div 4"
  define t where "t = s - 365 * n1"
  define a where "a = days div 146097"
  have "0 \<le> d" "d < 146097" by (simp_all add: d_def)
  note c = cycles [OF this, folded n100_def, folded r_def, folded n4_def, folded s_def, folded n1_def, folded t_def]
  have y: "year = 400 * a + 100 * n100 + 4 * n4 + n1 + 1" "month_day (isLeap year) t = (month, day)"
    using assms unfolding civil_def Let_def d_def [symmetric] n100_def [symmetric] r_def [symmetric] n4_def [symmetric]
      s_def [symmetric] n1_def [symmetric] t_def [symmetric] a_def [symmetric] by auto
  have x: "0 \<le> 100 * n100 + (4 * n4 + n1)" "100 * n100 + (4 * n4 + n1) < 400" "0 \<le> 4 * n4 + n1" "4 * n4 + n1 < 100"
    "n1 < 4" using c(1-6) by simp_all
  have y1: "year - 1 = 400 * a + (100 * n100 + (4 * n4 + n1))" by (simp add: y(1))
  note p = place_value [OF x(1,2), of a] place_value [OF x(3,4), of n100] place_value [OF c(5) x(5), of n4]
  have "t < 365 \<or> isLeap year \<and> t = 365"
  proof (cases "t = 365")
    case True
    from c(10) [OF this] have n: "n1 = 3" "n4 < 24 \<or> n100 = 3" by simp_all
    have "isLeap year"
    proof (cases "n4 < 24")
      case True
      have "year = 100 * (4 * a + n100) + (4 * n4 + 4)" by (simp add: y(1) n(1))
      then have "year mod 100 = 4 * n4 + 4" using place_value(2) [of "4 * n4 + 4" 100 "4 * a + n100"] True c(3) by simp
      moreover have "year = 4 * (100 * a + 25 * n100 + n4 + 1)" by (simp add: y(1) n(1))
      ultimately show ?thesis using c(3) by (simp add: isLeap_def)
    next
      case False
      then have "year = 400 * (a + 1)" using n c(4) by (simp add: y(1))
      then show ?thesis by (simp add: isLeap_def)
    qed
    then show ?thesis using True by simp
  qed (use c(8) in simp)
  note m = month_day_ok [OF c(7) this y(2)]
  show "1 \<le> month" "month \<le> 12" "1 \<le> day" using m by simp_all
  show "day \<le> days_in month year" using m(4) by (simp add: days_in_def)
  have "days = 146097 * a + d" by (simp add: a_def d_def)
  then show "days_of year month day = days"
    using c(9) m(5) by (simp add: days_of_def Let_def y1 p c(5,6) del: div_mult_self4 mod_mult_self4 split: if_splits)
qed

end
