(* ===== verification/Iso_Time.thy ===== *)
theory Iso_Time
  imports Go_Time
begin

text \<open>
  The times of \<open>pkg/util/iso6801.go\<close>. A \<open>time.Time\<close> is an instant (seconds since the first of January of year 1,
  and nanoseconds) with the offset of its location from UTC, in seconds.
\<close>

section \<open>Times in Go\<close>

record Time =
  tm_sec :: int
  tm_nsec :: int
  tm_off :: int

definition unix_epoch :: int where "unix_epoch = 62135596800"

text \<open>What a clock of the location shows: date, and hour, minute and second.\<close>

definition local_sec :: "Time \<Rightarrow> int" where "local_sec t = tm_sec t + tm_off t"

definition date_of :: "int \<Rightarrow> int \<times> int \<times> int" where "date_of s = civil (s div 86400)"

definition clock_of :: "int \<Rightarrow> int \<times> int \<times> int" where
  "clock_of s = (let r = s mod 86400 in (r div 3600, r mod 3600 div 60, r mod 60))"

text \<open>\<open>time.Date\<close> in UTC, for fields in their ranges.\<close>

definition Date_UTC :: "int \<times> int \<times> int \<Rightarrow> int \<times> int \<times> int \<Rightarrow> int \<Rightarrow> Time" where
  "Date_UTC date clock nsec =
     (case date of (year, month, day) \<Rightarrow> case clock of (hour, minute, second) \<Rightarrow>
        \<lparr>tm_sec = 86400 * days_of year month day + (3600 * hour + (60 * minute + second)), tm_nsec = nsec, tm_off = 0\<rparr>)"

text \<open>\<open>time.Unix\<close>, in the local zone: nanoseconds are carried over into seconds.\<close>

definition time_Unix :: "(int \<Rightarrow> int) \<Rightarrow> int \<Rightarrow> int \<Rightarrow> Time" where
  "time_Unix zone sec nsec =
     (let s = sec + nsec div 1000000000 + unix_epoch
      in \<lparr>tm_sec = s, tm_nsec = nsec mod 1000000000, tm_off = zone s\<rparr>)"

section \<open>Printing\<close>

fun last_digits :: "nat \<Rightarrow> nat \<Rightarrow> string" where
  "last_digits 0 n = ''''"
| "last_digits (Suc w) n = last_digits w (n div 10) @ [digit (n mod 10)]"

text \<open>A number with at least \<open>w\<close> digits; \<open>Format\<close> puts the sign before the digits, \<open>%04d\<close> counts it as one of them.\<close>

definition padded :: "nat \<Rightarrow> nat \<Rightarrow> string" where
  "padded w n = (if n < 10 ^ w then last_digits w n else dec n)"

definition appendInt :: "nat \<Rightarrow> int \<Rightarrow> string" where
  "appendInt w i = (if i < 0 then ''-'' @ padded w (nat (- i)) else padded w (nat i))"

definition fmt_0d :: "nat \<Rightarrow> int \<Rightarrow> string" where
  "fmt_0d w i = (if i < 0 then ''-'' @ padded (w - 1) (nat (- i)) else padded w (nat i))"

definition iso_text :: "(nat \<Rightarrow> int \<Rightarrow> string) \<Rightarrow> int \<Rightarrow> string" where
  "iso_text f s =
     (case date_of s of (year, month, day) \<Rightarrow> case clock_of s of (hour, minute, second) \<Rightarrow>
        f 4 year @ ''-'' @ f 2 month @ ''-'' @ f 2 day @ ''T'' @ f 2 hour @ '':'' @ f 2 minute @ '':'' @ f 2 second @ ''Z'')"

definition GetISO8601TimeStamp :: "Time \<Rightarrow> string" where
  "GetISO8601TimeStamp ts = iso_text fmt_0d (tm_sec ts)"

section \<open>The type ISO6801Time\<close>

definition NewISO6801Time :: "Time \<Rightarrow> Time" where
  "NewISO6801Time t = Date_UTC (date_of (local_sec t)) (clock_of (local_sec t)) 0"

definition IsDefault :: "Time \<Rightarrow> bool" where
  "IsDefault it = (it = \<lparr>tm_sec = 0, tm_nsec = 0, tm_off = 0\<rparr>)"

definition Iso_String :: "Time \<Rightarrow> string" where
  "Iso_String it = iso_text appendInt (local_sec it)"

definition Iso_MarshalJSON :: "Time \<Rightarrow> string res" where
  "Iso_MarshalJSON it = Ok (CHR 0x22 # Iso_String it @ [CHR 0x22])"

section \<open>Parsing\<close>

definition lit :: "string \<Rightarrow> string \<Rightarrow> string option" where
  "lit p s = (if take (length p) s = p then Some (drop (length p) s) else None)"

fun getnum :: "bool \<Rightarrow> string \<Rightarrow> (int \<times> string) option" where
  "getnum fixed [] = None"
| "getnum fixed [c] = (if is_digit c \<and> \<not> fixed then Some (int (digit_val c), []) else None)"
| "getnum fixed (c # d # s) =
     (if \<not> is_digit c then None
      else if is_digit d then Some (int (10 * digit_val c + digit_val d), s)
      else if fixed then None else Some (int (digit_val c), d # s))"

definition get_year :: "string \<Rightarrow> (int \<times> string) option" where
  "get_year s = (if length s \<ge> 4 \<and> list_all is_digit (take 4 s) then Some (int (dec_val 0 (take 4 s)), drop 4 s) else None)"

text \<open>A fraction of a second that the layout does not have is read all the same.\<close>

definition get_fraction :: "string \<Rightarrow> int \<times> string" where
  "get_fraction s =
     (case s of
        c # d # r \<Rightarrow>
          if (c = CHR ''.'' \<or> c = CHR '','') \<and> is_digit d
          then (int (dec_val 0 (take 9 (takeWhile is_digit (d # r) @ replicate 9 (CHR ''0'')))), dropWhile is_digit (d # r))
          else (0, s)
      | _ \<Rightarrow> (0, s))"

definition in_range :: "int \<Rightarrow> int \<Rightarrow> (int \<times> string) option \<Rightarrow> (int \<times> string) option" where
  "in_range a b x = (case x of Some (n, s) \<Rightarrow> if a \<le> n \<and> n \<le> b then x else None | None \<Rightarrow> None)"

text \<open>\<open>time.ParseInLocation\<close> with the quoted layouts, with and without seconds.\<close>

definition parse_seconds :: "bool \<Rightarrow> string \<Rightarrow> (int \<times> int \<times> string) option" where
  "parse_seconds with_seconds s =
     (if with_seconds then
        Option.bind (lit '':'' s) (\<lambda>s.
        Option.bind (in_range 0 59 (getnum True s)) (\<lambda>(second, s).
        case get_fraction s of (nsec, s) \<Rightarrow> Some (second, nsec, s)))
      else Some (0, 0, s))"

definition parse_iso :: "bool \<Rightarrow> string \<Rightarrow> Time option" where
  "parse_iso with_seconds s =
     Option.bind (lit [CHR 0x22] s) (\<lambda>s.
     Option.bind (get_year s) (\<lambda>(year, s).
     Option.bind (lit ''-'' s) (\<lambda>s.
     Option.bind (in_range 1 12 (getnum True s)) (\<lambda>(month, s).
     Option.bind (lit ''-'' s) (\<lambda>s.
     Option.bind (getnum True s) (\<lambda>(day, s).
     Option.bind (lit ''T'' s) (\<lambda>s.
     Option.bind (in_range 0 23 (getnum False s)) (\<lambda>(hour, s).
     Option.bind (lit '':'' s) (\<lambda>s.
     Option.bind (in_range 0 59 (getnum True s)) (\<lambda>(minute, s).
     Option.bind (parse_seconds with_seconds s) (\<lambda>(second, nsec, s).
     Option.bind (lit (''Z'' @ [CHR 0x22]) s) (\<lambda>s.
     if s = [] \<and> 1 \<le> day \<and> day \<le> days_in month year
     then Some (Date_UTC (year, month, day) (hour, minute, second) nsec) else None))))))))))))"

definition ParseInt :: "string \<Rightarrow> int option" where
  "ParseInt s =
     (let (neg, ds) = (case s of c # r \<Rightarrow> (if c = CHR ''-'' then (True, r) else if c = CHR ''+'' then (False, r) else (False, s))
                        | [] \<Rightarrow> (False, []));
          i = (if neg then - int (dec_val 0 ds) else int (dec_val 0 ds))
      in if ds \<noteq> [] \<and> list_all is_digit ds \<and> - (2 ^ 63) \<le> i \<and> i < 2 ^ 63 then Some i else None)"

text \<open>Division of integers in Go: the quotient is cut towards zero.\<close>

definition go_div :: "int \<Rightarrow> int \<Rightarrow> int" where "go_div a b = (if a < 0 then - ((- a) div b) else a div b)"
definition go_mod :: "int \<Rightarrow> int \<Rightarrow> int" where "go_mod a b = a - b * go_div a b"

text \<open>The new value of \<open>*it\<close>; with an error it is not assigned. The texts of the errors are shortened.\<close>

definition Iso_UnmarshalJSON :: "(int \<Rightarrow> int) \<Rightarrow> string \<Rightarrow> Time \<Rightarrow> Time res" where
  "Iso_UnmarshalJSON zone str it =
     (if str = [CHR 0x22, CHR 0x22] \<or> length str = 0 then Ok it
      else if hd str = CHR 0x22 then
        (case parse_iso True str of
           Some t \<Rightarrow> Ok t
         | None \<Rightarrow>
             (case parse_iso False str of
                Some t \<Rightarrow> Ok t
              | None \<Rightarrow> Err (ErrorString (''parsing time '' @ str))))
      else
        (case ParseInt str of
           Some i \<Rightarrow> Ok (time_Unix zone (go_div i 1000) (go_mod i 1000))
         | None \<Rightarrow> Err (ErrorString (''strconv.ParseInt: parsing '' @ str))))"

section \<open>Facts\<close>

lemma last_digits_digits: "list_all is_digit (last_digits w n)" "length (last_digits w n) = w"
  by (induction w arbitrary: n) simp_all

lemma last_digits_val: "n < 10 ^ w \<Longrightarrow> dec_val 0 (last_digits w n) = n"
  by (induction w arbitrary: n) (simp_all add: dec_val_append div_less_iff_less_mult mult.commute)

lemma lit_append [simp]: "lit p (p @ s) = Some s"
  by (simp add: lit_def)

lemma lit_Cons [simp]: "lit [c] (c # s) = Some s"
  by (simp add: lit_def)

lemma getnum_two:
  assumes "0 \<le> n" "n < 100"
  shows "getnum fixed (appendInt 2 n @ s) = Some (n, s)"
proof -
  have "nat n < 100" using assms by simp
  then show ?thesis using assms by (simp add: appendInt_def padded_def numeral_2_eq_2)
qed

lemma get_year_four:
  assumes "0 \<le> n" "n < 10000"
  shows "get_year (appendInt 4 n @ s) = Some (n, s)"
proof -
  have "nat n < 10000" using assms by simp
  then have "appendInt 4 n = last_digits 4 (nat n)" using assms by (simp add: appendInt_def padded_def)
  then show ?thesis
    using last_digits_digits [of 4 "nat n"] last_digits_val [of "nat n" 4] assms by (simp add: get_year_def)
qed

lemma in_range_two:
  "0 \<le> a \<Longrightarrow> a \<le> n \<Longrightarrow> n \<le> b \<Longrightarrow> b < 100 \<Longrightarrow> in_range a b (getnum fixed (appendInt 2 n @ s)) = Some (n, s)" for a b :: int
  by (simp add: in_range_def getnum_two)

lemma get_fraction_Z: "get_fraction (CHR ''Z'' # s) = (0, CHR ''Z'' # s)"
  by (simp add: get_fraction_def split: list.split)

lemma lit_close: "lit (CHR ''Z'' # [CHR 0x22]) (CHR ''Z'' # CHR 0x22 # s) = Some s"
  by (simp add: lit_def)

lemma clock_ranges:
  assumes "clock_of s = (h, m, x)"
  shows "0 \<le> h" "h \<le> 23" "0 \<le> m" "m \<le> 59" "0 \<le> x" "x \<le> 59"
    "s = 86400 * (s div 86400) + (3600 * h + (60 * m + x))"
proof -
  have r: "0 \<le> s mod 86400" "s mod 86400 < 86400" by simp_all
  have e: "h = s mod 86400 div 3600" "m = s mod 86400 mod 3600 div 60" "x = s mod 86400 mod 60"
    using assms by (auto simp: clock_of_def Let_def)
  show "0 \<le> h" "h \<le> 23" using r e by auto
  have q: "0 \<le> s mod 86400 mod 3600" "s mod 86400 mod 3600 < 3600" by simp_all
  show "0 \<le> m" "m \<le> 59" using q e(2) by auto
  show "0 \<le> x" "x \<le> 59" by (simp_all add: e(3))
  have "s mod 86400 mod 60 = s mod 86400 mod 3600 mod 60" by (simp add: mod_mod_cancel)
  then have "60 * m + x = s mod 86400 mod 3600" unfolding e by simp
  then have "3600 * h + (60 * m + x) = s mod 86400" unfolding e(1) by simp
  then show "s = 86400 * (s div 86400) + (3600 * h + (60 * m + x))" by simp
qed

lemma NewISO6801Time_sec: "NewISO6801Time t = \<lparr>tm_sec = local_sec t, tm_nsec = 0, tm_off = 0\<rparr>"
proof -
  obtain Y M D where d: "date_of (local_sec t) = (Y, M, D)" by (metis surj_pair)
  obtain h m x where c: "clock_of (local_sec t) = (h, m, x)" by (metis surj_pair)
  have "days_of Y M D = local_sec t div 86400" using civil_days(1) d by (simp add: date_of_def)
  then show ?thesis using clock_ranges(7) [OF c] by (simp add: NewISO6801Time_def d c Date_UTC_def)
qed

section \<open>Properties\<close>

text \<open>
  C39 A time that is written as JSON is read back to the second, if its year has four digits; but the clock of its
  location is written and read as UTC: the instant is the same only for a location without offset.
\<close>

theorem Iso_json_roundtrip:
  assumes "date_of (local_sec t) = (year, month, day)" "0 \<le> year" "year \<le> 9999" "Iso_MarshalJSON t = Ok str"
  shows "Iso_UnmarshalJSON zone str it = Ok (NewISO6801Time t) \<and>
    tm_sec (NewISO6801Time t) = tm_sec t + tm_off t"
proof -
  obtain h m x where c: "clock_of (local_sec t) = (h, m, x)" by (metis surj_pair)
  note r = clock_ranges [OF c]
  note d = civil_days [OF assms(1) [unfolded date_of_def]]
  have len: "days_in month year \<le> 31"
  proof -
    have "month \<in> set [1..12]" using d(2,3) by simp
    moreover have "[1..12] = [1, 2, 3, 4, 5, 6, 7, 8, 9, 10, 11, 12 :: int]" by code_simp
    ultimately have "month = 1 \<or> month = 2 \<or> month = 3 \<or> month = 4 \<or> month = 5 \<or> month = 6 \<or> month = 7
      \<or> month = 8 \<or> month = 9 \<or> month = 10 \<or> month = 11 \<or> month = 12" by simp
    then show ?thesis by (elim disjE) (simp_all add: days_in_def daysBefore_def)
  qed
  have q: "str = [CHR 0x22] @ appendInt 4 year @ ''-'' @ appendInt 2 month @ ''-'' @ appendInt 2 day @ ''T''
     @ appendInt 2 h @ '':'' @ appendInt 2 m @ '':'' @ appendInt 2 x @ ''Z'' @ [CHR 0x22]"
    using assms(1,4) c by (simp add: Iso_MarshalJSON_def Iso_String_def iso_text_def)
  note nums = in_range_two [of 1 month 12 True] in_range_two [of 0 h 23 False] in_range_two [of 0 m 59 True]
    in_range_two [of 0 x 59 True]
  have y: "0 \<le> year" "year < 10000" and day: "0 \<le> day" "day < 100" using assms(2,3) d(4,5) len by simp_all
  have "parse_iso True str = Some (Date_UTC (year, month, day) (h, m, x) 0)"
    unfolding q parse_iso_def parse_seconds_def
    using d(2-5) r by (simp add: nums get_year_four [OF y] getnum_two [OF day] get_fraction_Z lit_close)
  then have "Iso_UnmarshalJSON zone str it = Ok (Date_UTC (year, month, day) (h, m, x) 0)"
    by (simp add: Iso_UnmarshalJSON_def q)
  moreover have "NewISO6801Time t = Date_UTC (year, month, day) (h, m, x) 0"
    by (simp add: NewISO6801Time_def assms(1) c)
  ultimately have "Iso_UnmarshalJSON zone str it = Ok (NewISO6801Time t)" by simp
  then show ?thesis by (simp add: NewISO6801Time_sec local_sec_def)
qed

theorem Iso_json_roundtrip_witness:
  "Iso_UnmarshalJSON (\<lambda>_. 28800)
       (CHR 0x22 # Iso_String \<lparr>tm_sec = unix_epoch, tm_nsec = 5, tm_off = 28800\<rparr> @ [CHR 0x22])
       \<lparr>tm_sec = 0, tm_nsec = 0, tm_off = 0\<rparr>
     = Ok \<lparr>tm_sec = unix_epoch + 28800, tm_nsec = 0, tm_off = 0\<rparr>"
proof -
  let ?t = "\<lparr>tm_sec = unix_epoch, tm_nsec = 5, tm_off = 28800\<rparr>"
  have "date_of (local_sec ?t) = (1970, 1, 1)" by code_simp
  from Iso_json_roundtrip [OF this _ _ Iso_MarshalJSON_def] show ?thesis
    using NewISO6801Time_sec [of ?t] by (simp add: local_sec_def)
qed

text \<open>A number is read in milliseconds, but the part below a second becomes nanoseconds.\<close>

lemma Iso_number_nanoseconds:
  assumes "n < 2 ^ 63"
  shows "Iso_UnmarshalJSON zone (dec n) it = Ok (time_Unix zone (int (n div 1000)) (int (n mod 1000)))"
proof -
  have d: "list_all is_digit (dec n)" "dec n \<noteq> []" by (rule dec_digits, rule dec_nonempty)
  obtain c r where cr: "dec n = c # r" using d(2) by (cases "dec n") auto
  then have c: "is_digit c" using d(1) by simp
  have nq: "c \<noteq> CHR 0x22 \<and> c \<noteq> CHR ''-'' \<and> c \<noteq> CHR ''+''" using c by (auto simp: is_digit_def)
  have "(int n :: int) < 2 ^ 63" using assms by (metis of_nat_less_iff of_nat_numeral of_nat_power)
  then have "ParseInt (dec n) = Some (int n)"
    using d nq dec_val_dec [of n] by (simp add: ParseInt_def cr)
  then show ?thesis
    using nq by (simp add: Iso_UnmarshalJSON_def cr go_div_def go_mod_def zdiv_int zmod_int minus_mult_div_eq_mod)
qed

end
