(* ===== verification/Metrics.thy ===== *)
theory Metrics
  imports Prelude
begin

text \<open>
  \<open>pkg/util/metric/metrics.go\<close>: the histogram of latencies. The registry of Prometheus is the list of the names
  registered; it panics when a name is registered twice.
\<close>

record HistogramOpts =
  ho_Name :: string
  ho_Buckets :: "int list"
  ho_Labels :: "string list"

definition RouteLatency :: HistogramOpts where
  "RouteLatency = \<lparr>ho_Name = ''ccm_route_latencies_duration_milliseconds'',
     ho_Buckets = [100, 200, 300, 400, 500, 600, 700, 800, 900, 1000,
       1500, 2000, 3000, 4000, 5000, 6000, 7000, 8000, 9000, 10000],
     ho_Labels = [''verb'']\<rparr>"

text \<open>
  Times and durations are in nanoseconds. The division of integers cuts towards zero. A duration of 64 bits has fewer
  than \<open>2 ^ 53\<close> milliseconds, so the conversion to float64 is exact and the result is a whole number here.
\<close>

definition MsSince :: "('w \<Rightarrow> int \<times> 'w) \<Rightarrow> int \<Rightarrow> 'w \<Rightarrow> int \<times> 'w" where
  "MsSince clock start w =
     (let (t, w') = clock w; d = t - start in (if d < 0 then - ((- d) div 1000000) else d div 1000000, w'))"

definition RegisterPrometheus :: "string list \<Rightarrow> string list res" where
  "RegisterPrometheus registry =
     (if ho_Name RouteLatency \<in> set registry
      then Panic ''duplicate metrics collector registration attempted''
      else Ok (ho_Name RouteLatency # registry))"

section \<open>Facts\<close>

text \<open>Prometheus panics unless the buckets are strictly ascending.\<close>

lemma RouteLatency_buckets_ascend: "sorted_wrt (<) (ho_Buckets RouteLatency)"
  by (simp add: RouteLatency_def)

text \<open>The milliseconds are right to within one, and never more than passed.\<close>

lemma MsSince_within:
  assumes "clock w = (t, w')" "start \<le> t" "MsSince clock start w = (ms, v)"
  shows "ms * 1000000 \<le> t - start" "t - start < (ms + 1) * 1000000"
proof -
  have "ms = (t - start) div 1000000" using assms by (simp add: MsSince_def)
  then have "ms * 1000000 + (t - start) mod 1000000 = t - start" by (simp only: div_mult_mod_eq)
  moreover have "0 \<le> (t - start) mod 1000000" "(t - start) mod 1000000 < 1000000" by simp_all
  ultimately show "ms * 1000000 \<le> t - start" "t - start < (ms + 1) * 1000000"
    unfolding distrib_right by linarith+
qed

lemma RegisterPrometheus_twice:
  "RegisterPrometheus r = Ok r' \<Longrightarrow> is_panic (RegisterPrometheus r')"
  by (auto simp: RegisterPrometheus_def split: if_splits)

end
