(* ===== verification/Spec2Isabelle.thy ===== *)
theory Spec2Isabelle
  imports Byte_Order Controller_Properties Work_Queue Next_Hop Query_Values Http_Helpers Server_Client
    Settling Orphans Progress Table_Refinement Attempts Util_Misc Aes_Text Tun_Device Iface Startup Iso_Time Metrics
begin

text \<open>
  A verification of the VPC route controller: a Kubernetes controller that gives every node of a cluster a
  route in the VPC of the cloud, from the node's pod CIDR to the node's instance, and marks the nodes whose
  network is ready.

  \<^bold>\<open>The program and its parts.\<close> The reconciler (\<open>pkg/controller/route\<close>) handles one node per request
  (\<open>Reconcile\<close>) and all nodes in a periodic pass (\<open>reconcileForCluster\<close>, \<open>syncRoutes\<close>). A predicate decides
  which updates of nodes become requests. Routes are listed, created and deleted through \<open>pkg/ksyun\<close>, which
  opens a \<open>RouteClient\<close> (\<open>pkg/ksyun/openstack_client/neutron\<close>) for each call; that client builds signed requests
  with the HTTP client of \<open>pkg/http\<close> and retries them. On every node an agent (\<open>cmd/annotation\<close>) writes the
  instance id into an annotation, from which the reconciler takes the next hop.

  \<^bold>\<open>How code becomes definitions.\<close> A Go function that returns a value and an error is a function into
  \<open>'a res\<close> (\<open>Ok\<close>, \<open>Err\<close> with a \<open>gerror\<close>, or \<open>Panic\<close> with the message of a run-time panic); one with effects takes
  and returns the state of the world (\<open>('w, 'a) eff\<close>), and \<open>on_res m k h\<close> is \<open>x, err := m(); if err != nil { h }; k\<close>.
  What is not in the repository, the API server, the cloud, the clock, the library functions, is a field of the
  record \<open>'w env\<close> (theory World), an argument \<open>E\<close> of the definitions. What the code relies on of it is stated as
  predicates named \<open>..._documented\<close>. Definitions have the names of the source where HOL allows it.

  \<^bold>\<open>Theories.\<close>
  \<^item> Prelude: results, effects, strings and decimal numbers, the predicates \<open>keeps\<close> and \<open>calm\<close>.
  \<^item> World, Retry_Loop: the environment; the interface \<open>retry_loop\<close> of every bounded loop, interpreted for
    \<open>wait.ExponentialBackoff\<close>, \<open>retry.Do\<close>, the patch loop and the wait for a route.
  \<^item> Net_Addr, Net_Facts: Go's \<open>net\<close> package as far as the code uses it (ParseIP, ParseCIDR, Contains, String)
    and its facts over numbers. Address_Block is the interface of a block of addresses, interpreted for
    \<open>net.IPNet\<close> and for the 32-bit networks of \<open>pkg/util/ip/ipnet.go\<close>, which are theory Ip4. Byte_Order
    (\<open>util/ip/endianess.go\<close>): the byte order of the machine and of the network.
  \<^item> Kube_Node (\<open>helper/node_utils.go\<close>, \<open>annotation/node.go\<close>): nodes, conditions, labels, annotations. Node_Status:
    \<open>PatchM\<close> and \<open>updateNetworkingCondition\<close>.
  \<^item> Kop_Http (\<open>http/kophttp.go\<close>, \<open>util/retry.go\<close>, \<open>util/random\<close>), Query_Codec: requests and their query strings.
    Neutron_Client (\<open>neutron/route.go\<close>, \<open>alarm/alarm.go\<close>), Ksyun_Api (\<open>ksyun/ksyun.go\<close>).
  \<^item> Route_Manager (\<open>route/manager.go\<close>): which CIDR a node has, when a route conflicts, creation with back-off.
    Route_Controller (\<open>route_controller.go\<close>): one node, one event, the periodic pass.
  \<^item> Vpc_Api: the contract of the cloud (locales \<open>vpc_api\<close>, \<open>controller_world\<close>, \<open>calm_world\<close>) over an abstract table
    from CIDRs to routes, and the controller verified against it. Reference_Cloud: a cloud that answers the
    HTTP requests of the client; Reference_Run interprets the contract on it, so that the controller's theorems
    hold down to the requests. Failing_Cloud: a cloud that answers every request with an error status.
    Table_Refinement: the operations of \<open>pkg/ksyun\<close> refine a map from CIDRs to instances. Convergence: repeated passes.
  \<^item> Thread_Steps: passes and requests in steps, with changes of users in between; the locale \<open>system_invariant\<close> of
    what holds in every state. Route_Guard: the locale \<open>route_guard\<close> of the reasons why a route is never deleted,
    and that such a route is there in every state. It is interpreted for the network of a node (Interleaving) and for a
    route no node has to do with (Orphans). Settling: interrupted passes converge; Progress: the threads are
    never stuck.
  \<^item> Client_Properties, Controller_Properties: properties in any environment.
  \<^item> Event_Filter (\<open>predicate.go\<close>), Node_Agent (\<open>pkg/annotation\<close>, \<open>cmd/annotation\<close>), Next_Hop: agent, predicate and
    reconciler composed.
  \<^item> Startup (\<open>cmd/manager\<close>, \<open>pkg/config\<close>, \<open>controller.go\<close>, the \<open>init\<close> of \<open>ksyun.go\<close>): flags, options, registration,
    the exit code and what a code of 0 means.
  \<^item> Query_Values (\<open>util/encoding.go\<close> over Go values as \<open>reflect\<close> sees them), Http_Helpers (\<open>http/http.go\<close>, \<open>Encode\<close>,
    the notifier), Server_Client (\<open>nova/server.go\<close>, \<open>GetInstanceIdFromIP\<close>, \<open>GetNeutronConfig\<close>), Attempts
    (\<open>util/attempt.go\<close>), Go_Time and Iso_Time (the calendar of Go and \<open>util/iso6801.go\<close>), Util_Misc (\<open>util/util.go\<close>,
    \<open>types\<close>), Aes and Aes_Text (AES, CBC, base64 and \<open>AesDecrypt\<close>), Iface (\<open>util/ip/iface.go\<close>), Tun_Device
    (\<open>util/ip/tun_posix.go\<close>), Metrics (\<open>util/metric/metrics.go\<close>).
  \<^item> Work_Queue (\<open>helper/queue.go\<close>): the task queue with concurrent workers as a step relation over the interface
    \<open>workqueue\<close> of the library's queue, interpreted on a FIFO queue.

  \<^bold>\<open>What the theorems show.\<close> Against the reference cloud: an event of a live node ensures its route, the event of a
  deleted node removes it, a pass creates missing routes, removes conflicting ones and leaves right ones alone,
  and a node whose CIDR is routed elsewhere is left without a route, but two passes give every node its route, also
  when requests and users act in between, and then no interleaving takes it away. A route that no node has to do with
  is left alone: that of a user, but also that of a node deleted while no controller was running. The instance id
  that the metadata service reports to the agent becomes the next hop of the route. The calls of the cloud refine
  an abstract map. The containment test by end points is exact.
  The IPv4 words agree with \<open>net.IPNet\<close>, and their JSON form is read back. Queries are read back by the server.
  The loops are bounded, and the ways they end are characterised. The queue loses no task, runs none twice at a
  time, and shuts down; closing its channel panics exactly with several workers. The agent's exit code 0 means
  both annotations are there.

  \<^bold>\<open>Bounds and fuel.\<close> No definition takes fuel. Loops end by structural recursion or a measure: three checks to
  create a route (\<open>createBackoff\<close>), ten attempts of a request (the default of \<open>retry.Do\<close>), three patches of a status,
  one poll per five seconds of the timeout, twelve for the default. The agent's main loop may run forever and is a
  \<open>partial_function (option)\<close>.

  \<^bold>\<open>Not modelled.\<close> Logging, tracing, the observation of latencies (of \<open>metric\<close> the histogram's options, the unit of its
  samples and its registration are) and mutexes (an operation of a client is one step; in Thread_Steps a
  request is interrupted after its reads and a pass between its rounds). The unsigned POST, which no client sends, drains
  its body buffer on the first attempt; \<open>send\<close> does not model this. JSON
  encoding, signing, flag parsing, controller-runtime, netlink, the system call of the tunnel and the transport are
  parameters.
\<close>

end
